(* ===== verification/Prelude.thy ===== *)
theory Prelude
  imports Main "HOL-Library.Word"
begin

text \<open>
  Shared ground of the development: the machine integer types, outcomes of Rust code that
  may panic, little-endian byte strings, bit ranges of a register, byte-addressed memory and
  a few facts on lists. Nothing here models a line of the repository on its own; the
  component theories build on it.
\<close>

unbundle bit_operations_syntax

type_synonym u8 = "8 word"
type_synonym u16 = "16 word"
type_synonym u32 = "32 word"
type_synonym u64 = "64 word"

named_theorems exec_simps \<open>equations that run a model of fallible code one step\<close>
named_theorems mem_simps \<open>equations on loads and stores\<close>

section \<open>Outcomes of code that may panic\<close>

text \<open>
  A Rust panic (a failed \<open>assert!\<close>, an \<open>unwrap\<close>, an \<open>expect\<close>, an index out of range)
  ends the computation. It is the left value of a sum and carries the site that panicked.
  A \<open>Result\<close> of the source is a sum below that level, an \<open>Option\<close> an option.
\<close>

datatype fault = Panic string

type_synonym 'a outcome = "fault + 'a"

abbreviation ok :: "'a \<Rightarrow> 'a outcome" where
  "ok \<equiv> Inr"

abbreviation panic :: "string \<Rightarrow> 'a outcome" where
  "panic site \<equiv> Inl (Panic site)"

definition and_then :: "'a outcome \<Rightarrow> ('a \<Rightarrow> 'b outcome) \<Rightarrow> 'b outcome" where
  "and_then m f = (case m of Inl e \<Rightarrow> Inl e | Inr x \<Rightarrow> f x)"

lemma and_then_simps [simp, exec_simps]:
  "and_then (Inr x) f = f x"
  "and_then (Inl e) f = Inl e"
  by (simp_all add: and_then_def)

lemma and_then_cong [fundef_cong]:
  "m = m' \<Longrightarrow> (\<And>x. m' = Inr x \<Longrightarrow> f x = g x) \<Longrightarrow> and_then m f = and_then m' g"
  by (cases m') simp_all

lemma and_then_Inr_iff: "and_then m f = Inr y \<longleftrightarrow> (\<exists>x. m = Inr x \<and> f x = Inr y)"
  by (cases m) auto

lemma and_then_assoc: "and_then (and_then m f) g = and_then m (\<lambda>x. and_then (f x) g)"
  by (cases m) auto

text \<open>The operator \<open>?\<close> on a fallible operation whose error is a value.\<close>

definition try_then :: "('e + 'a) outcome \<Rightarrow> ('a \<Rightarrow> ('e + 'b) outcome) \<Rightarrow> ('e + 'b) outcome" where
  "try_then r f = and_then r (\<lambda>x. case x of Inl e \<Rightarrow> ok (Inl e) | Inr y \<Rightarrow> f y)"

lemma try_then_simps [simp]:
  "try_then (Inr (Inr x)) f = f x"
  "try_then (Inr (Inl e)) f = Inr (Inl e)"
  "try_then (Inl p) f = Inl p"
  by (simp_all add: try_then_def)

lemma try_then_Inr_iff: "try_then r f = Inr (Inr y) \<longleftrightarrow> (\<exists>x. r = Inr (Inr x) \<and> f x = Inr (Inr y))"
  by (auto simp: try_then_def and_then_def split: sum.splits)

definition unwrap :: "string \<Rightarrow> 'a option \<Rightarrow> 'a outcome" where
  "unwrap site x = (case x of None \<Rightarrow> panic site | Some v \<Rightarrow> ok v)"

lemma unwrap_simps [simp, exec_simps]:
  "unwrap site (Some v) = Inr v"
  "unwrap site None = Inl (Panic site)"
  by (simp_all add: unwrap_def)

definition assert_that :: "bool \<Rightarrow> string \<Rightarrow> unit outcome" where
  "assert_that b site = (if b then ok () else panic site)"

lemma assert_that_simps [simp, exec_simps]:
  "assert_that True site = Inr ()"
  "assert_that False site = Inl (Panic site)"
  by (simp_all add: assert_that_def)

section \<open>Saturating arithmetic\<close>

definition saturating_add :: "u32 \<Rightarrow> u32 \<Rightarrow> u32" where
  "saturating_add a b = (if unat a + unat b < 2 ^ 32 then a + b else - 1)"

definition saturating_sub :: "u32 \<Rightarrow> u32 \<Rightarrow> u32" where
  "saturating_sub a b = (if a < b then 0 else a - b)"

lemma unat_u32_less: "unat (a :: u32) < 2 ^ 32"
  using unsigned_less [of a] by simp

lemma unat_add_u32: "unat a + n < 2 ^ 32 \<Longrightarrow> unat (a + of_nat n :: u32) = unat a + n"
  by (simp add: unat_word_ariths(1) unat_of_nat)

text \<open>An aligned address leaves room for the rest of its unit.\<close>

lemma aligned_no_wrap:
  assumes "unat (a :: u32) mod k = 0" and "i < k" and "k dvd 2 ^ 32"
  shows "unat a + i < 2 ^ 32"
proof -
  obtain q where q: "unat a = k * q" using assms(1) by (auto simp: mod_eq_0_iff_dvd)
  obtain r where r: "(2::nat) ^ 32 = k * r" using assms(3) by (rule dvdE)
  have "k * q < k * r" using unat_u32_less [of a] unfolding q r .
  then have "Suc q \<le> r" by simp
  then have "k * Suc q \<le> k * r" by (rule mult_le_mono2)
  then show ?thesis using assms(2) unfolding q r by simp
qed

lemma unat_minus_one_u32: "unat (- 1 :: u32) = 2 ^ 32 - 1"
  by (simp add: unat_eq_nat_uint uint_word_ariths)

lemma unat_saturating_add: "unat (saturating_add a b) = min (unat a + unat b) (2 ^ 32 - 1)"
  by (auto simp: saturating_add_def unat_minus_one_u32 unat_word_ariths)

lemma unat_saturating_sub: "unat (saturating_sub a b) = unat a - unat b"
  by (auto simp: saturating_sub_def word_less_nat_alt unat_sub word_le_nat_alt)

section \<open>Little-endian byte strings\<close>

fun le_bytes :: "nat \<Rightarrow> 'a::len word \<Rightarrow> u8 list" where
  "le_bytes 0 w = []"
| "le_bytes (Suc n) w = ucast w # le_bytes n (drop_bit 8 w)"

fun le_word :: "u8 list \<Rightarrow> 'a::len word" where
  "le_word [] = 0"
| "le_word (b # bs) = ucast b OR push_bit 8 (le_word bs)"

lemma length_le_bytes [simp]: "length (le_bytes n w) = n"
  by (induction n arbitrary: w) auto

lemma bit_le_word:
  "bit (le_word bs :: 'a::len word) i \<longleftrightarrow> i < LENGTH('a) \<and> i < 8 * length bs \<and> bit (bs ! (i div 8)) (i mod 8)"
proof (induction bs arbitrary: i)
  case Nil
  then show ?case by simp
next
  case (Cons b bs)
  show ?case
  proof (cases "i < 8")
    case True
    then show ?thesis by (auto simp: bit_simps)
  next
    case False
    then have d: "i div 8 = Suc ((i - 8) div 8)" and m: "i mod 8 = (i - 8) mod 8"
      by (simp_all add: le_div_geq le_mod_geq)
    have nb: "\<not> bit b i" using False by (auto dest: bit_imp_le_length)
    show ?thesis using False by (auto simp: bit_simps Cons.IH d m nb)
  qed
qed

lemma nth_le_bytes: "k < n \<Longrightarrow> le_bytes n w ! k = ucast (drop_bit (8 * k) w)"
proof (induction n arbitrary: w k)
  case 0
  then show ?case by simp
next
  case (Suc n)
  then show ?case by (cases k) (simp_all add: add.commute)
qed

lemma le_word_le_bytes:
  assumes "LENGTH('a) = 8 * n"
  shows "le_word (le_bytes n w) = (w :: 'a::len word)"
proof (rule bit_word_eqI)
  fix i assume i: "i < LENGTH('a)"
  then have k: "i div 8 < n" using assms by auto
  show "bit (le_word (le_bytes n w) :: 'a word) i \<longleftrightarrow> bit w i"
    using i assms k by (simp add: bit_le_word nth_le_bytes bit_simps)
qed

lemma le_bytes_le_word:
  assumes "LENGTH('a) = 8 * n" and "length bs = n"
  shows "le_bytes n (le_word bs :: 'a::len word) = bs"
proof (rule nth_equalityI)
  show "length (le_bytes n (le_word bs :: 'a word)) = length bs" using assms by simp
next
  fix k assume "k < length (le_bytes n (le_word bs :: 'a word))"
  then have k: "k < n" by simp
  show "le_bytes n (le_word bs :: 'a word) ! k = bs ! k"
  proof (rule bit_word_eqI)
    fix i assume i: "i < LENGTH(8)"
    then have i8: "i < 8" by simp
    have lt: "8 * k + i < 8 * n" using k i8 by auto
    have dm: "(8 * k + i) div 8 = k" "(8 * k + i) mod 8 = i" using i8 by simp_all
    show "bit (le_bytes n (le_word bs :: 'a word) ! k) i \<longleftrightarrow> bit (bs ! k) i"
      using assms k i8 lt dm by (simp add: nth_le_bytes bit_simps bit_le_word)
  qed
qed

lemma le_word_le_bytes_u16 [simp]: "le_word (le_bytes 2 w) = (w :: u16)"
  by (rule le_word_le_bytes) simp

lemma le_word_le_bytes_u32 [simp]: "le_word (le_bytes 4 w) = (w :: u32)"
  by (rule le_word_le_bytes) simp

lemma le_word_le_bytes_u64 [simp]: "le_word (le_bytes 8 w) = (w :: u64)"
  by (rule le_word_le_bytes) simp

lemma le_bytes_le_word_u16: "length bs = 2 \<Longrightarrow> le_bytes 2 (le_word bs :: u16) = bs"
  by (rule le_bytes_le_word) simp_all

lemma le_bytes_le_word_u32: "length bs = 4 \<Longrightarrow> le_bytes 4 (le_word bs :: u32) = bs"
  by (rule le_bytes_le_word) simp_all

lemma le_bytes_le_word_u64: "length bs = 8 \<Longrightarrow> le_bytes 8 (le_word bs :: u64) = bs"
  by (rule le_bytes_le_word) simp_all

section \<open>Bit ranges of a 32-bit register\<close>

text \<open>
  The registers are declared in the source with \<open>bitbybit\<close> bit ranges. \<open>field lo n\<close> reads
  the \<open>n\<close> bits from bit \<open>lo\<close> on, \<open>with_field lo n v\<close> replaces them, \<open>with_bit\<close> is the
  one-bit boolean case (whose reader is \<open>bit\<close>).
\<close>

definition field :: "nat \<Rightarrow> nat \<Rightarrow> u32 \<Rightarrow> u32" where
  "field lo n w = drop_bit lo w AND mask n"

definition with_field :: "nat \<Rightarrow> nat \<Rightarrow> u32 \<Rightarrow> u32 \<Rightarrow> u32" where
  "with_field lo n v w = (w AND NOT (push_bit lo (mask n))) OR push_bit lo (v AND mask n)"

definition with_bit :: "nat \<Rightarrow> bool \<Rightarrow> u32 \<Rightarrow> u32" where
  "with_bit k b w = (if b then w OR push_bit k 1 else w AND NOT (push_bit k 1))"

lemma bit_field: "bit (field lo n w) i \<longleftrightarrow> i < n \<and> bit w (lo + i)"
  by (auto simp: field_def bit_simps dest: bit_imp_le_length)

lemma bit_with_field:
  "bit (with_field lo n v w) i \<longleftrightarrow>
     i < 32 \<and> (if lo \<le> i \<and> i < lo + n then bit v (i - lo) else bit w i)"
  by (auto simp: with_field_def bit_simps dest: bit_imp_le_length)

lemma bit_with_bit [simp]:
  "bit (with_bit k b w) i \<longleftrightarrow> i < 32 \<and> (if i = k then b else bit w i)"
  by (auto simp: with_bit_def bit_simps dest: bit_imp_le_length)

lemma field_with_field_same:
  assumes "lo + n \<le> 32"
  shows "field lo n (with_field lo n v w) = v AND mask n"
  by (rule bit_word_eqI) (use assms in \<open>auto simp: bit_field bit_with_field bit_simps\<close>)

lemma field_with_field_other:
  assumes "lo + n \<le> lo' \<or> lo' + n' \<le> lo"
  shows "field lo n (with_field lo' n' v w) = field lo n w"
  by (rule bit_word_eqI)
    (use assms in \<open>auto simp: bit_field bit_with_field dest: bit_imp_le_length\<close>)

lemma field_with_bit_other:
  assumes "k < lo \<or> lo + n \<le> k"
  shows "field lo n (with_bit k b w) = field lo n w"
  by (rule bit_word_eqI) (use assms in \<open>auto simp: bit_field dest: bit_imp_le_length\<close>)

lemma bit_with_field_other:
  assumes "k < lo \<or> lo + n \<le> k"
  shows "bit (with_field lo n v w) k \<longleftrightarrow> bit w k"
  using assms by (auto simp: bit_with_field dest: bit_imp_le_length)

lemma field_less: "n < 32 \<Longrightarrow> unat (field lo n w) < 2 ^ n"
  by (simp add: field_def unsigned_take_bit_eq take_bit_nat_less_exp flip: take_bit_eq_mask)

section \<open>Byte-addressed memory\<close>

text \<open>
  A 32-bit address space. Ranges are taken modulo \<open>2 ^ 32\<close>, so that a range at the very end
  of the address space wraps, as the hardware's address arithmetic does.
\<close>

type_synonym memory = "u32 \<Rightarrow> u8"

definition in_range :: "u32 \<Rightarrow> nat \<Rightarrow> u32 \<Rightarrow> bool" where
  "in_range a n x \<longleftrightarrow> unat (x - a) < n"

definition apart :: "u32 \<Rightarrow> nat \<Rightarrow> u32 \<Rightarrow> nat \<Rightarrow> bool" where
  "apart a n b k \<longleftrightarrow> n \<le> unat (b - a) \<and> k \<le> unat (a - b)"

definition load :: "memory \<Rightarrow> u32 \<Rightarrow> nat \<Rightarrow> u8 list" where
  "load m a n = map (\<lambda>i. m (a + of_nat i)) [0..<n]"

definition store :: "memory \<Rightarrow> u32 \<Rightarrow> u8 list \<Rightarrow> memory" where
  "store m a bs = (\<lambda>x. if in_range a (length bs) x then bs ! unat (x - a) else m x)"

lemma length_load [simp]: "length (load m a n) = n"
  by (simp add: load_def)

lemma in_range_0 [simp]: "\<not> in_range a 0 x"
  by (simp add: in_range_def)

lemma in_range_base [simp]: "in_range a n a \<longleftrightarrow> 0 < n"
  by (simp add: in_range_def)

lemma in_range_mono: "in_range a n x \<Longrightarrow> n \<le> k \<Longrightarrow> in_range a k x"
  by (simp add: in_range_def)

lemma in_range_offset: "i < n \<Longrightarrow> n \<le> 2 ^ 32 \<Longrightarrow> in_range a n (a + of_nat i)"
  by (simp add: in_range_def unat_of_nat)

lemma in_rangeE:
  assumes "in_range a n x"
  obtains i where "i < n" and "x = a + of_nat i"
proof
  show "unat (x - a) < n" using assms by (simp add: in_range_def)
  show "x = a + of_nat (unat (x - a))" by simp
qed

lemma apart_sym: "apart a n b k \<longleftrightarrow> apart b k a n"
  by (auto simp: apart_def)

lemma apart_disjoint:
  assumes "apart a n b k" and "in_range a n x"
  shows "\<not> in_range b k x"
proof
  assume "in_range b k x"
  define i where "i = x - a"
  define d where "d = b - a"
  define j where "j = x - b"
  have e: "a - b = 0 - d" "i = j + d" by (simp_all add: i_def j_def d_def)
  have i: "unat i < unat d" and j: "unat j < unat (0 - d)"
    using assms \<open>in_range b k x\<close>
    unfolding apart_def in_range_def e(1) d_def [symmetric] i_def [symmetric] j_def [symmetric]
    by linarith+
  have "unat (0 - d) = 2 ^ 32 - unat d"
    using i unat_sub_if' [of 0 d] by (simp del: diff_0)
  then have "unat j + unat d < 2 ^ 32" using j by linarith
  then have "unat i = unat j + unat d" unfolding e(2) by (simp add: unat_word_ariths(1))
  then show False using i by linarith
qed

lemma store_in: "in_range a (length bs) x \<Longrightarrow> store m a bs x = bs ! unat (x - a)"
  by (simp add: store_def)

lemma store_out: "\<not> in_range a (length bs) x \<Longrightarrow> store m a bs x = m x"
  by (simp add: store_def)

lemma load_store_same [mem_simps]:
  assumes "length bs = n" and "n \<le> 2 ^ 32"
  shows "load (store m a bs) a n = bs"
  by (rule nth_equalityI)
    (use assms in \<open>auto simp: load_def store_def in_range_def unat_of_nat\<close>)

lemma load_cong:
  assumes "\<And>x. in_range a n x \<Longrightarrow> m x = m' x" and "n \<le> 2 ^ 32"
  shows "load m a n = load m' a n"
  using assms by (auto simp: load_def in_range_offset)

lemma load_store_apart [mem_simps]:
  assumes "apart a n b (length bs)" and "n \<le> 2 ^ 32"
  shows "load (store m b bs) a n = load m a n"
  by (rule load_cong) (use assms in \<open>auto simp: store_out apart_disjoint\<close>)

lemma nth_load: "i < n \<Longrightarrow> load m a n ! i = m (a + of_nat i)"
  by (simp add: load_def)

lemma store_load [mem_simps]: "store m a (load m a n) = m"
  by (rule ext) (auto simp: store_def in_range_def nth_load)

lemma store_store_same [mem_simps]:
  "length bs = length cs \<Longrightarrow> store (store m a bs) a cs = store m a cs"
  by (rule ext) (simp add: store_def)

lemma store_store_apart:
  assumes "apart a (length bs) b (length cs)"
  shows "store (store m a bs) b cs = store (store m b cs) a bs"
  using apart_disjoint [OF assms] by (auto simp: store_def fun_eq_iff)

lemma load_append: "load m a (n + k) = load m a n @ load m (a + of_nat n) k"
  by (rule nth_equalityI) (auto simp: load_def nth_append algebra_simps of_nat_diff)

section \<open>Lists\<close>

fun find_index :: "('a \<Rightarrow> bool) \<Rightarrow> 'a list \<Rightarrow> nat option" where
  "find_index P [] = None"
| "find_index P (x # xs) = (if P x then Some 0 else map_option Suc (find_index P xs))"

lemma find_index_map_cong: "map P xs = map P ys \<Longrightarrow> find_index P xs = find_index P ys"
proof (induction xs arbitrary: ys)
  case (Cons x xs)
  then show ?case by (cases ys) simp_all
qed simp

lemma find_index_None_iff: "find_index P xs = None \<longleftrightarrow> (\<forall>x \<in> set xs. \<not> P x)"
  by (induction xs) auto

lemma find_index_Some_iff:
  "find_index P xs = Some i \<longleftrightarrow> i < length xs \<and> P (xs ! i) \<and> (\<forall>j < i. \<not> P (xs ! j))"
proof (induction xs arbitrary: i)
  case Nil
  then show ?case by simp
next
  case (Cons x xs)
  then show ?case by (cases i) (auto simp: less_Suc_eq_0_disj)
qed

section \<open>Loops\<close>

fun for_each :: "('i \<Rightarrow> 's \<Rightarrow> 's outcome) \<Rightarrow> 'i list \<Rightarrow> 's \<Rightarrow> 's outcome" where
  "for_each f [] s = ok s"
| "for_each f (x # xs) s = and_then (f x s) (for_each f xs)"

lemma for_each_append: "for_each f (xs @ ys) s = and_then (for_each f xs s) (for_each f ys)"
proof (induction xs arbitrary: s)
  case (Cons x xs)
  then have "for_each f (xs @ ys) = (\<lambda>s. and_then (for_each f xs s) (for_each f ys))" by (intro ext)
  then show ?case by (simp add: and_then_assoc)
qed simp

text \<open>The rule for a loop over an index range, with an invariant indexed by the round.\<close>

lemma for_each_upt:
  assumes "\<And>k s. k < n \<Longrightarrow> P k s \<Longrightarrow> \<exists>s'. f k s = Inr s' \<and> P (Suc k) s'" and "P 0 s"
  shows "\<exists>s'. for_each f [0..<n] s = Inr s' \<and> P n s'"
  using assms
proof (induction n)
  case 0
  then show ?case by simp
next
  case (Suc n)
  then obtain s1 where s1: "for_each f [0..<n] s = Inr s1" "P n s1" by fastforce
  obtain s2 where "f n s1 = Inr s2" "P (Suc n) s2" using Suc.prems(1) [of n s1] s1(2) by auto
  then show ?case using s1(1) by (simp add: for_each_append)
qed

lemma load_4: "load m a 4 = [m a, m (a + 1), m (a + 2), m (a + 3)]"
  by (simp add: load_def upt_rec)

lemma load_2: "load m a 2 = [m a, m (a + 1)]"
  by (simp add: load_def upt_rec)

end
