(* ===== verification/Cpu_Cache.thy ===== *)
theory Cpu_Cache
  imports Prelude
begin

text \<open>
  \<open>src/src/cpu/cache.rs\<close>: the data cache, the point of unification and the instruction
  cache as three views of memory. A data write changes the first only. The two maintenance
  operations move one 32-byte line from a view to the next, as the module's header describes;
  an instruction fetch reads the last view.
\<close>

record caches =
  dview :: memory
  pou :: memory
  iview :: memory

datatype cache_target = Address u32

definition same_line :: "u32 \<Rightarrow> u32 \<Rightarrow> bool" where
  "same_line a x \<longleftrightarrow> drop_bit 5 a = drop_bit 5 x"

fun clean_dcache_to_unification :: "cache_target \<Rightarrow> 'a caches_scheme \<Rightarrow> 'a caches_scheme" where
  "clean_dcache_to_unification (Address addr) m =
     m\<lparr>pou := (\<lambda>x. if same_line addr x then dview m x else pou m x)\<rparr>"

fun invalidate_icache :: "cache_target \<Rightarrow> 'a caches_scheme \<Rightarrow> 'a caches_scheme" where
  "invalidate_icache (Address base) m =
     m\<lparr>iview := (\<lambda>x. if same_line base x then pou m x else iview m x)\<rparr>"

definition sync_instruction :: "cache_target \<Rightarrow> 'a caches_scheme \<Rightarrow> 'a caches_scheme" where
  "sync_instruction target m =
     (let m = clean_dcache_to_unification target m in invalidate_icache target m)"

definition write_data :: "u32 \<Rightarrow> u8 list \<Rightarrow> 'a caches_scheme \<Rightarrow> 'a caches_scheme" where
  "write_data a bs m = m\<lparr>dview := store (dview m) a bs\<rparr>"

text \<open>An address is coherent when a fetch sees what the last data write left there.\<close>

definition coherent_at :: "'a caches_scheme \<Rightarrow> u32 \<Rightarrow> bool" where
  "coherent_at m x \<longleftrightarrow> iview m x = dview m x"

lemma same_line_refl [simp]: "same_line a a"
  by (simp add: same_line_def)

text \<open>A naturally aligned halfword or word lies in one line.\<close>

lemma same_line_aligned:
  assumes "unat a mod k = 0" and "k dvd 32" and "in_range a k x"
  shows "same_line a x"
proof -
  obtain i where i: "i < k" and x: "x = a + of_nat i" using assms(3) by (rule in_rangeE)
  have k: "k dvd 2 ^ 32" using assms(2) dvd_trans [of k 32 "2 ^ 32"] by simp
  have ux: "unat x = unat a + i"
    unfolding x by (rule unat_add_u32, rule aligned_no_wrap [OF assms(1) i k])
  obtain q where q: "unat a = k * q" using assms(1) by (auto simp: mod_eq_0_iff_dvd)
  obtain r where r: "(32::nat) = k * r" using assms(2) by (rule dvdE)
  have "(unat a + i) div 32 = ((unat a + i) div k) div r" by (simp add: r div_mult2_eq)
  also have "(unat a + i) div k = unat a div k" using i by (simp add: q)
  also have "unat a div k div r = unat a div 32" by (simp add: r div_mult2_eq)
  finally have "unat (drop_bit 5 a) = unat (drop_bit 5 x)"
    by (simp add: ux drop_bit_eq_div unat_div)
  then show ?thesis by (simp add: same_line_def word_unat_eq_iff)
qed

lemma sync_instruction_views [simp]:
  "dview (sync_instruction t m) = dview m"
  "iview (sync_instruction (Address a) m) x = (if same_line a x then dview m x else iview m x)"
  by (cases t; simp add: sync_instruction_def Let_def)+

lemma sync_instruction_more [simp]: "caches.more (sync_instruction t m) = caches.more m"
  by (cases t) (simp add: sync_instruction_def Let_def)

lemma write_data_views [simp]:
  "dview (write_data a bs m) = store (dview m) a bs"
  "iview (write_data a bs m) = iview m"
  "pou (write_data a bs m) = pou m"
  "caches.more (write_data a bs m) = caches.more m"
  by (simp_all add: write_data_def)

lemma coherent_sync:
  "coherent_at m x \<or> same_line a x \<Longrightarrow> coherent_at (sync_instruction (Address a) m) x"
  by (auto simp: coherent_at_def)

end
