(* ===== verification/Cpu_Instruction.thy ===== *)
theory Cpu_Instruction
  imports Cpu_Cache
begin

text \<open>
  \<open>src/src/cpu/instruction.rs\<close>: an instruction of either instruction set, read from and
  written to memory. Reads panic on a misaligned address, as the \<open>assert!\<close>s of the source.
\<close>

datatype instruction = Arm u32 | Thumb16 u16 | Thumb32 "u16 \<times> u16"

definition is_thumb32 :: "u16 \<Rightarrow> bool" where
  "is_thumb32 halfword \<longleftrightarrow> 29 \<le> drop_bit 11 halfword \<and> drop_bit 11 halfword \<le> 31"

fun is_thumb :: "instruction \<Rightarrow> bool" where
  "is_thumb (Arm _) = False"
| "is_thumb (Thumb16 _) = True"
| "is_thumb (Thumb32 _) = True"

fun instr_size :: "instruction \<Rightarrow> nat" where
  "instr_size (Arm _) = 4"
| "instr_size (Thumb16 _) = 2"
| "instr_size (Thumb32 _) = 4"

fun instr_bytes :: "instruction \<Rightarrow> u8 list" where
  "instr_bytes (Arm i) = le_bytes 4 i"
| "instr_bytes (Thumb16 i) = le_bytes 2 i"
| "instr_bytes (Thumb32 (hw1, hw2)) = le_bytes 2 hw1 @ le_bytes 2 hw2"

fun as_usize :: "instruction \<Rightarrow> u32" where
  "as_usize (Arm i) = i"
| "as_usize (Thumb16 i) = ucast i"
| "as_usize (Thumb32 (hw1, hw2)) = le_word (le_bytes 2 hw1 @ le_bytes 2 hw2)"

definition read_u16 :: "memory \<Rightarrow> u32 \<Rightarrow> u16" where
  "read_u16 m a = le_word (load m a 2)"

definition read_u32 :: "memory \<Rightarrow> u32 \<Rightarrow> u32" where
  "read_u32 m a = le_word (load m a 4)"

text \<open>\<open>Instruction::read\<close>\<close>

definition instr_read :: "memory \<Rightarrow> u32 \<Rightarrow> bool \<Rightarrow> instruction outcome" where
  "instr_read m addr thumb =
     and_then (assert_that (addr \<noteq> 0) ''instr_read: null'') (\<lambda>_.
       if thumb then
         and_then (assert_that (unat addr mod 2 = 0) ''instr_read: misaligned thumb'') (\<lambda>_.
           let hw1 = read_u16 m addr in
           if is_thumb32 hw1 then ok (Thumb32 (hw1, read_u16 m (addr + 2)))
           else ok (Thumb16 hw1))
       else
         and_then (assert_that (unat addr mod 4 = 0) ''instr_read: misaligned arm'') (\<lambda>_.
           ok (Arm (read_u32 m addr))))"

text \<open>\<open>Instruction::write_to\<close>\<close>

definition instr_write :: "instruction \<Rightarrow> u32 \<Rightarrow> 'a caches_scheme \<Rightarrow> ('a caches_scheme) outcome" where
  "instr_write i addr m =
     and_then (assert_that (addr \<noteq> 0) ''instr_write: null'') (\<lambda>_.
       ok (write_data addr (instr_bytes i) m))"

section \<open>Well-formed instructions and round trips\<close>

fun wf_instr :: "instruction \<Rightarrow> bool" where
  "wf_instr (Arm _) \<longleftrightarrow> True"
| "wf_instr (Thumb16 hw) \<longleftrightarrow> \<not> is_thumb32 hw"
| "wf_instr (Thumb32 (hw1, _)) \<longleftrightarrow> is_thumb32 hw1"

definition instr_align :: "bool \<Rightarrow> nat" where
  "instr_align thumb = (if thumb then 2 else 4)"

lemma length_instr_bytes [simp]: "length (instr_bytes i) = instr_size i"
  by (cases i rule: instr_bytes.cases) simp_all

lemma instr_size_bounds [simp]: "0 < instr_size i" "instr_size i \<noteq> 0" "instr_size i \<le> 4" "instr_size i \<le> 4294967296"
  by (cases i; simp)+

lemma instr_size_ge_align: "instr_align (is_thumb i) \<le> instr_size i"
  by (cases i) (simp_all add: instr_align_def)

lemma instr_read_Inr_iff:
  "instr_read m addr thumb = Inr i \<longleftrightarrow>
     addr \<noteq> 0 \<and> unat addr mod instr_align thumb = 0 \<and>
     (if thumb then (let hw1 = read_u16 m addr in
        i = (if is_thumb32 hw1 then Thumb32 (hw1, read_u16 m (addr + 2)) else Thumb16 hw1))
      else i = Arm (read_u32 m addr))"
  by (auto simp: instr_read_def instr_align_def and_then_Inr_iff assert_that_def Let_def)

lemma instr_read_total:
  assumes "addr \<noteq> 0" and "unat addr mod instr_align thumb = 0"
  obtains i where "instr_read m addr thumb = Inr i"
  using assms that unfolding instr_read_Inr_iff by (cases thumb) (auto simp: Let_def)

lemma instr_readD:
  assumes "instr_read m addr thumb = Inr i"
  shows "wf_instr i" and "is_thumb i = thumb" and "load m addr (instr_size i) = instr_bytes i"
proof -
  have half: "le_bytes 2 (read_u16 m a) = load m a 2" for a
    by (simp add: read_u16_def le_bytes_le_word_u16)
  have word: "le_bytes 4 (read_u32 m a) = load m a 4" for a
    by (simp add: read_u32_def le_bytes_le_word_u32)
  have four: "load m a 4 = load m a 2 @ load m (a + 2) 2" for a
    using load_append [of m a 2 2] by simp
  show "wf_instr i" "is_thumb i = thumb" "load m addr (instr_size i) = instr_bytes i"
    using assms unfolding instr_read_Inr_iff
    by (auto simp: Let_def half word four split: if_splits)
qed

text \<open>What a read returns depends on the bytes the instruction occupies only.\<close>

lemma instr_read_cong:
  assumes "instr_read m addr thumb = Inr i"
    and "load m' addr (instr_size i) = load m addr (instr_size i)"
  shows "instr_read m' addr thumb = Inr i"
proof -
  have four: "load n a 4 = load n a 2 @ load n (a + 2) 2" for n a
    using load_append [of n a 2 2] by simp
  show ?thesis
    using assms unfolding instr_read_Inr_iff
    by (auto simp: Let_def read_u16_def read_u32_def four split: if_splits)
qed

lemma instr_write_read:
  assumes "addr \<noteq> 0" and "unat addr mod instr_align (is_thumb i) = 0" and "wf_instr i"
    and "instr_write i addr m = Inr m'"
  shows "instr_read (dview m') addr (is_thumb i) = Inr i"
proof -
  have l: "load (dview m') addr (instr_size i) = instr_bytes i"
    using assms(1,4) by (auto simp: instr_write_def mem_simps)
  have four: "load n a 4 = load n a 2 @ load n (a + 2) 2" for n a
    using load_append [of n a 2 2] by simp
  show ?thesis
    using assms(1-3) l unfolding instr_read_Inr_iff
    by (cases i rule: instr_bytes.cases)
      (auto simp: Let_def read_u16_def read_u32_def four)
qed

lemma instr_read_write:
  assumes "instr_read (dview m) addr thumb = Inr i"
  shows "instr_write i addr m = Inr m"
proof -
  have "load (dview m) addr (instr_size i) = instr_bytes i"
    using assms by (rule instr_readD)
  then have "store (dview m) addr (instr_bytes i) = dview m"
    by (metis store_load)
  moreover have "addr \<noteq> 0" using assms by (simp add: instr_read_Inr_iff)
  ultimately show ?thesis by (simp add: instr_write_def write_data_def)
qed


end
