(* ===== verification/Gdb_Arch.thy ===== *)
theory Gdb_Arch
  imports Prelude
begin

text \<open>
  \<open>src/src/gdb_target/arch/mod.rs\<close>: GDB's breakpoint kinds and register numbers for ARM.
\<close>

datatype arm_breakpoint_kind = KThumb16 | KThumb32 | KArm32

definition kind_from_usize :: "nat \<Rightarrow> arm_breakpoint_kind option" where
  "kind_from_usize kind =
     (if kind = 2 then Some KThumb16
      else if kind = 3 then Some KThumb32
      else if kind = 4 then Some KArm32
      else None)"

datatype arm_register_id = Gpr u8 | Sp | Lr | Pc | Cpsr | Fpr u8 | Fpscr

fun register_size :: "arm_register_id \<Rightarrow> nat" where
  "register_size (Fpr _) = 8"
| "register_size _ = 4"

text \<open>\<open>ArmRegisterID::from_raw_id\<close>; \<open>as u8\<close> truncates.\<close>

definition from_raw_id :: "nat \<Rightarrow> (arm_register_id \<times> nat) option" where
  "from_raw_id rid =
     map_option (\<lambda>reg. (reg, register_size reg))
       (if rid \<le> 12 then Some (Gpr (of_nat rid))
        else if rid = 13 then Some Sp
        else if rid = 14 then Some Lr
        else if rid = 15 then Some Pc
        else if rid = 25 then Some Cpsr
        else if 26 \<le> rid \<and> rid \<le> 57 then Some (Fpr (of_nat (rid - 26)))
        else if rid = 58 then Some Fpscr
        else None)"

end
