(* ===== verification/Breakpoint_Store.thy ===== *)
theory Breakpoint_Store
  imports Prelude
begin

text \<open>
  The contract both breakpoint tables of the debugger offer to the GDB target: the software
  table (\<open>breakpoint/software.rs\<close>) and the hardware comparators
  (\<open>breakpoint/hardware.rs\<close>). A table holds a set of keys; adding a key that is held is
  refused, a refused addition changes nothing, and a removal takes exactly its key away.
\<close>

text \<open>\<open>BreakpointError\<close> of \<open>src/src/gdb_target/breakpoint/mod.rs\<close>\<close>

datatype breakpoint_error = CannotWrite | AlreadyExists | NoSpace | NotAlignedCorrectly

locale breakpoint_store =
  fixes inv :: "'s \<Rightarrow> bool"
    and keys :: "'s \<Rightarrow> 'k set"
    and key :: "'a \<Rightarrow> 'k"
    and ready :: "'a \<Rightarrow> 's \<Rightarrow> bool"
    and add_bp :: "'a \<Rightarrow> 's \<Rightarrow> ((breakpoint_error + unit) \<times> 's) outcome"
    and del_bp :: "'a \<Rightarrow> 's \<Rightarrow> (bool \<times> 's) outcome"
  assumes add_total: "inv s \<Longrightarrow> ready a s \<Longrightarrow> \<exists>r s'. add_bp a s = Inr (r, s') \<and> inv s'"
    and add_held: "inv s \<Longrightarrow> ready a s \<Longrightarrow> key a \<in> keys s \<Longrightarrow> add_bp a s = Inr (Inl AlreadyExists, s)"
    and add_refused: "inv s \<Longrightarrow> ready a s \<Longrightarrow> add_bp a s = Inr (Inl e, s') \<Longrightarrow> s' = s"
    and add_keys: "inv s \<Longrightarrow> ready a s \<Longrightarrow> add_bp a s = Inr (Inr (), s') \<Longrightarrow> keys s' = insert (key a) (keys s)"
    and del_total: "inv s \<Longrightarrow> ready a s \<Longrightarrow> \<exists>c s'. del_bp a s = Inr (c, s') \<and> inv s'"
    and del_keys: "inv s \<Longrightarrow> ready a s \<Longrightarrow> del_bp a s = Inr (c, s') \<Longrightarrow> keys s' = keys s - {key a}"
    and ready_add: "inv s \<Longrightarrow> ready a s \<Longrightarrow> add_bp a s = Inr (r, s') \<Longrightarrow> ready a s'"
begin

lemma add_new_key:
  assumes "inv s" and "ready a s" and "add_bp a s = Inr (Inr (), s')"
  shows "key a \<notin> keys s"
  using assms add_held by fastforce

lemma add_result:
  assumes "inv s" and "ready a s" and "add_bp a s = Inr (r, s')"
  shows "inv s'" and "ready a s'"
proof -
  show "inv s'" using add_total [OF assms(1,2)] assms(3) by auto
  show "ready a s'" using assms by (rule ready_add)
qed

lemma add_then_del:
  assumes "inv s" and "ready a s" and "add_bp a s = Inr (Inr (), s')"
  obtains c s'' where "del_bp a s' = Inr (c, s'')" and "inv s''" and "keys s'' = keys s"
proof -
  note s' = add_result [OF assms] add_keys [OF assms]
  obtain c s'' where del: "del_bp a s' = Inr (c, s'')" "inv s''"
    using del_total [OF s'(1,2)] by blast
  have "keys s'' = keys s"
    using del_keys [OF s'(1,2) del(1)] s'(3) add_new_key [OF assms] by simp
  with del show thesis by (rule that)
qed

lemma add_twice:
  assumes "inv s" and "ready a s" and "add_bp a s = Inr (Inr (), s')"
  shows "add_bp a s' = Inr (Inl AlreadyExists, s')"
  by (rule add_held [OF add_result [OF assms]]) (simp add: add_keys [OF assms])

end

end
