(* ===== verification/Sw_Breakpoints.thy ===== *)
theory Sw_Breakpoints
  imports Cpu_Instruction Gdb_Arch Breakpoint_Store
begin

text \<open>
  \<open>src/src/gdb_target/breakpoint/software.rs\<close> and the \<open>set_breakpoints_ignored\<close> of
  \<open>breakpoint/mod.rs\<close>: a table of \<open>bkpt\<close> instructions patched over the program, each with
  the instruction it hides.
\<close>

section \<open>The table and its operations\<close>

record breakpoint_reason =
  br_user :: bool
  br_internal :: bool

definition reason_new :: "bool \<Rightarrow> breakpoint_reason" where
  "reason_new internal = \<lparr>br_user = \<not> internal, br_internal = internal\<rparr>"

definition unwanted :: "breakpoint_reason \<Rightarrow> bool" where
  "unwanted r \<longleftrightarrow> \<not> br_user r \<and> \<not> br_internal r"

record sw_breakpoint =
  sw_enabled :: bool
  instr_addr :: u32
  instr_backup :: instruction
  sw_reason :: breakpoint_reason

definition arm_bkpt :: instruction where
  "arm_bkpt = Arm 0xE1200070"

definition thumb_bkpt :: instruction where
  "thumb_bkpt = Thumb16 0xBE00"

definition sw_new :: "memory \<Rightarrow> u32 \<Rightarrow> bool \<Rightarrow> bool \<Rightarrow> sw_breakpoint outcome" where
  "sw_new mem addr thumb internal =
     and_then (instr_read mem addr thumb) (\<lambda>i.
       ok \<lparr>sw_enabled = False, instr_addr = addr, instr_backup = i, sw_reason = reason_new internal\<rparr>)"

definition bkpt_for :: "sw_breakpoint \<Rightarrow> instruction" where
  "bkpt_for b = (if is_thumb (instr_backup b) then thumb_bkpt else arm_bkpt)"

definition set_enabled ::
  "bool \<Rightarrow> sw_breakpoint \<Rightarrow> 'm caches_scheme \<Rightarrow> (sw_breakpoint \<times> 'm caches_scheme) outcome" where
  "set_enabled enabled b m =
     (if sw_enabled b = enabled then ok (b, m)
      else
        let b = b\<lparr>sw_enabled := enabled\<rparr> in
        and_then (instr_write (if enabled then bkpt_for b else instr_backup b) (instr_addr b) m)
          (\<lambda>m. ok (b, m)))"

definition sw_cache_target :: "sw_breakpoint \<Rightarrow> cache_target" where
  "sw_cache_target b = Address (instr_addr b)"

text \<open>
  The two fields of \<open>V5Target\<close> that hold the table. The target itself extends this record.
\<close>

record v5_breaks =
  breaks_paused :: bool
  breaks :: "sw_breakpoint option list"

datatype slot_scan = Found nat sw_breakpoint | Free "nat option"

text \<open>The loop of \<open>register_sw_breakpoint\<close>: the slot of an existing breakpoint, or the first free one.\<close>

fun scan_slots :: "u32 \<Rightarrow> nat \<Rightarrow> nat option \<Rightarrow> sw_breakpoint option list \<Rightarrow> slot_scan" where
  "scan_slots addr i next_inactive [] = Free next_inactive"
| "scan_slots addr i next_inactive (Some b # slots) =
     (if instr_addr b = addr then Found i b else scan_slots addr (Suc i) next_inactive slots)"
| "scan_slots addr i next_inactive (None # slots) =
     scan_slots addr (Suc i) (if next_inactive = None then Some i else next_inactive) slots"

definition register_sw_breakpoint ::
  "u32 \<Rightarrow> bool \<Rightarrow> bool \<Rightarrow> 't v5_breaks_scheme \<Rightarrow> 'm caches_scheme \<Rightarrow>
   ((breakpoint_error + unit) \<times> 't v5_breaks_scheme \<times> 'm caches_scheme) outcome" where
  "register_sw_breakpoint addr thumb internal t m =
     (if addr < 0x03000000 then ok (Inl CannotWrite, t, m)
      else case scan_slots addr 0 None (breaks t) of
        Found i b \<Rightarrow>
          if internal \<and> \<not> br_internal (sw_reason b) then
            ok (Inr (), t\<lparr>breaks := (breaks t)[i := Some (b\<lparr>sw_reason := (sw_reason b)\<lparr>br_internal := True\<rparr>\<rparr>)]\<rparr>, m)
          else if \<not> internal \<and> \<not> br_user (sw_reason b) then
            ok (Inr (), t\<lparr>breaks := (breaks t)[i := Some (b\<lparr>sw_reason := (sw_reason b)\<lparr>br_user := True\<rparr>\<rparr>)]\<rparr>, m)
          else ok (Inl AlreadyExists, t, m)
      | Free None \<Rightarrow> ok (Inl NoSpace, t, m)
      | Free (Some i) \<Rightarrow>
          and_then (sw_new (dview m) addr thumb internal) (\<lambda>b.
            if \<not> breaks_paused t then
              and_then (set_enabled True b m) (\<lambda>(b, m).
                let m = sync_instruction (sw_cache_target b) m in
                ok (Inr (), t\<lparr>breaks := (breaks t)[i := Some b]\<rparr>, m))
            else ok (Inr (), t\<lparr>breaks := (breaks t)[i := Some b]\<rparr>, m)))"

definition drop_reason :: "bool \<Rightarrow> sw_breakpoint \<Rightarrow> sw_breakpoint" where
  "drop_reason internal b =
     b\<lparr>sw_reason := (if internal then (sw_reason b)\<lparr>br_internal := False\<rparr>
                     else (sw_reason b)\<lparr>br_user := False\<rparr>)\<rparr>"

fun remove_slots ::
  "u32 \<Rightarrow> bool \<Rightarrow> sw_breakpoint option list \<Rightarrow> 'm caches_scheme \<Rightarrow>
   (bool \<times> sw_breakpoint option list \<times> 'm caches_scheme) outcome" where
  "remove_slots addr internal [] m = ok (False, [], m)"
| "remove_slots addr internal (None # slots) m =
     and_then (remove_slots addr internal slots m) (\<lambda>(changes_made, slots, m).
       ok (changes_made, None # slots, m))"
| "remove_slots addr internal (Some b # slots) m =
     (let b = (if instr_addr b = addr then drop_reason internal b else b) in
      if unwanted (sw_reason b) then
        and_then (set_enabled False b m) (\<lambda>(_, m).
        and_then (remove_slots addr internal slots m) (\<lambda>(_, slots, m).
          ok (True, None # slots, m)))
      else
        and_then (remove_slots addr internal slots m) (\<lambda>(changes_made, slots, m).
          ok (changes_made, Some b # slots, m)))"

definition remove_sw_breakpoint ::
  "u32 \<Rightarrow> bool \<Rightarrow> 't v5_breaks_scheme \<Rightarrow> 'm caches_scheme \<Rightarrow>
   (bool \<times> 't v5_breaks_scheme \<times> 'm caches_scheme) outcome" where
  "remove_sw_breakpoint addr internal t m =
     and_then (remove_slots addr internal (breaks t) m) (\<lambda>(changes_made, slots, m).
       let m = (if changes_made then sync_instruction (Address addr) m else m) in
       ok (changes_made, t\<lparr>breaks := slots\<rparr>, m))"

definition slot_at :: "u32 \<Rightarrow> sw_breakpoint option \<Rightarrow> bool" where
  "slot_at addr slot = (case slot of None \<Rightarrow> False | Some b \<Rightarrow> instr_addr b = addr)"

definition query_sw_breakpoint :: "u32 \<Rightarrow> 't v5_breaks_scheme \<Rightarrow> nat option" where
  "query_sw_breakpoint addr t = find_index (slot_at addr) (breaks t)"

text \<open>\<open>set_breakpoints_ignored\<close> of \<open>breakpoint/mod.rs\<close>\<close>

fun enable_slots ::
  "bool \<Rightarrow> sw_breakpoint option list \<Rightarrow> 'm caches_scheme \<Rightarrow>
   (sw_breakpoint option list \<times> 'm caches_scheme) outcome" where
  "enable_slots enabled [] m = ok ([], m)"
| "enable_slots enabled (None # slots) m =
     and_then (enable_slots enabled slots m) (\<lambda>(slots, m). ok (None # slots, m))"
| "enable_slots enabled (Some b # slots) m =
     and_then (set_enabled enabled b m) (\<lambda>(b, m).
     and_then (enable_slots enabled slots (sync_instruction (sw_cache_target b) m)) (\<lambda>(slots, m).
       ok (Some b # slots, m)))"

definition set_breakpoints_ignored ::
  "bool \<Rightarrow> 't v5_breaks_scheme \<Rightarrow> 'm caches_scheme \<Rightarrow> ('t v5_breaks_scheme \<times> 'm caches_scheme) outcome" where
  "set_breakpoints_ignored ignored t m =
     (let t = t\<lparr>breaks_paused := ignored\<rparr> in
      and_then (enable_slots (\<not> ignored) (breaks t) m) (\<lambda>(slots, m).
        ok (t\<lparr>breaks := slots\<rparr>, m)))"

text \<open>The \<open>SwBreakpoint\<close> callbacks of \<open>gdbstub\<close>: a refusal is reported as \<open>false\<close>.\<close>

definition gdb_add_sw_breakpoint ::
  "u32 \<Rightarrow> arm_breakpoint_kind \<Rightarrow> 't v5_breaks_scheme \<Rightarrow> 'm caches_scheme \<Rightarrow>
   (bool \<times> 't v5_breaks_scheme \<times> 'm caches_scheme) outcome" where
  "gdb_add_sw_breakpoint addr kind t m =
     (let is_arm = (kind = KArm32) in
      and_then (register_sw_breakpoint addr (\<not> is_arm) False t m) (\<lambda>(r, t, m).
        ok (r = Inr (), t, m)))"

definition gdb_remove_sw_breakpoint ::
  "u32 \<Rightarrow> arm_breakpoint_kind \<Rightarrow> 't v5_breaks_scheme \<Rightarrow> 'm caches_scheme \<Rightarrow>
   (bool \<times> 't v5_breaks_scheme \<times> 'm caches_scheme) outcome" where
  "gdb_remove_sw_breakpoint addr kind t m = remove_sw_breakpoint addr False t m"

section \<open>The memory a table stands for\<close>

text \<open>
  \<open>overlay orig slots\<close> is the program memory \<open>orig\<close> with the \<open>bkpt\<close> of every enabled slot
  written over it. The table is sound for \<open>orig\<close> when each backup is what \<open>orig\<close> holds there
  and no two breakpoints share a byte.
\<close>

fun overlay :: "memory \<Rightarrow> sw_breakpoint option list \<Rightarrow> memory" where
  "overlay orig [] = orig"
| "overlay orig (None # slots) = overlay orig slots"
| "overlay orig (Some b # slots) =
     (if sw_enabled b then store (overlay orig slots) (instr_addr b) (instr_bytes (bkpt_for b))
      else overlay orig slots)"

definition slot_clear :: "u32 \<Rightarrow> nat \<Rightarrow> sw_breakpoint option \<Rightarrow> bool" where
  "slot_clear a n slot =
     (case slot of None \<Rightarrow> True
      | Some b \<Rightarrow> apart (instr_addr b) (instr_size (instr_backup b)) a n)"

definition backup_ok :: "memory \<Rightarrow> sw_breakpoint \<Rightarrow> bool" where
  "backup_ok orig b \<longleftrightarrow>
     instr_read orig (instr_addr b) (is_thumb (instr_backup b)) = Inr (instr_backup b)"

fun slots_ok :: "memory \<Rightarrow> sw_breakpoint option list \<Rightarrow> bool" where
  "slots_ok orig [] = True"
| "slots_ok orig (None # slots) = slots_ok orig slots"
| "slots_ok orig (Some b # slots) =
     (backup_ok orig b \<and>
      list_all (slot_clear (instr_addr b) (instr_size (instr_backup b))) slots \<and>
      slots_ok orig slots)"

lemma slot_clear_simps [simp]:
  "slot_clear a n None"
  "slot_clear a n (Some b) = apart (instr_addr b) (instr_size (instr_backup b)) a n"
  by (simp_all add: slot_clear_def)

lemma slot_at_simps [simp]:
  "\<not> slot_at a None"
  "slot_at a (Some b) = (instr_addr b = a)"
  by (simp_all add: slot_at_def)

lemma bkpt_for_size: "instr_size (bkpt_for b) = instr_align (is_thumb (instr_backup b))"
  by (simp add: bkpt_for_def thumb_bkpt_def arm_bkpt_def instr_align_def)

lemma bkpt_for_update [simp]:
  "bkpt_for (b\<lparr>sw_enabled := e\<rparr>) = bkpt_for b"
  "bkpt_for (b\<lparr>sw_reason := r\<rparr>) = bkpt_for b"
  "bkpt_for (drop_reason i b) = bkpt_for b"
  by (simp_all add: bkpt_for_def drop_reason_def)

lemma drop_reason_fields [simp]:
  "instr_addr (drop_reason i b) = instr_addr b"
  "instr_backup (drop_reason i b) = instr_backup b"
  "sw_enabled (drop_reason i b) = sw_enabled b"
  by (simp_all add: drop_reason_def)

lemma bkpt_for_le: "instr_size (bkpt_for b) \<le> instr_size (instr_backup b)"
  by (simp add: bkpt_for_size instr_size_ge_align)

lemma apart_mono: "apart a n b k \<Longrightarrow> n' \<le> n \<Longrightarrow> k' \<le> k \<Longrightarrow> apart a n' b k'"
  by (auto simp: apart_def)

lemma slot_clear_mono: "slot_clear a n slot \<Longrightarrow> k \<le> n \<Longrightarrow> slot_clear a k slot"
  by (cases slot) (auto intro: apart_mono)

lemma backup_ok_update [simp]:
  "backup_ok orig (b\<lparr>sw_enabled := e\<rparr>) = backup_ok orig b"
  "backup_ok orig (b\<lparr>sw_reason := r\<rparr>) = backup_ok orig b"
  "backup_ok orig (drop_reason i b) = backup_ok orig b"
  by (simp_all add: backup_ok_def)

lemma backup_okD:
  assumes "backup_ok orig b"
  shows "instr_addr b \<noteq> 0" and "unat (instr_addr b) mod instr_align (is_thumb (instr_backup b)) = 0"
    and "load orig (instr_addr b) (instr_size (instr_backup b)) = instr_bytes (instr_backup b)"
proof -
  have r: "instr_read orig (instr_addr b) (is_thumb (instr_backup b)) = Inr (instr_backup b)"
    using assms by (simp add: backup_ok_def)
  then show "instr_addr b \<noteq> 0" "unat (instr_addr b) mod instr_align (is_thumb (instr_backup b)) = 0"
    by (simp_all add: instr_read_Inr_iff)
  show "load orig (instr_addr b) (instr_size (instr_backup b)) = instr_bytes (instr_backup b)"
    using r by (rule instr_readD)
qed

lemma overlay_load:
  assumes "list_all (slot_clear a n) slots" and "n \<le> 2 ^ 32"
  shows "load (overlay orig slots) a n = load orig a n"
  using assms
proof (induction orig slots rule: overlay.induct)
  case (3 orig b slots)
  then have "apart (instr_addr b) (instr_size (instr_backup b)) a n" by simp
  then have "apart a n (instr_addr b) (length (instr_bytes (bkpt_for b)))"
    using bkpt_for_le [of b] by (auto simp: apart_def)
  with 3 show ?case by (simp add: load_store_apart)
qed auto

lemma overlay_store:
  assumes "list_all (slot_clear a (length bs)) slots"
  shows "overlay (store orig a bs) slots = store (overlay orig slots) a bs"
  using assms
proof (induction orig slots rule: overlay.induct)
  case (3 orig b slots)
  then have "apart (instr_addr b) (length (instr_bytes (bkpt_for b))) a (length bs)"
    using bkpt_for_le [of b] by (auto intro: apart_mono)
  with 3 show ?case by (auto simp: store_store_apart)
qed auto

lemma backup_ok_store:
  assumes "backup_ok orig b" and "slot_clear a (length bs) (Some b)"
  shows "backup_ok (store orig a bs) b"
proof -
  have "load (store orig a bs) (instr_addr b) (instr_size (instr_backup b)) =
        load orig (instr_addr b) (instr_size (instr_backup b))"
    by (rule load_store_apart) (use assms(2) in simp_all)
  with assms(1) [unfolded backup_ok_def] show ?thesis unfolding backup_ok_def by (rule instr_read_cong)
qed

lemma slots_ok_store:
  "slots_ok orig slots \<Longrightarrow> list_all (slot_clear a (length bs)) slots \<Longrightarrow> slots_ok (store orig a bs) slots"
  by (induction orig slots rule: slots_ok.induct) (auto intro: backup_ok_store)

section \<open>What one slot operation does\<close>

text \<open>
  \<open>maintains\<close> relates the machine before and after: nothing outside the caches moves, and an
  address whose fetches were coherent stays so.
\<close>

definition maintains :: "'m caches_scheme \<Rightarrow> 'm caches_scheme \<Rightarrow> bool" where
  "maintains m m' \<longleftrightarrow>
     caches.more m' = caches.more m \<and> (\<forall>x. coherent_at m x \<longrightarrow> coherent_at m' x)"

lemma maintains_refl [simp]: "maintains m m"
  by (simp add: maintains_def)

lemma maintains_trans: "maintains m m' \<Longrightarrow> maintains m' m'' \<Longrightarrow> maintains m m''"
  by (simp add: maintains_def)

text \<open>A write confined to one naturally aligned unit, followed by the sync of its address.\<close>

definition local_write :: "u32 \<Rightarrow> nat \<Rightarrow> 'm caches_scheme \<Rightarrow> 'm caches_scheme \<Rightarrow> bool" where
  "local_write a k m m' \<longleftrightarrow>
     caches.more m' = caches.more m \<and> iview m' = iview m \<and>
     (\<forall>x. dview m' x \<noteq> dview m x \<longrightarrow> in_range a k x)"

lemma local_write_sync:
  assumes "local_write a k m m'" and "unat a mod k = 0" and "k dvd 32"
  shows "maintains m (sync_instruction (Address a) m')"
proof -
  have "dview m' x = dview m x" if "\<not> same_line a x" for x
    using that assms(1) same_line_aligned [OF assms(2,3)] unfolding local_write_def by blast
  then show ?thesis
    using assms(1) by (auto simp: maintains_def local_write_def coherent_at_def)
qed

lemma store_cover: "length bs \<le> length cs \<Longrightarrow> store (store m a bs) a cs = store m a cs"
  by (rule ext) (auto simp: store_def in_range_def)

lemma set_enabled_spec:
  assumes ok: "backup_ok orig b"
    and hidden: "load base (instr_addr b) (instr_size (instr_backup b)) = instr_bytes (instr_backup b)"
    and dv: "dview m = (if sw_enabled b then store base (instr_addr b) (instr_bytes (bkpt_for b)) else base)"
  obtains m' where "set_enabled e b m = Inr (b\<lparr>sw_enabled := e\<rparr>, m')"
    and "dview m' = (if e then store base (instr_addr b) (instr_bytes (bkpt_for b)) else base)"
    and "local_write (instr_addr b) (instr_align (is_thumb (instr_backup b))) m m'"
proof -
  let ?a = "instr_addr b" and ?k = "instr_align (is_thumb (instr_backup b))"
  have nz: "?a \<noteq> 0" using ok by (rule backup_okD)
  have same: "store base ?a (instr_bytes (instr_backup b)) = base"
    using hidden by (metis store_load)
  have in_k: "in_range ?a ?k x" if "store base ?a (instr_bytes (bkpt_for b)) x \<noteq> base x" for x
    using that by (auto simp: store_def bkpt_for_size split: if_splits)
  have full: "store (store base ?a (instr_bytes (bkpt_for b))) ?a (instr_bytes (instr_backup b)) = base"
    using bkpt_for_le [of b] by (simp add: store_cover same)
  consider "sw_enabled b = e" | "e" "\<not> sw_enabled b" | "\<not> e" "sw_enabled b" by blast
  then show thesis
  proof cases
    case 1
    then have "set_enabled e b m = Inr (b\<lparr>sw_enabled := e\<rparr>, m)" by (simp add: set_enabled_def)
    then show ?thesis by (rule that) (use 1 dv in \<open>auto simp: local_write_def\<close>)
  next
    case 2
    then have "set_enabled e b m = Inr (b\<lparr>sw_enabled := e\<rparr>, write_data ?a (instr_bytes (bkpt_for b)) m)"
      using nz by (simp add: set_enabled_def instr_write_def Let_def)
    then show ?thesis by (rule that) (use 2 dv in_k in \<open>auto simp: local_write_def\<close>)
  next
    case 3
    then have "set_enabled e b m = Inr (b\<lparr>sw_enabled := e\<rparr>, write_data ?a (instr_bytes (instr_backup b)) m)"
      using nz by (simp add: set_enabled_def instr_write_def Let_def)
    then show ?thesis
      by (rule that) (use 3 dv in_k full in \<open>auto simp: local_write_def\<close>)
  qed
qed

lemma sync_backup:
  assumes "backup_ok orig b"
    and "local_write (instr_addr b) (instr_align (is_thumb (instr_backup b))) m m'"
  shows "maintains m (sync_instruction (sw_cache_target b) m')"
  unfolding sw_cache_target_def
  by (rule local_write_sync [OF assms(2)])
    (use backup_okD(2) [OF assms(1)] in \<open>auto simp: instr_align_def\<close>)

section \<open>Pausing and unpausing the table\<close>

definition enable_slot :: "bool \<Rightarrow> sw_breakpoint option \<Rightarrow> sw_breakpoint option" where
  "enable_slot e = map_option (\<lambda>b. b\<lparr>sw_enabled := e\<rparr>)"

lemma enable_slot_simps [simp]:
  "enable_slot e None = None"
  "enable_slot e (Some b) = Some (b\<lparr>sw_enabled := e\<rparr>)"
  by (simp_all add: enable_slot_def)

lemma slot_clear_enable [simp]: "slot_clear a n (enable_slot e slot) = slot_clear a n slot"
  by (cases slot) simp_all

lemma slots_ok_enable [simp]: "slots_ok orig (map (enable_slot e) slots) = slots_ok orig slots"
  by (induction orig slots rule: slots_ok.induct) (auto simp: list_all_iff)

lemma enable_slots_spec:
  assumes "slots_ok orig slots" and "dview m = overlay orig slots"
  shows "\<exists>m'. enable_slots e slots m = Inr (map (enable_slot e) slots, m') \<and>
           dview m' = overlay orig (map (enable_slot e) slots) \<and> maintains m m'"
  using assms
proof (induction e slots m arbitrary: orig rule: enable_slots.induct)
  case (1 e m)
  then show ?case by simp
next
  case (2 e slots m)
  then obtain m' where "enable_slots e slots m = Inr (map (enable_slot e) slots, m')"
    "dview m' = overlay orig (map (enable_slot e) slots)" "maintains m m'"
    by fastforce
  then show ?case by simp
next
  case (3 e b slots m)
  let ?a = "instr_addr b" and ?bk = "instr_bytes (bkpt_for b)"
  have ok: "backup_ok orig b" and clear: "list_all (slot_clear ?a (instr_size (instr_backup b))) slots"
    and sok: "slots_ok orig slots" using "3.prems"(1) by simp_all
  have clear': "list_all (slot_clear ?a (length ?bk)) slots"
    using clear bkpt_for_le [of b] by (auto simp: list_all_iff intro: slot_clear_mono)
  have hid: "load (overlay orig slots) ?a (instr_size (instr_backup b)) = instr_bytes (instr_backup b)"
    using clear backup_okD(3) [OF ok] by (simp add: overlay_load)
  obtain m1 where m1: "set_enabled e b m = Inr (b\<lparr>sw_enabled := e\<rparr>, m1)"
    "dview m1 = (if e then store (overlay orig slots) ?a ?bk else overlay orig slots)"
    "local_write ?a (instr_align (is_thumb (instr_backup b))) m m1"
    using "3.prems"(2) by (auto intro: set_enabled_spec [OF ok hid, of m e])
  define base where "base = (if e then store orig ?a ?bk else orig)"
  define m2 where "m2 = sync_instruction (sw_cache_target (b\<lparr>sw_enabled := e\<rparr>)) m1"
  have keep: "maintains m m2"
    using sync_backup [OF ok m1(3)] by (simp add: m2_def sw_cache_target_def)
  have "slots_ok base slots" using sok clear' by (simp add: base_def slots_ok_store)
  moreover have "dview m2 = overlay base slots"
    using m1(2) clear' by (simp add: m2_def base_def overlay_store)
  ultimately obtain m' where m': "enable_slots e slots m2 = Inr (map (enable_slot e) slots, m')"
    "dview m' = overlay base (map (enable_slot e) slots)" "maintains m2 m'"
    using "3.IH" [OF m1(1) refl, of base] by (auto simp: m2_def)
  have "list_all (slot_clear ?a (length ?bk)) (map (enable_slot e) slots)"
    using clear' by (simp add: list_all_iff)
  then have "dview m' = overlay orig (map (enable_slot e) (Some b # slots))"
    using m'(2) by (cases e) (simp_all add: base_def overlay_store)
  then show ?case using m1(1) m'(1) maintains_trans [OF keep m'(3)] by (simp add: m2_def)
qed

section \<open>Removing breakpoints\<close>

definition remove_slot :: "u32 \<Rightarrow> bool \<Rightarrow> sw_breakpoint option \<Rightarrow> sw_breakpoint option" where
  "remove_slot addr internal slot =
     (case slot of None \<Rightarrow> None
      | Some b \<Rightarrow>
          let b = (if instr_addr b = addr then drop_reason internal b else b) in
          if unwanted (sw_reason b) then None else Some b)"

definition all_wanted :: "sw_breakpoint option list \<Rightarrow> bool" where
  "all_wanted slots = list_all (\<lambda>slot. case slot of None \<Rightarrow> True | Some b \<Rightarrow> \<not> unwanted (sw_reason b)) slots"

definition line_write :: "u32 \<Rightarrow> 'm caches_scheme \<Rightarrow> 'm caches_scheme \<Rightarrow> bool" where
  "line_write a m m' \<longleftrightarrow>
     caches.more m' = caches.more m \<and> iview m' = iview m \<and>
     (\<forall>x. dview m' x \<noteq> dview m x \<longrightarrow> same_line a x)"

lemma line_write_refl [simp]: "line_write a m m"
  by (simp add: line_write_def)

lemma line_write_trans:
  assumes "line_write a m m'" and "line_write a m' m''"
  shows "line_write a m m''"
  using assms unfolding line_write_def by metis

lemma line_write_sync:
  assumes "line_write a m m'"
  shows "maintains m (sync_instruction (Address a) m')"
proof -
  have "dview m' x = dview m x" if "\<not> same_line a x" for x
    using that assms unfolding line_write_def by blast
  then show ?thesis
    using assms by (auto simp: maintains_def line_write_def coherent_at_def)
qed

lemma backup_line_write:
  assumes "backup_ok orig b"
    and "local_write (instr_addr b) (instr_align (is_thumb (instr_backup b))) m m'"
  shows "line_write (instr_addr b) m m'"
proof -
  have "instr_align (is_thumb (instr_backup b)) dvd 32" by (simp add: instr_align_def)
  from same_line_aligned [OF backup_okD(2) [OF assms(1)] this] show ?thesis
    using assms(2) unfolding local_write_def line_write_def by blast
qed

lemma remove_slot_simps [simp]:
  "remove_slot addr internal None = None"
  "instr_addr b \<noteq> addr \<Longrightarrow> \<not> unwanted (sw_reason b) \<Longrightarrow> remove_slot addr internal (Some b) = Some b"
  by (simp_all add: remove_slot_def)

lemma slot_clear_remove: "slot_clear a n slot \<Longrightarrow> slot_clear a n (remove_slot addr internal slot)"
  by (cases slot) (auto simp: remove_slot_def Let_def)

lemma list_all_clear_remove:
  "list_all (slot_clear a n) slots \<Longrightarrow> list_all (slot_clear a n) (map (remove_slot addr internal) slots)"
  by (auto simp: list_all_iff intro: slot_clear_remove)

lemma remove_slot_SomeD:
  assumes "remove_slot addr internal (Some b) = Some b'"
  shows "instr_addr b' = instr_addr b" and "instr_backup b' = instr_backup b"
    and "backup_ok orig b' = backup_ok orig b"
  using assms by (auto simp: remove_slot_def Let_def split: if_splits)

lemma slots_ok_remove: "slots_ok orig slots \<Longrightarrow> slots_ok orig (map (remove_slot addr internal) slots)"
proof (induction orig slots rule: slots_ok.induct)
  case (3 orig b slots)
  show ?case
  proof (cases "remove_slot addr internal (Some b)")
    case None
    then show ?thesis using 3 by simp
  next
    case (Some b')
    from remove_slot_SomeD [OF this] show ?thesis
      using 3 Some by (simp add: list_all_clear_remove)
  qed
qed simp_all

lemma all_wanted_simps [simp]:
  "all_wanted []"
  "all_wanted (None # slots) = all_wanted slots"
  "all_wanted (Some b # slots) = (\<not> unwanted (sw_reason b) \<and> all_wanted slots)"
  by (simp_all add: all_wanted_def)

lemma all_wanted_remove: "all_wanted slots \<Longrightarrow> all_wanted (map (remove_slot addr internal) slots)"
  by (auto simp: all_wanted_def list_all_iff remove_slot_def Let_def split: option.splits if_splits)

definition frees :: "u32 \<Rightarrow> bool \<Rightarrow> sw_breakpoint option list \<Rightarrow> bool" where
  "frees addr internal slots =
     list_ex (\<lambda>slot. slot \<noteq> None \<and> remove_slot addr internal slot = None) slots"

lemma remove_slots_spec:
  assumes "slots_ok orig slots" and "all_wanted slots" and "dview m = overlay orig slots"
  shows "\<exists>m'. remove_slots addr internal slots m =
             Inr (frees addr internal slots, map (remove_slot addr internal) slots, m') \<and>
           dview m' = overlay orig (map (remove_slot addr internal) slots) \<and> line_write addr m m' \<and>
           (\<not> frees addr internal slots \<longrightarrow> m' = m)"
  using assms
proof (induction addr internal slots m arbitrary: orig rule: remove_slots.induct)
  case (1 addr internal m)
  then show ?case by (simp add: frees_def)
next
  case (2 addr internal slots m)
  then show ?case by (fastforce simp: frees_def)
next
  case (3 addr internal b slots m)
  let ?a = "instr_addr b" and ?bk = "instr_bytes (bkpt_for b)"
  define b' where "b' = (if ?a = addr then drop_reason internal b else b)"
  have same [simp]: "instr_addr b' = ?a" "instr_backup b' = instr_backup b"
    "sw_enabled b' = sw_enabled b" "bkpt_for b' = bkpt_for b"
    by (simp_all add: b'_def)
  have ok: "backup_ok orig b" and clear: "list_all (slot_clear ?a (instr_size (instr_backup b))) slots"
    and sok: "slots_ok orig slots" and w: "\<not> unwanted (sw_reason b)" "all_wanted slots"
    using "3.prems" by simp_all
  have ok': "backup_ok orig b'" using ok by (simp add: b'_def)
  have clear': "list_all (slot_clear ?a (length ?bk)) slots"
    using clear bkpt_for_le [of b] by (auto simp: list_all_iff intro: slot_clear_mono)
  note clear'' = list_all_clear_remove [OF clear', of addr internal]
  have hid: "load (overlay orig slots) ?a (instr_size (instr_backup b)) = instr_bytes (instr_backup b)"
    using clear backup_okD(3) [OF ok] by (simp add: overlay_load)
  show ?case
  proof (cases "unwanted (sw_reason b')")
    case True
    then have at: "?a = addr" using w(1) by (auto simp: b'_def split: if_splits)
    obtain m1 where m1: "set_enabled False b' m = Inr (b'\<lparr>sw_enabled := False\<rparr>, m1)"
      "dview m1 = overlay orig slots"
      "local_write ?a (instr_align (is_thumb (instr_backup b))) m m1"
      using "3.prems"(3) hid by (auto intro: set_enabled_spec [OF ok', of "overlay orig slots" m False])
    obtain m' where m': "remove_slots addr internal slots m1 =
        Inr (frees addr internal slots, map (remove_slot addr internal) slots, m')"
      "dview m' = overlay orig (map (remove_slot addr internal) slots)" "line_write addr m1 m'"
      using "3.IH"(1) [OF b'_def True m1(1) refl sok w(2) m1(2)] by blast
    have "line_write addr m m1" using backup_line_write [OF ok m1(3)] at by simp
    then have "line_write addr m m'" using m'(3) by (rule line_write_trans)
    moreover have "remove_slot addr internal (Some b) = None"
      using True by (simp add: remove_slot_def b'_def Let_def)
    ultimately show ?thesis
      using True m1(1) m' by (simp add: frees_def b'_def [symmetric] Let_def)
  next
    case False
    define base where "base = (if sw_enabled b then store orig ?a ?bk else orig)"
    have "slots_ok base slots" using sok clear' by (simp add: base_def slots_ok_store)
    moreover have "dview m = overlay base slots"
      using "3.prems"(3) clear' by (simp add: base_def overlay_store)
    ultimately obtain m' where m': "remove_slots addr internal slots m =
        Inr (frees addr internal slots, map (remove_slot addr internal) slots, m')"
      "dview m' = overlay base (map (remove_slot addr internal) slots)" "line_write addr m m'"
      "\<not> frees addr internal slots \<longrightarrow> m' = m"
      using "3.IH"(2) [OF b'_def False _ w(2), of base] by blast
    have r: "remove_slot addr internal (Some b) = Some b'"
      using False by (simp add: remove_slot_def b'_def Let_def)
    have "dview m' = overlay orig (map (remove_slot addr internal) (Some b # slots))"
      using m'(2) clear'' by (simp add: r base_def overlay_store)
    then show ?thesis using False m'(1,3,4) by (simp add: frees_def b'_def [symmetric] r Let_def)
  qed
qed

section \<open>Registering a breakpoint\<close>

lemma plus_Suc_fun: "(+) (Suc i) = (\<lambda>x. Suc (i + x))"
  by (rule ext) simp

lemma scan_slots_eq:
  "scan_slots addr i free slots =
     (case find_index (slot_at addr) slots of
        Some j \<Rightarrow> Found (i + j) (the (slots ! j))
      | None \<Rightarrow> Free (if free \<noteq> None then free else map_option ((+) i) (find_index (\<lambda>s. s = None) slots)))"
  by (induction addr i free slots rule: scan_slots.induct)
    (auto simp: slot_at_def option.map_comp comp_def plus_Suc_fun split: option.splits)

lemma find_slot_Some:
  assumes "find_index (slot_at addr) slots = Some j"
  obtains b where "j < length slots" and "slots ! j = Some b" and "instr_addr b = addr"
  using assms by (auto simp: find_index_Some_iff slot_at_def split: option.splits)

lemma overlay_insert:
  assumes "i < length slots" and "slots ! i = None"
    and "list_all (slot_clear (instr_addr b) (instr_size (instr_backup b))) slots"
  shows "overlay orig (slots[i := Some b]) =
           (if sw_enabled b then store (overlay orig slots) (instr_addr b) (instr_bytes (bkpt_for b))
            else overlay orig slots)"
  using assms
proof (induction orig slots arbitrary: i rule: overlay.induct)
  case (1 orig)
  then show ?case by simp
next
  case (2 orig slots)
  then show ?case by (cases i) auto
next
  case (3 orig c slots)
  obtain k where k: "i = Suc k" using "3.prems"(2) by (cases i) auto
  have "apart (instr_addr c) (instr_size (instr_backup c)) (instr_addr b) (instr_size (instr_backup b))"
    using "3.prems"(3) by simp
  then have ap: "apart (instr_addr c) (length (instr_bytes (bkpt_for c))) (instr_addr b) (length (instr_bytes (bkpt_for b)))"
    using bkpt_for_le [of b] bkpt_for_le [of c] by (auto intro: apart_mono)
  have ih: "overlay orig (slots[k := Some b]) =
      (if sw_enabled b then store (overlay orig slots) (instr_addr b) (instr_bytes (bkpt_for b))
       else overlay orig slots)"
    using "3.IH" "3.prems" k by (cases "sw_enabled c") simp_all
  show ?case using ih store_store_apart [OF ap] by (simp add: k)
qed

lemma slots_ok_insert:
  assumes "slots_ok orig slots" and "i < length slots" and "slots ! i = None" and "backup_ok orig b"
    and "list_all (slot_clear (instr_addr b) (instr_size (instr_backup b))) slots"
  shows "slots_ok orig (slots[i := Some b])"
  using assms
proof (induction orig slots arbitrary: i rule: slots_ok.induct)
  case (1 orig)
  then show ?case by simp
next
  case (2 orig slots)
  then show ?case by (cases i) auto
next
  case (3 orig c slots)
  obtain k where k: "i = Suc k" using "3.prems"(3) by (cases i) auto
  have "list_all (slot_clear (instr_addr c) (instr_size (instr_backup c))) (slots[k := Some b])"
    using "3.prems"(1,5) by (auto simp: list_all_iff apart_sym dest!: set_update_subset_insert [THEN subsetD])
  then show ?case using "3.IH" [of k] "3.prems" k by simp
qed

text \<open>A change of the reason alone moves no byte.\<close>

lemma overlay_reason:
  "i < length slots \<Longrightarrow> slots ! i = Some b \<Longrightarrow>
   overlay orig (slots[i := Some (b\<lparr>sw_reason := r\<rparr>)]) = overlay orig slots"
  by (induction orig slots arbitrary: i rule: overlay.induct) (auto split: nat.splits simp: nth_Cons list_update.simps)

lemma slots_ok_reason:
  assumes "slots_ok orig slots" and "i < length slots" and "slots ! i = Some b"
  shows "slots_ok orig (slots[i := Some (b\<lparr>sw_reason := r\<rparr>)])"
proof -
  have clear: "list_all (slot_clear a n) (xs[k := Some (b\<lparr>sw_reason := r\<rparr>)])"
    if "list_all (slot_clear a n) xs" "k < length xs" "xs ! k = Some b" for a n xs k
  proof -
    have "slot_clear a n (Some b)" using that by (metis list_all_length)
    then show ?thesis using that(1) by (auto simp: list_all_iff dest!: set_update_subset_insert [THEN subsetD])
  qed
  show ?thesis using assms
    by (induction orig slots arbitrary: i rule: slots_ok.induct)
      (auto split: nat.splits simp: nth_Cons list_update.simps clear)
qed

section \<open>The invariant of the table\<close>

text \<open>
  \<open>sw_inv orig t m\<close>: the table has its 16 slots, every backup is the instruction of the
  program \<open>orig\<close>, memory is \<open>orig\<close> under the enabled breakpoints, each breakpoint has an
  owner, and exactly the unpaused table is enabled.
\<close>

definition slots_state :: "bool \<Rightarrow> sw_breakpoint option list \<Rightarrow> bool" where
  "slots_state paused slots =
     list_all (\<lambda>slot. case slot of None \<Rightarrow> True | Some b \<Rightarrow> sw_enabled b = (\<not> paused)) slots"

definition sw_inv :: "memory \<Rightarrow> 't v5_breaks_scheme \<Rightarrow> 'm caches_scheme \<Rightarrow> bool" where
  "sw_inv orig t m \<longleftrightarrow>
     length (breaks t) = 16 \<and> slots_ok orig (breaks t) \<and> dview m = overlay orig (breaks t) \<and>
     all_wanted (breaks t) \<and> slots_state (breaks_paused t) (breaks t)"

definition sw_holds :: "bool \<Rightarrow> breakpoint_reason \<Rightarrow> bool" where
  "sw_holds internal r = (if internal then br_internal r else br_user r)"

definition slot_keys :: "sw_breakpoint option list \<Rightarrow> (u32 \<times> bool) set" where
  "slot_keys slots = {(instr_addr b, i) | b i. Some b \<in> set slots \<and> sw_holds i (sw_reason b)}"

text \<open>Where a breakpoint may go: an existing slot, or an instruction no breakpoint overlaps.\<close>

definition sw_ready :: "memory \<Rightarrow> u32 \<Rightarrow> bool \<Rightarrow> 't v5_breaks_scheme \<Rightarrow> bool" where
  "sw_ready orig addr thumb t \<longleftrightarrow> 0x03000000 \<le> addr \<and>
     (case instr_read orig addr thumb of
        Inl _ \<Rightarrow> False
      | Inr i \<Rightarrow> list_all (\<lambda>s. slot_at addr s \<or> slot_clear addr (instr_size i) s) (breaks t))"

lemma slot_keys_simps [simp]:
  "slot_keys [] = {}"
  "slot_keys (None # slots) = slot_keys slots"
  "slot_keys (Some b # slots) = {(instr_addr b, i) | i. sw_holds i (sw_reason b)} \<union> slot_keys slots"
  by (auto simp: slot_keys_def)

lemma slot_keysI: "Some b \<in> set slots \<Longrightarrow> sw_holds i (sw_reason b) \<Longrightarrow> (instr_addr b, i) \<in> slot_keys slots"
  by (auto simp: slot_keys_def)

lemma overlay_disabled:
  "slots_state True slots \<Longrightarrow> overlay orig slots = orig"
  by (induction orig slots rule: overlay.induct) (auto simp: slots_state_def)

lemma slots_state_enable: "slots_state p (map (enable_slot (\<not> p)) slots)"
  by (auto simp: slots_state_def list_all_iff enable_slot_def split: option.splits)

lemma all_wanted_enable [simp]: "all_wanted (map (enable_slot e) slots) = all_wanted slots"
  by (induction slots) (auto simp: all_wanted_def enable_slot_def split: option.splits)

lemma slot_keys_enable [simp]: "slot_keys (map (enable_slot e) slots) = slot_keys slots"
proof (induction slots)
  case (Cons slot slots)
  then show ?case by (cases slot) simp_all
qed simp

lemma slots_state_remove: "slots_state p slots \<Longrightarrow> slots_state p (map (remove_slot addr internal) slots)"
  by (auto simp: slots_state_def list_all_iff remove_slot_def Let_def split: option.splits if_splits)

lemma drop_reason_holds:
  "sw_holds i (sw_reason (drop_reason j b)) \<longleftrightarrow> i \<noteq> j \<and> sw_holds i (sw_reason b)"
  by (auto simp: sw_holds_def drop_reason_def)

lemma not_unwanted_holds: "\<not> unwanted r \<longleftrightarrow> (\<exists>i. sw_holds i r)"
  by (simp add: unwanted_def sw_holds_def ex_bool_eq) blast

lemma remove_slot_holds:
  assumes "remove_slot addr internal (Some b) = Some c"
  shows "sw_holds i (sw_reason c) \<longleftrightarrow> sw_holds i (sw_reason b) \<and> (instr_addr b, i) \<noteq> (addr, internal)"
  using assms by (auto simp: remove_slot_def Let_def drop_reason_holds split: if_splits)

lemma remove_slot_gone:
  assumes "remove_slot addr internal (Some b) = None" and "sw_holds i (sw_reason b)"
  shows "(instr_addr b, i) = (addr, internal)"
proof -
  define b' where "b' = (if instr_addr b = addr then drop_reason internal b else b)"
  have "unwanted (sw_reason b')"
    using assms(1) by (simp add: remove_slot_def Let_def b'_def split: if_splits)
  then have "\<not> sw_holds i (sw_reason b')" using not_unwanted_holds by blast
  then show ?thesis using assms(2) by (auto simp: b'_def drop_reason_holds split: if_splits)
qed

lemma slot_keys_remove:
  "slot_keys (map (remove_slot addr internal) slots) = slot_keys slots - {(addr, internal)}"
proof (induction slots)
  case Nil
  then show ?case by simp
next
  case (Cons slot slots)
  show ?case
  proof (cases slot)
    case None
    then show ?thesis using Cons by simp
  next
    case (Some b)
    show ?thesis
    proof (cases "remove_slot addr internal (Some b)")
      case None
      then have "{(instr_addr b, i) | i. sw_holds i (sw_reason b)} \<subseteq> {(addr, internal)}"
        using remove_slot_gone by blast
      then show ?thesis using Cons None Some by auto
    next
      case (Some c)
      then have "{(instr_addr c, i) | i. sw_holds i (sw_reason c)} =
          {(instr_addr b, i) | i. sw_holds i (sw_reason b)} - {(addr, internal)}"
        by (auto simp: remove_slot_holds remove_slot_SomeD(1))
      then show ?thesis using Cons Some \<open>slot = Some b\<close> by auto
    qed
  qed
qed

lemma set_breakpoints_ignored_spec:
  assumes "slots_ok orig (breaks t)" and "dview m = overlay orig (breaks t)"
  obtains m' where
    "set_breakpoints_ignored p t m =
       Inr (t\<lparr>breaks_paused := p, breaks := map (enable_slot (\<not> p)) (breaks t)\<rparr>, m')"
    and "dview m' = overlay orig (map (enable_slot (\<not> p)) (breaks t))" and "maintains m m'"
  using enable_slots_spec [OF assms, of "\<not> p"] that
  by (auto simp: set_breakpoints_ignored_def Let_def)

lemma remove_sw_breakpoint_spec:
  assumes "slots_ok orig (breaks t)" and "all_wanted (breaks t)" and "dview m = overlay orig (breaks t)"
  obtains m' where
    "remove_sw_breakpoint addr internal t m =
       Inr (frees addr internal (breaks t), t\<lparr>breaks := map (remove_slot addr internal) (breaks t)\<rparr>, m')"
    and "dview m' = overlay orig (map (remove_slot addr internal) (breaks t))" and "maintains m m'"
proof -
  obtain m1 where m1: "remove_slots addr internal (breaks t) m =
        Inr (frees addr internal (breaks t), map (remove_slot addr internal) (breaks t), m1)"
    "dview m1 = overlay orig (map (remove_slot addr internal) (breaks t))" "line_write addr m m1"
    "\<not> frees addr internal (breaks t) \<longrightarrow> m1 = m"
    using remove_slots_spec [OF assms] by blast
  let ?m' = "if frees addr internal (breaks t) then sync_instruction (Address addr) m1 else m1"
  have "maintains m ?m'" using line_write_sync [OF m1(3)] m1(4) by simp
  then show thesis
    by (rule that [rotated 2])
      (use m1 in \<open>cases "frees addr internal (breaks t)"; simp add: remove_sw_breakpoint_def\<close>)+
qed

lemma remove_sw_breakpoint_inv:
  assumes "sw_inv orig t m"
  obtains m' where
    "remove_sw_breakpoint addr internal t m =
       Inr (frees addr internal (breaks t), t\<lparr>breaks := map (remove_slot addr internal) (breaks t)\<rparr>, m')"
    and "sw_inv orig (t\<lparr>breaks := map (remove_slot addr internal) (breaks t)\<rparr>) m'" and "maintains m m'"
proof -
  have inv: "slots_ok orig (breaks t)" "all_wanted (breaks t)" "dview m = overlay orig (breaks t)"
    using assms by (simp_all add: sw_inv_def)
  show thesis
    by (rule remove_sw_breakpoint_spec [OF inv, of addr internal], rule that)
      (use assms in \<open>auto simp: sw_inv_def slots_ok_remove all_wanted_remove slots_state_remove\<close>)
qed

lemma set_breakpoints_ignored_inv:
  assumes "sw_inv orig t m"
  obtains m' where
    "set_breakpoints_ignored p t m =
       Inr (t\<lparr>breaks_paused := p, breaks := map (enable_slot (\<not> p)) (breaks t)\<rparr>, m')"
    and "sw_inv orig (t\<lparr>breaks_paused := p, breaks := map (enable_slot (\<not> p)) (breaks t)\<rparr>) m'"
    and "maintains m m'"
proof -
  have inv: "slots_ok orig (breaks t)" "dview m = overlay orig (breaks t)"
    using assms by (simp_all add: sw_inv_def)
  show thesis
    by (rule set_breakpoints_ignored_spec [OF inv, of p], rule that)
      (use assms in \<open>auto simp: sw_inv_def slots_state_enable\<close>)
qed

lemma all_wanted_update:
  "all_wanted slots \<Longrightarrow> \<not> unwanted (sw_reason b) \<Longrightarrow> all_wanted (slots[i := Some b])"
  by (auto simp: all_wanted_def list_all_iff dest!: set_update_subset_insert [THEN subsetD])

lemma slots_state_update:
  "slots_state p slots \<Longrightarrow> sw_enabled b = (\<not> p) \<Longrightarrow> slots_state p (slots[i := Some b])"
  by (auto simp: slots_state_def list_all_iff dest!: set_update_subset_insert [THEN subsetD])

lemma slot_keys_insert:
  "i < length slots \<Longrightarrow> slots ! i = None \<Longrightarrow>
   slot_keys (slots[i := Some b]) = {(instr_addr b, j) | j. sw_holds j (sw_reason b)} \<union> slot_keys slots"
proof (induction slots arbitrary: i)
  case (Cons slot slots)
  show ?case
  proof (cases i)
    case 0
    then show ?thesis using Cons.prems by simp
  next
    case (Suc k)
    then show ?thesis using Cons.IH [of k] Cons.prems by (cases slot) auto
  qed
qed simp

lemma slot_keys_reason:
  "i < length slots \<Longrightarrow> slots ! i = Some b \<Longrightarrow>
   (\<And>j. sw_holds j r \<longleftrightarrow> j = internal \<or> sw_holds j (sw_reason b)) \<Longrightarrow>
   slot_keys (slots[i := Some (b\<lparr>sw_reason := r\<rparr>)]) = insert (instr_addr b, internal) (slot_keys slots)"
proof (induction slots arbitrary: i)
  case (Cons slot slots)
  show ?case
  proof (cases i)
    case 0
    then show ?thesis using Cons.prems by auto
  next
    case (Suc k)
    then show ?thesis using Cons.IH [of k] Cons.prems by (cases slot) auto
  qed
qed simp

lemma slot_keys_same_addr:
  assumes "slots_ok orig slots" and "i < length slots" and "slots ! i = Some b"
  shows "(instr_addr b, j) \<in> slot_keys slots \<longleftrightarrow> sw_holds j (sw_reason b)"
  using assms
proof (induction orig slots arbitrary: i rule: slots_ok.induct)
  case (2 orig slots)
  then show ?case by (cases i) auto
next
  case (3 orig c slots)
  have other: "(instr_addr d, j) \<notin> slot_keys xs"
    if "list_all (slot_clear (instr_addr d) (instr_size (instr_backup d))) xs" for d xs
    using that by (auto simp: slot_keys_def list_all_iff apart_def dest!: bspec)
  show ?case
  proof (cases i)
    case 0
    then show ?thesis using "3.prems" other by auto
  next
    case (Suc k)
    have "Some b \<in> set slots" using "3.prems"(2,3) Suc by (auto simp: in_set_conv_nth)
    then have "apart (instr_addr b) (instr_size (instr_backup b)) (instr_addr c) (instr_size (instr_backup c))"
      using "3.prems"(1) by (auto simp: list_all_iff)
    then have "instr_addr b \<noteq> instr_addr c" by (auto simp: apart_def)
    then show ?thesis using "3.IH" [of k] "3.prems" Suc by auto
  qed
qed simp

lemma no_slot_no_key: "find_index (slot_at addr) slots = None \<Longrightarrow> (addr, i) \<notin> slot_keys slots"
  by (auto simp: find_index_None_iff slot_keys_def)

text \<open>What \<open>register_sw_breakpoint\<close> answers for an address that is ready.\<close>

definition register_result :: "u32 \<Rightarrow> bool \<Rightarrow> sw_breakpoint option list \<Rightarrow> breakpoint_error + unit" where
  "register_result addr internal slots =
     (case find_index (slot_at addr) slots of
        Some j \<Rightarrow> if (case slots ! j of None \<Rightarrow> False | Some b \<Rightarrow> sw_holds internal (sw_reason b))
                  then Inl AlreadyExists else Inr ()
      | None \<Rightarrow> if find_index (\<lambda>s. s = None) slots = None then Inl NoSpace else Inr ())"

lemma register_existing:
  assumes inv: "sw_inv orig t m" and addr: "\<not> addr < 0x03000000"
    and j: "find_index (slot_at addr) (breaks t) = Some j"
  obtains t' where
    "register_sw_breakpoint addr thumb internal t m = Inr (register_result addr internal (breaks t), t', m)"
    and "sw_inv orig t' m" and "breaks_paused t' = breaks_paused t" and "v5_breaks.more t' = v5_breaks.more t"
    and "register_result addr internal (breaks t) = Inr () \<Longrightarrow>
           slot_keys (breaks t') = insert (addr, internal) (slot_keys (breaks t))"
    and "register_result addr internal (breaks t) \<noteq> Inr () \<Longrightarrow> t' = t"
    and "\<And>Q. list_all (\<lambda>s. slot_at addr s \<or> Q s) (breaks t) \<Longrightarrow> list_all (\<lambda>s. slot_at addr s \<or> Q s) (breaks t')"
proof -
  obtain b where b: "j < length (breaks t)" "breaks t ! j = Some b" "instr_addr b = addr"
    using j by (rule find_slot_Some)
  have scan: "scan_slots addr 0 None (breaks t) = Found j b"
    using j b by (simp add: scan_slots_eq)
  show thesis
  proof (cases "sw_holds internal (sw_reason b)")
    case True
    then have "register_sw_breakpoint addr thumb internal t m = Inr (Inl AlreadyExists, t, m)"
      using scan addr by (auto simp: register_sw_breakpoint_def sw_holds_def split: if_splits)
    moreover have "register_result addr internal (breaks t) = Inl AlreadyExists"
      using True j b by (simp add: register_result_def)
    ultimately show ?thesis using that [of t] inv j by simp
  next
    case False
    define r where "r = (if internal then (sw_reason b)\<lparr>br_internal := True\<rparr> else (sw_reason b)\<lparr>br_user := True\<rparr>)"
    define b' where "b' = b\<lparr>sw_reason := r\<rparr>"
    let ?t' = "t\<lparr>breaks := (breaks t)[j := Some b']\<rparr>"
    have reg: "register_sw_breakpoint addr thumb internal t m = Inr (Inr (), ?t', m)"
      using False scan addr by (cases internal) (auto simp: register_sw_breakpoint_def sw_holds_def r_def b'_def)
    have res: "register_result addr internal (breaks t) = Inr ()"
      using False j b by (simp add: register_result_def)
    have holds: "sw_holds i r \<longleftrightarrow> i = internal \<or> sw_holds i (sw_reason b)" for i
      by (auto simp: sw_holds_def r_def)
    have wanted: "\<not> unwanted r" using holds not_unwanted_holds by blast
    have "sw_enabled b = (\<not> breaks_paused t)"
      using inv b(1,2) unfolding sw_inv_def slots_state_def by (auto simp: list_all_length)
    then have "sw_inv orig ?t' m"
      using inv b wanted
      by (simp add: sw_inv_def b'_def overlay_reason slots_ok_reason all_wanted_update slots_state_update)
    moreover have "slot_keys (breaks ?t') = insert (addr, internal) (slot_keys (breaks t))"
      using slot_keys_reason [OF b(1,2) holds] b(3) by (simp add: b'_def)
    moreover have "list_all (\<lambda>s. slot_at addr s \<or> Q s) (breaks ?t')"
      if "list_all (\<lambda>s. slot_at addr s \<or> Q s) (breaks t)" for Q
      using that b(3) by (auto simp: list_all_iff b'_def dest!: set_update_subset_insert [THEN subsetD])
    ultimately show ?thesis using that [of ?t'] reg res by simp
  qed
qed

lemma fresh_instr:
  assumes dv: "dview m = overlay orig (breaks t)" and ready: "sw_ready orig addr thumb t"
    and j: "find_index (slot_at addr) (breaks t) = None"
  obtains ins where "instr_read orig addr thumb = Inr ins" and "instr_read (dview m) addr thumb = Inr ins"
    and "list_all (slot_clear addr (instr_size ins)) (breaks t)" and "\<not> addr < 0x03000000"
proof -
  obtain ins where ins: "instr_read orig addr thumb = Inr ins"
    and cl: "list_all (\<lambda>s. slot_at addr s \<or> slot_clear addr (instr_size ins) s) (breaks t)"
    using ready by (auto simp: sw_ready_def split: sum.splits)
  have clear: "list_all (slot_clear addr (instr_size ins)) (breaks t)"
    using cl j by (auto simp: list_all_iff find_index_None_iff)
  moreover have "instr_read (dview m) addr thumb = Inr ins"
    using ins overlay_load [OF clear, of orig] unfolding dv by (auto intro: instr_read_cong)
  moreover have "\<not> addr < 0x03000000" using ready by (simp add: sw_ready_def not_less)
  ultimately show thesis using that ins by blast
qed

lemma insert_inv:
  assumes inv: "sw_inv orig t m" and len: "i < length (breaks t)" "breaks t ! i = None"
    and ok: "backup_ok orig b" and clear: "list_all (slot_clear (instr_addr b) (instr_size (instr_backup b))) (breaks t)"
    and own: "\<not> unwanted (sw_reason b)" and en: "sw_enabled b = (\<not> breaks_paused t)"
    and dv: "dview m' = (if breaks_paused t then dview m else store (dview m) (instr_addr b) (instr_bytes (bkpt_for b)))"
  shows "sw_inv orig (t\<lparr>breaks := (breaks t)[i := Some b]\<rparr>) m'"
  using inv len ok clear own en dv overlay_insert [OF len clear, of orig]
  by (simp add: sw_inv_def slots_ok_insert all_wanted_update slots_state_update)

text \<open>\<open>fresh_bkpt\<close> is the breakpoint a successful registration stores in its slot.\<close>

definition fresh_bkpt :: "u32 \<Rightarrow> bool \<Rightarrow> bool \<Rightarrow> instruction \<Rightarrow> sw_breakpoint" where
  "fresh_bkpt addr internal enabled ins =
     \<lparr>sw_enabled = enabled, instr_addr = addr, instr_backup = ins, sw_reason = reason_new internal\<rparr>"

lemma fresh_bkpt_simps [simp]:
  "instr_addr (fresh_bkpt addr internal e ins) = addr"
  "instr_backup (fresh_bkpt addr internal e ins) = ins"
  "sw_enabled (fresh_bkpt addr internal e ins) = e"
  "sw_reason (fresh_bkpt addr internal e ins) = reason_new internal"
  "(fresh_bkpt addr internal e ins)\<lparr>sw_enabled := e'\<rparr> = fresh_bkpt addr internal e' ins"
  "\<not> unwanted (reason_new internal)"
  by (simp_all add: fresh_bkpt_def reason_new_def unwanted_def)

lemma bkpt_for_fresh: "bkpt_for (fresh_bkpt addr internal e ins) = bkpt_for (fresh_bkpt addr internal e' ins)"
  by (simp add: bkpt_for_def)

lemma sw_new_fresh: "instr_read mem addr thumb = Inr ins \<Longrightarrow> sw_new mem addr thumb internal = Inr (fresh_bkpt addr internal False ins)"
  by (simp add: sw_new_def fresh_bkpt_def)

lemma register_fresh:
  assumes inv: "sw_inv orig t m" and ready: "sw_ready orig addr thumb t"
    and j: "find_index (slot_at addr) (breaks t) = None"
    and i: "find_index (\<lambda>s. s = None) (breaks t) = Some i"
  obtains ins m' t' where
    "instr_read orig addr thumb = Inr ins"
    and "t' = t\<lparr>breaks := (breaks t)[i := Some (fresh_bkpt addr internal (\<not> breaks_paused t) ins)]\<rparr>"
    and "register_sw_breakpoint addr thumb internal t m = Inr (Inr (), t', m')"
    and "i < length (breaks t)" and "breaks t ! i = None"
    and "sw_inv orig t' m'" and "maintains m m'"
    and "list_all (slot_clear addr (instr_size ins)) (breaks t)"
proof -
  have dv: "dview m = overlay orig (breaks t)" using inv by (simp add: sw_inv_def)
  have len: "i < length (breaks t)" "breaks t ! i = None" using i by (auto simp: find_index_Some_iff)
  have scan: "scan_slots addr 0 None (breaks t) = Free (Some i)" using i j by (simp add: scan_slots_eq)
  obtain ins where ins: "instr_read orig addr thumb = Inr ins" "instr_read (dview m) addr thumb = Inr ins"
    and clear: "list_all (slot_clear addr (instr_size ins)) (breaks t)" and addr: "\<not> addr < 0x03000000"
    by (rule fresh_instr [OF dv ready j])
  let ?b = "\<lambda>e. fresh_bkpt addr internal e ins"
  let ?t' = "t\<lparr>breaks := (breaks t)[i := Some (?b (\<not> breaks_paused t))]\<rparr>"
  have ok: "backup_ok orig (?b e)" for e using ins(1) instr_readD(2) [OF ins(1)] by (simp add: backup_ok_def)
  have hid: "load (dview m) (instr_addr (?b False)) (instr_size (instr_backup (?b False))) = instr_bytes (instr_backup (?b False))"
    using instr_readD(3) [OF ins(2)] by simp
  obtain m1 where m1: "set_enabled True (?b False) m = Inr (?b True, m1)"
    "dview m1 = store (dview m) addr (instr_bytes (bkpt_for (?b False)))"
    "local_write addr (instr_align (is_thumb ins)) m m1"
    by (rule set_enabled_spec [OF ok hid, of m True]) auto
  define m' where "m' = (if breaks_paused t then m else sync_instruction (Address addr) m1)"
  have "register_sw_breakpoint addr thumb internal t m = Inr (Inr (), ?t', m')"
    using scan addr m1(1) by (simp add: register_sw_breakpoint_def sw_new_fresh [OF ins(2)] sw_cache_target_def m'_def)
  moreover have "sw_inv orig ?t' m'"
    by (rule insert_inv [OF inv len])
      (use ok clear m1(2) in \<open>auto simp: m'_def bkpt_for_fresh [of _ _ True ins False]\<close>)
  moreover have "maintains m m'"
    using sync_backup [OF ok, of False m m1] m1(3) by (simp add: m'_def sw_cache_target_def)
  ultimately show thesis using that ins(1) len clear by blast
qed

lemma register_sw_breakpoint_total:
  assumes inv: "sw_inv orig t m" and ready: "sw_ready orig addr thumb t"
  obtains t' m' where
    "register_sw_breakpoint addr thumb internal t m = Inr (register_result addr internal (breaks t), t', m')"
    and "sw_inv orig t' m'" and "maintains m m'" and "breaks_paused t' = breaks_paused t"
    and "v5_breaks.more t' = v5_breaks.more t" and "sw_ready orig addr thumb t'"
    and "register_result addr internal (breaks t) = Inr () \<Longrightarrow>
           slot_keys (breaks t') = insert (addr, internal) (slot_keys (breaks t))"
    and "register_result addr internal (breaks t) \<noteq> Inr () \<Longrightarrow> t' = t \<and> m' = m"
proof -
  have addr: "\<not> addr < 0x03000000" using ready by (simp add: sw_ready_def not_less)
  obtain ins where ins: "instr_read orig addr thumb = Inr ins"
    and cl: "list_all (\<lambda>s. slot_at addr s \<or> slot_clear addr (instr_size ins) s) (breaks t)"
    using ready by (auto simp: sw_ready_def split: sum.splits)
  have readyI: "sw_ready orig addr thumb t'" if "list_all (\<lambda>s. slot_at addr s \<or> slot_clear addr (instr_size ins) s) (breaks t')" for t'
    using that ins addr by (simp add: sw_ready_def not_less)
  consider (old) j where "find_index (slot_at addr) (breaks t) = Some j"
    | (full) "find_index (slot_at addr) (breaks t) = None" "find_index (\<lambda>s. s = None) (breaks t) = None"
    | (new) i where "find_index (slot_at addr) (breaks t) = None" "find_index (\<lambda>s. s = None) (breaks t) = Some i"
    by blast
  then show thesis
  proof cases
    case full
    then have "register_sw_breakpoint addr thumb internal t m = Inr (Inl NoSpace, t, m)"
      using addr by (simp add: register_sw_breakpoint_def scan_slots_eq)
    then show ?thesis using that [of t m] full inv ready by (simp add: register_result_def)
  next
    case (new i)
    obtain ins' m' t' where r: "instr_read orig addr thumb = Inr ins'"
      "t' = t\<lparr>breaks := (breaks t)[i := Some (fresh_bkpt addr internal (\<not> breaks_paused t) ins')]\<rparr>"
      "register_sw_breakpoint addr thumb internal t m = Inr (Inr (), t', m')"
      "i < length (breaks t)" "breaks t ! i = None" "sw_inv orig t' m'" "maintains m m'"
      by (rule register_fresh [OF inv ready new])
    have res: "register_result addr internal (breaks t) = Inr ()" using new by (simp add: register_result_def)
    have keys: "slot_keys (breaks t') = insert (addr, internal) (slot_keys (breaks t))"
      using slot_keys_insert [OF r(4,5)] by (auto simp: r(2) sw_holds_def reason_new_def)
    have "sw_ready orig addr thumb t'"
      by (rule readyI) (use cl in \<open>auto simp: r(2) list_all_iff dest!: set_update_subset_insert [THEN subsetD]\<close>)
    then show ?thesis using that [of t' m'] r res keys by simp
  next
    case (old j)
    obtain t' where r: "register_sw_breakpoint addr thumb internal t m = Inr (register_result addr internal (breaks t), t', m)"
      "sw_inv orig t' m" "breaks_paused t' = breaks_paused t" "v5_breaks.more t' = v5_breaks.more t"
      "register_result addr internal (breaks t) = Inr () \<Longrightarrow>
           slot_keys (breaks t') = insert (addr, internal) (slot_keys (breaks t))"
      "register_result addr internal (breaks t) \<noteq> Inr () \<Longrightarrow> t' = t"
      "\<And>Q. list_all (\<lambda>s. slot_at addr s \<or> Q s) (breaks t) \<Longrightarrow> list_all (\<lambda>s. slot_at addr s \<or> Q s) (breaks t')"
      by (rule register_existing [OF inv addr old, of thumb internal]) blast
    show ?thesis using that [of t' m] r readyI [OF r(7) [OF cl]] by simp
  qed
qed

section \<open>The table as a breakpoint store\<close>

text \<open>
  The store's state carries the program memory \<open>orig\<close> as a ghost. A key is an address with its
  owner: the debugger (\<open>True\<close>) or the user.
\<close>

type_synonym ('t, 'm) sw_store = "memory \<times> 't v5_breaks_scheme \<times> 'm caches_scheme"

definition sw_store_inv :: "('t, 'm) sw_store \<Rightarrow> bool" where
  "sw_store_inv s = (case s of (orig, t, m) \<Rightarrow> sw_inv orig t m)"

definition sw_store_keys :: "('t, 'm) sw_store \<Rightarrow> (u32 \<times> bool) set" where
  "sw_store_keys s = (case s of (orig, t, m) \<Rightarrow> slot_keys (breaks t))"

definition sw_store_key :: "u32 \<times> bool \<times> bool \<Rightarrow> u32 \<times> bool" where
  "sw_store_key a = (case a of (addr, thumb, internal) \<Rightarrow> (addr, internal))"

definition sw_store_ready :: "u32 \<times> bool \<times> bool \<Rightarrow> ('t, 'm) sw_store \<Rightarrow> bool" where
  "sw_store_ready a s = (case a of (addr, thumb, internal) \<Rightarrow> case s of (orig, t, m) \<Rightarrow> sw_ready orig addr thumb t)"

definition sw_store_add ::
  "u32 \<times> bool \<times> bool \<Rightarrow> ('t, 'm) sw_store \<Rightarrow> ((breakpoint_error + unit) \<times> ('t, 'm) sw_store) outcome" where
  "sw_store_add a s =
     (case a of (addr, thumb, internal) \<Rightarrow> case s of (orig, t, m) \<Rightarrow>
        and_then (register_sw_breakpoint addr thumb internal t m) (\<lambda>(r, t, m). ok (r, orig, t, m)))"

definition sw_store_del ::
  "u32 \<times> bool \<times> bool \<Rightarrow> ('t, 'm) sw_store \<Rightarrow> (bool \<times> ('t, 'm) sw_store) outcome" where
  "sw_store_del a s =
     (case a of (addr, thumb, internal) \<Rightarrow> case s of (orig, t, m) \<Rightarrow>
        and_then (remove_sw_breakpoint addr internal t m) (\<lambda>(c, t, m). ok (c, orig, t, m)))"

lemmas sw_store_defs =
  sw_store_inv_def sw_store_keys_def sw_store_key_def sw_store_ready_def sw_store_add_def sw_store_del_def

lemma register_result_held:
  assumes "sw_inv orig t m" and "(addr, internal) \<in> slot_keys (breaks t)"
  shows "register_result addr internal (breaks t) = Inl AlreadyExists"
proof -
  obtain j where j: "find_index (slot_at addr) (breaks t) = Some j"
    using no_slot_no_key assms(2) by (cases "find_index (slot_at addr) (breaks t)") blast+
  obtain b where b: "j < length (breaks t)" "breaks t ! j = Some b" "instr_addr b = addr"
    using j by (rule find_slot_Some)
  have "sw_holds internal (sw_reason b)"
    using assms slot_keys_same_addr [OF _ b(1,2)] b(3) by (auto simp: sw_inv_def)
  then show ?thesis using j b by (simp add: register_result_def)
qed

lemma sw_store_add_total:
  assumes "sw_store_inv s" and "sw_store_ready a s"
  obtains r s' where "sw_store_add a s = Inr (r, s')" and "sw_store_inv s'" and "sw_store_ready a s'"
    and "sw_store_key a \<in> sw_store_keys s \<Longrightarrow> r = Inl AlreadyExists"
    and "r = Inr () \<Longrightarrow> sw_store_keys s' = insert (sw_store_key a) (sw_store_keys s)"
    and "r \<noteq> Inr () \<Longrightarrow> s' = s"
proof -
  obtain addr thumb internal orig t m where as: "a = (addr, thumb, internal)" "s = (orig, t, m)"
    by (metis prod_cases3)
  have h: "sw_inv orig t m" "sw_ready orig addr thumb t"
    using assms by (simp_all add: as sw_store_defs)
  obtain t' m' where r:
    "register_sw_breakpoint addr thumb internal t m = Inr (register_result addr internal (breaks t), t', m')"
    "sw_inv orig t' m'" "maintains m m'" "breaks_paused t' = breaks_paused t"
    "v5_breaks.more t' = v5_breaks.more t" "sw_ready orig addr thumb t'"
    "register_result addr internal (breaks t) = Inr () \<Longrightarrow>
       slot_keys (breaks t') = insert (addr, internal) (slot_keys (breaks t))"
    "register_result addr internal (breaks t) \<noteq> Inr () \<Longrightarrow> t' = t \<and> m' = m"
    by (rule register_sw_breakpoint_total [OF h, of internal]) blast
  show thesis
    by (rule that [of "register_result addr internal (breaks t)" "(orig, t', m')"])
      (use r register_result_held [OF h(1), of addr internal] in \<open>simp_all add: as sw_store_defs\<close>)
qed

lemma sw_store_del_total:
  assumes "sw_store_inv s"
  obtains c s' where "sw_store_del a s = Inr (c, s')" and "sw_store_inv s'"
    and "sw_store_keys s' = sw_store_keys s - {sw_store_key a}"
proof -
  obtain addr thumb internal orig t m where as: "a = (addr, thumb, internal)" "s = (orig, t, m)"
    by (metis prod_cases3)
  have h: "sw_inv orig t m" using assms by (simp add: as sw_store_defs)
  obtain m' where r:
    "remove_sw_breakpoint addr internal t m =
       Inr (frees addr internal (breaks t), t\<lparr>breaks := map (remove_slot addr internal) (breaks t)\<rparr>, m')"
    "sw_inv orig (t\<lparr>breaks := map (remove_slot addr internal) (breaks t)\<rparr>) m'" "maintains m m'"
    by (rule remove_sw_breakpoint_inv [OF h, of addr internal])
  show thesis
    by (rule that [of "frees addr internal (breaks t)" "(orig, t\<lparr>breaks := map (remove_slot addr internal) (breaks t)\<rparr>, m')"])
      (use r in \<open>simp_all add: as sw_store_defs slot_keys_remove\<close>)
qed

interpretation sw: breakpoint_store sw_store_inv sw_store_keys sw_store_key sw_store_ready sw_store_add sw_store_del
proof (unfold_locales, goal_cases)
  case (1 s a)
  show ?case by (rule sw_store_add_total [OF 1]) blast
next
  case (2 s a)
  show ?case by (rule sw_store_add_total [OF 2(1,2)]) (use 2 in auto)
next
  case (3 s a e s')
  show ?case by (rule sw_store_add_total [OF 3(1,2)]) (use 3 in auto)
next
  case (4 s a s')
  show ?case by (rule sw_store_add_total [OF 4(1,2)]) (use 4 in auto)
next
  case (5 s a)
  show ?case by (rule sw_store_del_total [OF 5(1), of a]) blast
next
  case (6 s a c s')
  show ?case by (rule sw_store_del_total [OF 6(1), of a]) (use 6 in auto)
next
  case (7 s a r s')
  show ?case by (rule sw_store_add_total [OF 7(1,2)]) (use 7 in auto)
qed

end
