(* ===== verification/Sw_Properties.thy ===== *)
theory Sw_Properties
  imports Sw_Breakpoints
begin

text \<open>
  The properties of the software breakpoint table (\<open>software.rs\<close>), and the small table their
  witnesses run on: an all-zero program with one user breakpoint on the ARM word at 0x03800000.
\<close>

section \<open>A small table for the witnesses\<close>

definition demo_mem :: memory where
  "demo_mem x = 0"

definition demo_bkpt :: "bool \<Rightarrow> sw_breakpoint" where
  "demo_bkpt e = fresh_bkpt 0x03800000 False e (Arm 0)"

definition demo_slots :: "bool \<Rightarrow> sw_breakpoint option list" where
  "demo_slots e = Some (demo_bkpt e) # replicate 15 None"

definition demo_table :: "bool \<Rightarrow> v5_breaks" where
  "demo_table paused = \<lparr>breaks_paused = paused, breaks = demo_slots (\<not> paused)\<rparr>"

definition demo_machine :: "memory \<Rightarrow> caches" where
  "demo_machine mem = \<lparr>dview = mem, pou = mem, iview = mem\<rparr>"

definition demo_armed :: memory where
  "demo_armed = overlay demo_mem (demo_slots True)"

lemma demo_load [simp]: "load demo_mem a n = replicate n 0"
  by (simp add: load_def demo_mem_def map_replicate_const)

lemma le_word_zeros [simp]: "le_word (replicate n 0) = 0"
  by (induction n) simp_all

lemma demo_read [simp]:
  "instr_read demo_mem 0x03800000 False = Inr (Arm 0)"
  "instr_read demo_mem 0x03800010 True = Inr (Thumb16 0)"
  by (simp_all add: instr_read_Inr_iff read_u16_def read_u32_def instr_align_def is_thumb32_def)

lemma slots_ok_None [simp]: "slots_ok orig (replicate n None)"
  by (induction n) simp_all

lemma overlay_None [simp]: "overlay orig (replicate n None) = orig"
  by (induction n) simp_all

lemma demo_table_ok: "slots_ok demo_mem (demo_slots e)" "all_wanted (demo_slots e)"
    "slots_state paused (demo_slots (\<not> paused))"
  by (simp_all add: demo_slots_def demo_bkpt_def backup_ok_def all_wanted_def slots_state_def list_all_iff)

lemma sw_inv_demo: "sw_inv demo_mem (demo_table p) (demo_machine (overlay demo_mem (demo_slots (\<not> p))))"
  using demo_table_ok [of "\<not> p"] demo_table_ok(3) [of p]
  by (simp add: sw_inv_def demo_table_def demo_machine_def) (simp add: demo_slots_def)

lemma sw_inv_armed: "sw_inv demo_mem (demo_table False) (demo_machine demo_armed)"
  using sw_inv_demo [of False] by (simp add: demo_armed_def)

lemma sw_inv_paused: "sw_inv demo_mem (demo_table True) (demo_machine demo_mem)"
proof -
  have "overlay demo_mem (demo_slots False) = demo_mem"
    by (simp add: demo_slots_def demo_bkpt_def)
  then show ?thesis using sw_inv_demo [of True] by simp
qed

lemma sw_ready_demo: "sw_ready demo_mem 0x03800010 True (demo_table p)"
  by (simp add: sw_ready_def demo_table_def demo_slots_def demo_bkpt_def apart_def list_all_iff)

lemma demo_machine_dview: "dview (demo_machine mem) = mem"
  by (simp add: demo_machine_def)

lemma demo_coherent: "coherent_at (demo_machine mem) x"
  by (simp add: coherent_at_def demo_machine_def)

section \<open>Pausing and unpausing\<close>

text \<open>
  Pausing the software breakpoints never panics and gives the program back byte for byte:
  whatever table of breakpoints is installed, after \<open>set_breakpoints_ignored(true)\<close> memory is
  the unpatched program, the table is still sound for it, and no fetch became stale.
\<close>
lemma pausing_restores_program:
  assumes "sw_inv orig t m"
  shows "\<exists>t' m'. set_breakpoints_ignored True t m = Inr (t', m') \<and> dview m' = orig \<and>
           sw_inv orig t' m' \<and> breaks_paused t' \<and> (\<forall>x. coherent_at m x \<longrightarrow> coherent_at m' x)"
proof (rule set_breakpoints_ignored_inv [OF assms, of True])
  fix m'
  let ?t' = "t\<lparr>breaks_paused := True, breaks := map (enable_slot (\<not> True)) (breaks t)\<rparr>"
  assume r: "set_breakpoints_ignored True t m = Inr (?t', m')" "sw_inv orig ?t' m'" "maintains m m'"
  have "slots_state True (breaks ?t')" using slots_state_enable [of True] by simp
  then have "dview m' = orig" using r(2) overlay_disabled unfolding sw_inv_def by metis
  then show ?thesis using r by (auto simp: maintains_def)
qed

lemma pausing_restores_program_witness:
  "\<exists>t' m'. set_breakpoints_ignored True (demo_table False) (demo_machine demo_armed) = Inr (t', m') \<and>
     dview m' = demo_mem"
  using pausing_restores_program [OF sw_inv_armed] by blast

lemma overlay_outside:
  "(\<And>b. Some b \<in> set slots \<Longrightarrow> \<not> in_range (instr_addr b) (instr_size (bkpt_for b)) x) \<Longrightarrow>
   overlay orig slots x = orig x"
  by (induction orig slots rule: overlay.induct) (auto simp: store_out)

lemma overlay_armed:
  assumes "slots_ok orig slots" and "Some b \<in> set slots" and "sw_enabled b"
  shows "load (overlay orig slots) (instr_addr b) (instr_size (bkpt_for b)) = instr_bytes (bkpt_for b)"
  using assms
proof (induction orig slots rule: overlay.induct)
  case (3 orig c slots)
  show ?case
  proof (cases "b = c")
    case True
    then show ?thesis using 3(5) load_store_same [of "instr_bytes (bkpt_for c)"] by simp
  next
    case False
    then have b: "Some b \<in> set slots" using 3 by simp
    have "apart (instr_addr b) (instr_size (instr_backup b)) (instr_addr c) (instr_size (instr_backup c))"
      using 3 b by (fastforce simp: list_all_iff)
    then have "apart (instr_addr b) (instr_size (bkpt_for b)) (instr_addr c) (instr_size (bkpt_for c))"
      by (rule apart_mono) (rule bkpt_for_le)+
    then show ?thesis using 3 b by (simp add: load_store_apart)
  qed
qed auto

lemma slots_stateD: "slots_state p slots \<Longrightarrow> Some b \<in> set slots \<Longrightarrow> sw_enabled b = (\<not> p)"
  by (auto simp: slots_state_def list_all_iff)

text \<open>
  C21: Unpausing arms every breakpoint for the processor's fetches: after
  \<open>set_breakpoints_ignored(false)\<close> on a coherent machine the instruction cache holds the
  \<open>bkpt\<close> encoding at every registered address, and the program everywhere else.
\<close>
theorem unpausing_arms_fetches:
  assumes "sw_inv orig t m" and "\<And>x. coherent_at m x"
  shows "\<exists>t' m'. set_breakpoints_ignored False t m = Inr (t', m') \<and> sw_inv orig t' m' \<and>
           map (map_option instr_addr) (breaks t') = map (map_option instr_addr) (breaks t) \<and>
           (\<forall>b. Some b \<in> set (breaks t') \<longrightarrow>
              load (iview m') (instr_addr b) (instr_size (bkpt_for b)) = instr_bytes (bkpt_for b)) \<and>
           (\<forall>x. (\<forall>b. Some b \<in> set (breaks t') \<longrightarrow> \<not> in_range (instr_addr b) (instr_size (bkpt_for b)) x) \<longrightarrow>
              iview m' x = orig x)"
proof (rule set_breakpoints_ignored_inv [OF assms(1), of False])
  fix m'
  let ?t' = "t\<lparr>breaks_paused := False, breaks := map (enable_slot (\<not> False)) (breaks t)\<rparr>"
  assume r: "set_breakpoints_ignored False t m = Inr (?t', m')" "sw_inv orig ?t' m'" "maintains m m'"
  have i: "iview m' = overlay orig (breaks ?t')"
    using r(2,3) assms(2) by (auto simp: sw_inv_def maintains_def coherent_at_def)
  have "map_option instr_addr (enable_slot e s) = map_option instr_addr s" for e s
    by (cases s) (simp_all add: enable_slot_def)
  then have a: "map (map_option instr_addr) (breaks ?t') = map (map_option instr_addr) (breaks t)"
    by simp
  have en: "sw_enabled b" if "Some b \<in> set (breaks ?t')" for b
    using slots_stateD [of False _ b] slots_state_enable [of False "breaks t"] that by auto
  have "slots_ok orig (breaks ?t')" using r(2) by (simp add: sw_inv_def)
  then have "load (iview m') (instr_addr b) (instr_size (bkpt_for b)) = instr_bytes (bkpt_for b)"
    if "Some b \<in> set (breaks ?t')" for b
    unfolding i using that en [OF that] by (rule overlay_armed)
  moreover have "iview m' x = orig x"
    if "\<forall>b. Some b \<in> set (breaks ?t') \<longrightarrow> \<not> in_range (instr_addr b) (instr_size (bkpt_for b)) x" for x
    unfolding i by (rule overlay_outside) (use that in blast)
  ultimately show ?thesis using r a by blast
qed

theorem unpausing_arms_fetches_witness:
  "\<exists>t' m'. set_breakpoints_ignored False (demo_table True) (demo_machine demo_mem) = Inr (t', m') \<and>
     sw_inv demo_mem t' m'"
  using unpausing_arms_fetches [OF sw_inv_paused demo_coherent] by blast

lemma register_result_keys:
  assumes "sw_inv orig t m"
  shows "register_result addr internal (breaks t) =
           (if (addr, internal) \<in> slot_keys (breaks t) then Inl AlreadyExists
            else if (addr, \<not> internal) \<notin> slot_keys (breaks t) \<and> None \<notin> set (breaks t) then Inl NoSpace
            else Inr ())"
proof (cases "find_index (slot_at addr) (breaks t)")
  case None
  then have "(addr, i) \<notin> slot_keys (breaks t)" for i by (rule no_slot_no_key)
  moreover have "find_index (\<lambda>s. s = None) (breaks t) = None \<longleftrightarrow> None \<notin> set (breaks t)"
    by (auto simp: find_index_None_iff) (metis not_None_eq)
  ultimately show ?thesis using None by (simp add: register_result_def)
next
  case (Some j)
  then obtain b where b: "j < length (breaks t)" "breaks t ! j = Some b" "instr_addr b = addr"
    by (rule find_slot_Some)
  have mem: "Some b \<in> set (breaks t)" using b(1,2) nth_mem [OF b(1)] by simp
  have own: "(addr, i) \<in> slot_keys (breaks t) \<longleftrightarrow> sw_holds i (sw_reason b)" for i
    using slot_keys_same_addr [OF _ b(1,2)] assms b(3) by (auto simp: sw_inv_def)
  have "\<exists>i. sw_holds i (sw_reason b)"
    using assms mem not_unwanted_holds by (auto simp: sw_inv_def all_wanted_def list_all_iff)
  then have "sw_holds internal (sw_reason b) \<or> sw_holds (\<not> internal) (sw_reason b)"
    by (cases internal) (auto simp: ex_bool_eq)
  then show ?thesis using Some b(2) own by (auto simp: register_result_def)
qed

lemma remove_slot_other:
  "\<not> slot_at addr s \<Longrightarrow> (case s of None \<Rightarrow> True | Some b \<Rightarrow> \<not> unwanted (sw_reason b)) \<Longrightarrow> remove_slot addr internal s = s"
  by (cases s) (auto simp: remove_slot_def)

lemma remove_slots_fresh:
  assumes "i < length slots" and "slots ! i = None" and "find_index (slot_at addr) slots = None"
    and "all_wanted slots"
  shows "map (remove_slot addr internal) (slots[i := Some (fresh_bkpt addr internal e ins)]) = slots"
    and "frees addr internal (slots[i := Some (fresh_bkpt addr internal e ins)])"
proof -
  have fresh: "remove_slot addr internal (Some (fresh_bkpt addr internal e ins)) = None"
    by (simp add: remove_slot_def drop_reason_def reason_new_def unwanted_def)
  have "map (remove_slot addr internal) slots = slots"
    using assms(3,4) by (intro map_idI remove_slot_other) (auto simp: find_index_None_iff all_wanted_def list_all_iff)
  then show "map (remove_slot addr internal) (slots[i := Some (fresh_bkpt addr internal e ins)]) = slots"
    using fresh assms(2) by (simp add: map_update) (metis list_update_id)
  show "frees addr internal (slots[i := Some (fresh_bkpt addr internal e ins)])"
    using fresh assms(1) by (auto simp: frees_def list_ex_iff set_update_memI intro!: bexI)
qed

section \<open>Registering and removing\<close>



text \<open>
  C23: A breakpoint that is set and then deleted leaves no trace: the debugger's table and every
  byte of memory are what they were before, and no fetch became stale, whether the program was
  paused or running with its breakpoints armed.
\<close>
theorem register_then_remove:
  assumes "sw_inv orig t m" and "sw_ready orig addr thumb t"
    and "find_index (slot_at addr) (breaks t) = None" and "None \<in> set (breaks t)"
  shows "\<exists>t' m' m''. register_sw_breakpoint addr thumb internal t m = Inr (Inr (), t', m') \<and>
           remove_sw_breakpoint addr internal t' m' = Inr (True, t, m'') \<and> dview m'' = dview m \<and>
           (\<forall>x. coherent_at m x \<longrightarrow> coherent_at m'' x)"
proof -
  obtain i where i: "find_index (\<lambda>s. s = None) (breaks t) = Some i"
    using assms(4) by (cases "find_index (\<lambda>s. s = None) (breaks t)") (auto simp: find_index_None_iff)
  obtain ins m' t' where r: "t' = t\<lparr>breaks := (breaks t)[i := Some (fresh_bkpt addr internal (\<not> breaks_paused t) ins)]\<rparr>"
    "register_sw_breakpoint addr thumb internal t m = Inr (Inr (), t', m')"
    "i < length (breaks t)" "breaks t ! i = None" "sw_inv orig t' m'" "maintains m m'"
    by (rule register_fresh [OF assms(1-3) i, of internal]) blast
  have w: "all_wanted (breaks t)" using assms(1) by (simp add: sw_inv_def)
  note gone = remove_slots_fresh [OF r(3,4) assms(3) w, of internal "\<not> breaks_paused t" ins]
  obtain m'' where d:
    "remove_sw_breakpoint addr internal t' m' =
       Inr (frees addr internal (breaks t'), t'\<lparr>breaks := map (remove_slot addr internal) (breaks t')\<rparr>, m'')"
    "sw_inv orig (t'\<lparr>breaks := map (remove_slot addr internal) (breaks t')\<rparr>) m''" "maintains m' m''"
    by (rule remove_sw_breakpoint_inv [OF r(5), of addr internal])
  have t: "t'\<lparr>breaks := map (remove_slot addr internal) (breaks t')\<rparr> = t"
    using gone(1) by (simp add: r(1))
  have "remove_sw_breakpoint addr internal t' m' = Inr (True, t, m'')"
    using d(1) gone(2) by (simp add: t) (simp add: r(1))
  moreover have "dview m'' = dview m" using d(2) assms(1) by (simp add: t sw_inv_def)
  moreover have "\<forall>x. coherent_at m x \<longrightarrow> coherent_at m'' x"
    using maintains_trans [OF r(6) d(3)] by (simp add: maintains_def)
  ultimately show ?thesis using r(2) by blast
qed

theorem register_then_remove_witness:
  "\<exists>t' m' m''. register_sw_breakpoint 0x03800010 True False (demo_table False) (demo_machine demo_armed) = Inr (Inr (), t', m') \<and>
     remove_sw_breakpoint 0x03800010 False t' m' = Inr (True, demo_table False, m'') \<and> dview m'' = demo_armed"
proof -
  have "find_index (slot_at 0x03800010) (breaks (demo_table False)) = None" "None \<in> set (breaks (demo_table False))"
    by (auto simp: find_index_None_iff demo_table_def demo_slots_def demo_bkpt_def)
  then show ?thesis
    using register_then_remove [OF sw_inv_armed sw_ready_demo, of False]
    by (simp only: demo_machine_dview) blast
qed

section \<open>Two owners, and addresses no breakpoint can have\<close>

lemma slots_ok_distinct:
  assumes "slots_ok orig slots" and "i < length slots" and "slots ! i = Some b"
    and "k < length slots" and "slots ! k = Some c" and "i \<noteq> k"
  shows "instr_addr b \<noteq> instr_addr c"
  using assms
proof (induction orig slots arbitrary: i k rule: slots_ok.induct)
  case (3 orig d slots)
  have clear: "instr_addr d \<noteq> instr_addr e" if "Some e \<in> set slots" for e
  proof
    assume eq: "instr_addr d = instr_addr e"
    have "slot_clear (instr_addr d) (instr_size (instr_backup d)) (Some e)"
      using 3(2) that by (auto simp: list_all_iff)
    then show False using eq by (simp add: apart_def)
  qed
  show ?case
  proof (cases i; cases k)
    fix i' k' assume "i = Suc i'" "k = Suc k'"
    then show ?thesis using 3 by auto
  qed (use 3(3-7) clear in \<open>auto simp: in_set_conv_nth dest: sym\<close>)
qed (auto simp: nth_Cons split: nat.splits)

lemma dropped_reason: "\<not> sw_holds internal (sw_reason (drop_reason internal b))"
  by (simp add: drop_reason_def sw_holds_def)

lemma remove_slot_shared:
  assumes "slots_ok orig slots" and "all_wanted slots" and "j < length slots" and "slots ! j = Some b"
    and "instr_addr b = addr" and "sw_holds (\<not> internal) (sw_reason b)"
  shows "map (remove_slot addr internal) slots = slots[j := Some (drop_reason internal b)]"
    and "\<not> frees addr internal slots"
proof -
  have keep: "remove_slot addr internal (Some b) = Some (drop_reason internal b)"
    using assms(5,6) by (cases internal) (auto simp: remove_slot_def drop_reason_def unwanted_def sw_holds_def)
  have rest: "remove_slot addr internal (slots ! k) = slots ! k" if "k < length slots" "k \<noteq> j" for k
  proof (rule remove_slot_other)
    show "\<not> slot_at addr (slots ! k)"
      using slots_ok_distinct [OF assms(1,3,4) that(1) _ that(2) [symmetric]] assms(5)
      by (cases "slots ! k") auto
    show "case slots ! k of None \<Rightarrow> True | Some b \<Rightarrow> \<not> unwanted (sw_reason b)"
      using assms(2) that(1) by (auto simp: all_wanted_def list_all_length)
  qed
  show "map (remove_slot addr internal) slots = slots[j := Some (drop_reason internal b)]"
  proof (rule nth_equalityI)
    fix k assume "k < length (map (remove_slot addr internal) slots)"
    then show "map (remove_slot addr internal) slots ! k = slots[j := Some (drop_reason internal b)] ! k"
      using keep rest [of k] assms(4) by (cases "k = j") (simp_all add: nth_list_update)
  qed simp
  have "remove_slot addr internal (slots ! k) \<noteq> None \<or> slots ! k = None" if "k < length slots" for k
    using keep rest [OF that] assms(4) by (cases "k = j") auto
  then show "\<not> frees addr internal slots"
    unfolding frees_def by (auto simp: list_ex_length)
qed

text \<open>
  Deleting one owner's breakpoint leaves the other owner's in place: with both the user and
  the debugger at an address, \<open>remove_sw_breakpoint\<close> for one of them keeps the patched
  instruction, memory and the other claim, and answers \<open>false\<close>: the table changed, no
  breakpoint was freed.
\<close>
lemma removing_one_owner_keeps_breakpoint:
  assumes "sw_inv orig t m" and "(addr, internal) \<in> slot_keys (breaks t)"
    and "(addr, \<not> internal) \<in> slot_keys (breaks t)"
  shows "\<exists>t' m'. remove_sw_breakpoint addr internal t m = Inr (False, t', m') \<and> sw_inv orig t' m' \<and>
           dview m' = dview m \<and> slot_keys (breaks t') = slot_keys (breaks t) - {(addr, internal)} \<and>
           query_sw_breakpoint addr t' = query_sw_breakpoint addr t \<and> breaks t' \<noteq> breaks t"
proof -
  have ok: "slots_ok orig (breaks t)" "all_wanted (breaks t)" "dview m = overlay orig (breaks t)"
    using assms(1) by (simp_all add: sw_inv_def)
  obtain b where b: "Some b \<in> set (breaks t)" "instr_addr b = addr" "sw_holds internal (sw_reason b)"
    using assms(2) by (auto simp: slot_keys_def)
  obtain j where j: "j < length (breaks t)" "breaks t ! j = Some b" using b(1) by (auto simp: in_set_conv_nth)
  have other: "sw_holds (\<not> internal) (sw_reason b)"
    using slot_keys_same_addr [OF ok(1) j] assms(3) b(2) by blast
  note shared = remove_slot_shared [OF ok(1,2) j b(2) other]
  obtain m' where r:
    "remove_sw_breakpoint addr internal t m =
       Inr (frees addr internal (breaks t), t\<lparr>breaks := map (remove_slot addr internal) (breaks t)\<rparr>, m')"
    "sw_inv orig (t\<lparr>breaks := map (remove_slot addr internal) (breaks t)\<rparr>) m'" "maintains m m'"
    by (rule remove_sw_breakpoint_inv [OF assms(1), of addr internal])
  have same: "map (\<lambda>s. slot_at addr s) (map (remove_slot addr internal) (breaks t)) = map (slot_at addr) (breaks t)"
    unfolding shared(1) using j b(2) by (auto simp: map_update list_update_same_conv)
  have "dview m' = dview m"
    using r(2) ok(3) overlay_reason [OF j] by (simp add: sw_inv_def shared(1) drop_reason_def)
  moreover have "drop_reason internal b \<noteq> b"
    using b(3) dropped_reason [of internal b] by metis
  then have "map (remove_slot addr internal) (breaks t) \<noteq> breaks t"
    unfolding shared(1) using j by (auto simp: list_update_same_conv)
  moreover have "find_index (slot_at addr) (map (remove_slot addr internal) (breaks t)) = find_index (slot_at addr) (breaks t)"
    by (rule find_index_map_cong) (simp only: same)
  ultimately show ?thesis
    using r(1,2) shared(2) slot_keys_remove [of addr internal]
    by (intro exI [of _ "t\<lparr>breaks := map (remove_slot addr internal) (breaks t)\<rparr>"] exI [of _ m'] conjI)
      (simp_all add: query_sw_breakpoint_def)
qed

lemma removing_one_owner_keeps_breakpoint_witness:
  "\<exists>t' m' t'' m''. register_sw_breakpoint 0x03800000 False True (demo_table False) (demo_machine demo_armed) = Inr (Inr (), t', m') \<and>
     remove_sw_breakpoint 0x03800000 False t' m' = Inr (False, t'', m'') \<and> dview m'' = demo_armed"
proof -
  let ?t = "demo_table False\<lparr>breaks := Some ((demo_bkpt True)\<lparr>sw_reason := \<lparr>br_user = True, br_internal = True\<rparr>\<rparr>) # replicate 15 None\<rparr>"
  have reg: "register_sw_breakpoint 0x03800000 False True (demo_table False) (demo_machine demo_armed) =
      Inr (Inr (), ?t, demo_machine demo_armed)"
    by (simp add: register_sw_breakpoint_def demo_table_def demo_slots_def demo_bkpt_def reason_new_def)
  have "sw_ready demo_mem 0x03800000 False (demo_table False)"
    by (simp add: sw_ready_def demo_table_def demo_slots_def demo_bkpt_def list_all_iff)
  then have inv: "sw_inv demo_mem ?t (demo_machine demo_armed)"
    by (rule register_sw_breakpoint_total [OF sw_inv_armed, of _ _ True]) (use reg in auto)
  have "(0x03800000, i) \<in> slot_keys (breaks ?t)" for i
    by (auto simp: sw_holds_def demo_bkpt_def)
  then show ?thesis
    using removing_one_owner_keeps_breakpoint [OF inv, where addr = "0x03800000" and internal = False] reg demo_machine_dview by auto
qed

text \<open>
  A \<open>Z0\<close> packet whose address is not aligned for its kind panics the debugger: the read of
  the hidden instruction asserts the alignment, so the request never reaches the
  \<open>NotAlignedCorrectly\<close> or \<open>false\<close> answer that a refused breakpoint gets.
\<close>
lemma misaligned_request_panics:
  assumes "length (breaks t) = 16" and "0x03000000 \<le> addr" and "None \<in> set (breaks t)"
    and "query_sw_breakpoint addr t = None" and "unat addr mod (if kind = KArm32 then 4 else 2) \<noteq> 0"
  shows "\<exists>site. gdb_add_sw_breakpoint addr kind t m = panic site"
proof -
  obtain i where i: "find_index (\<lambda>s. s = None) (breaks t) = Some i"
    using assms(3) by (cases "find_index (\<lambda>s. s = None) (breaks t)") (auto simp: find_index_None_iff)
  have scan: "scan_slots addr 0 None (breaks t) = Free (Some i)"
    using i assms(4) by (simp add: scan_slots_eq query_sw_breakpoint_def)
  have "\<exists>site. instr_read (dview m) addr (kind \<noteq> KArm32) = panic site"
    using assms(5) by (auto simp: instr_read_def assert_that_def)
  then show ?thesis
    using scan assms(2) by (auto simp: gdb_add_sw_breakpoint_def register_sw_breakpoint_def sw_new_def not_less)
qed

lemma misaligned_request_panics_witness:
  "\<exists>site. gdb_add_sw_breakpoint 0x03800002 KArm32 (demo_table False) (demo_machine demo_armed) = panic site"
proof -
  have "query_sw_breakpoint 0x03800002 (demo_table False) = None"
    by (auto simp: query_sw_breakpoint_def find_index_None_iff demo_table_def demo_slots_def demo_bkpt_def)
  then show ?thesis
    using misaligned_request_panics [where t = "demo_table False" and addr = "0x03800002" and kind = KArm32]
    by (simp add: demo_table_def demo_slots_def)
qed

end
