(* ===== verification/Cpu_Debug.thy ===== *)
theory Cpu_Debug
  imports Prelude
begin

text \<open>
  \<open>src/src/cpu/debug.rs\<close>: the debug registers of the processor. Each \<open>bitfield\<close> of the source
  is a 32-bit word read and written through the bit ranges it declares; each non-exhaustive
  \<open>bitenum\<close> is a datatype with a partial decoder. \<open>debug_logic\<close> is the part of the memory
  mapped register block that the debugger uses, behind its software lock.
\<close>

section \<open>Register numbers\<close>

definition get_cp14_encoding :: "u32 \<Rightarrow> u32 \<times> u32 \<times> u32" where
  "get_cp14_encoding regnum =
     (drop_bit 7 regnum AND 7, regnum AND 15, drop_bit 4 regnum AND 7)"

definition DBGDIDR :: u32 where "DBGDIDR = 0"
definition DBGDSCRint :: u32 where "DBGDSCRint = 1"
definition DBGDSCRext :: u32 where "DBGDSCRext = 34"
definition DBGDRAR :: u32 where "DBGDRAR = 128"
definition DBGDSAR :: u32 where "DBGDSAR = 256"

section \<open>Identification and status\<close>

datatype debug_version = V6 | V6_1 | V7Full | V7Minimal | V7_1

definition debug_version_of :: "u32 \<Rightarrow> debug_version option" where
  "debug_version_of v =
     (if v = 1 then Some V6 else if v = 2 then Some V6_1 else if v = 3 then Some V7Full
      else if v = 4 then Some V7Minimal else if v = 5 then Some V7_1 else None)"

definition wrps :: "u32 \<Rightarrow> u32" where "wrps r = field 28 4 r"
definition brps :: "u32 \<Rightarrow> u32" where "brps r = field 24 4 r"
definition debug_id_version :: "u32 \<Rightarrow> debug_version option" where
  "debug_id_version r = debug_version_of (field 16 4 r)"

datatype debug_event_reason =
    HaltReq | Breakpoint | AsyncWatchpoint | BkptInstr | ExtDebugReq | VectorCatch | OSUnlock | SyncWatchpoint

definition debug_event_reason_of :: "u32 \<Rightarrow> debug_event_reason option" where
  "debug_event_reason_of v =
     (if v = 0 then Some HaltReq else if v = 1 then Some Breakpoint
      else if v = 2 then Some AsyncWatchpoint else if v = 3 then Some BkptInstr
      else if v = 4 then Some ExtDebugReq else if v = 5 then Some VectorCatch
      else if v = 8 then Some OSUnlock else if v = 10 then Some SyncWatchpoint else None)"

definition secure_pl1_invasive_debug_disabled :: "u32 \<Rightarrow> bool" where
  "secure_pl1_invasive_debug_disabled r = bit r 16"
definition monitor_debug_mode :: "u32 \<Rightarrow> bool" where
  "monitor_debug_mode r = bit r 15"
definition with_monitor_debug_mode :: "bool \<Rightarrow> u32 \<Rightarrow> u32" where
  "with_monitor_debug_mode b r = with_bit 15 b r"
definition halting_debug_mode :: "u32 \<Rightarrow> bool" where
  "halting_debug_mode r = bit r 14"
definition with_halting_debug_mode :: "bool \<Rightarrow> u32 \<Rightarrow> u32" where
  "with_halting_debug_mode b r = with_bit 14 b r"
definition method_of_entry :: "u32 \<Rightarrow> debug_event_reason option" where
  "method_of_entry r = debug_event_reason_of (field 2 4 r)"

section \<open>Where the registers are mapped\<close>

datatype debug_valid = Invalid | Valid

definition debug_valid_of :: "u32 \<Rightarrow> debug_valid option" where
  "debug_valid_of v = (if v = 0 then Some Invalid else if v = 3 then Some Valid else None)"

definition rom_address_valid :: "u32 \<Rightarrow> debug_valid option" where
  "rom_address_valid r = debug_valid_of (field 0 2 r)"

definition rom_address_value :: "u32 \<Rightarrow> u32" where
  "rom_address_value r = push_bit 12 (field 12 20 r)"

definition self_address_valid :: "u32 \<Rightarrow> debug_valid option" where
  "self_address_valid r = debug_valid_of (field 0 2 r)"

definition self_address_value :: "u32 \<Rightarrow> u32" where
  "self_address_value r = push_bit 12 (field 12 20 r)"

definition with_secure_user_invasive_debug :: "bool \<Rightarrow> u32 \<Rightarrow> u32" where
  "with_secure_user_invasive_debug b r = with_bit 0 b r"

section \<open>Breakpoint and watchpoint control\<close>

datatype breakpoint_type =
    UnlinkedInstrAddressMatch | LinkedInstrAddressMatch | UnlinkedContextIDMatch
  | LinkedContextIDMatch | UnlinkedInstrAddressMismatch | LinkedInstrAddressMismatch

fun breakpoint_type_raw :: "breakpoint_type \<Rightarrow> u32" where
  "breakpoint_type_raw UnlinkedInstrAddressMatch = 0"
| "breakpoint_type_raw LinkedInstrAddressMatch = 1"
| "breakpoint_type_raw UnlinkedContextIDMatch = 2"
| "breakpoint_type_raw LinkedContextIDMatch = 3"
| "breakpoint_type_raw UnlinkedInstrAddressMismatch = 4"
| "breakpoint_type_raw LinkedInstrAddressMismatch = 5"

definition breakpoint_type_of :: "u32 \<Rightarrow> breakpoint_type option" where
  "breakpoint_type_of v =
     (if v = 0 then Some UnlinkedInstrAddressMatch else if v = 1 then Some LinkedInstrAddressMatch
      else if v = 2 then Some UnlinkedContextIDMatch else if v = 3 then Some LinkedContextIDMatch
      else if v = 4 then Some UnlinkedInstrAddressMismatch
      else if v = 5 then Some LinkedInstrAddressMismatch else None)"

datatype security_filter = SecAll | NotSecureOnly | SecureOnly

fun security_filter_raw :: "security_filter \<Rightarrow> u32" where
  "security_filter_raw SecAll = 0"
| "security_filter_raw NotSecureOnly = 1"
| "security_filter_raw SecureOnly = 2"

datatype privilege_mode_filter = UserSystemSupervisorOnly | Level1Only | UserOnly | PrivAll

fun privilege_mode_raw :: "privilege_mode_filter \<Rightarrow> u32" where
  "privilege_mode_raw UserSystemSupervisorOnly = 0"
| "privilege_mode_raw Level1Only = 1"
| "privilege_mode_raw UserOnly = 2"
| "privilege_mode_raw PrivAll = 3"

text \<open>\<open>BreakpointControl\<close>\<close>

definition with_address_range_mask :: "u32 \<Rightarrow> u32 \<Rightarrow> u32" where
  "with_address_range_mask v r = with_field 24 5 v r"
definition bc_type :: "u32 \<Rightarrow> breakpoint_type option" where
  "bc_type r = breakpoint_type_of (field 20 4 r)"
definition with_breakpoint_type :: "breakpoint_type \<Rightarrow> u32 \<Rightarrow> u32" where
  "with_breakpoint_type v r = with_field 20 4 (breakpoint_type_raw v) r"
definition with_linked_breakpoint_index :: "u32 \<Rightarrow> u32 \<Rightarrow> u32" where
  "with_linked_breakpoint_index v r = with_field 16 4 v r"
definition with_security_state_ctrl :: "security_filter \<Rightarrow> u32 \<Rightarrow> u32" where
  "with_security_state_ctrl v r = with_field 14 2 (security_filter_raw v) r"
definition byte_address_select :: "u32 \<Rightarrow> u32" where
  "byte_address_select r = field 5 4 r"
definition with_byte_address_select :: "u32 \<Rightarrow> u32 \<Rightarrow> u32" where
  "with_byte_address_select v r = with_field 5 4 v r"
definition with_privileged_mode_ctrl :: "privilege_mode_filter \<Rightarrow> u32 \<Rightarrow> u32" where
  "with_privileged_mode_ctrl v r = with_field 1 2 (privilege_mode_raw v) r"
definition bc_enabled :: "u32 \<Rightarrow> bool" where
  "bc_enabled r = bit r 0"
definition with_enabled :: "bool \<Rightarrow> u32 \<Rightarrow> u32" where
  "with_enabled b r = with_bit 0 b r"

definition bc_DISABLED :: u32 where
  "bc_DISABLED = with_enabled False 0"

definition wc_DISABLED :: u32 where
  "wc_DISABLED = with_enabled False 0"

section \<open>The memory mapped block\<close>

text \<open>
  \<open>struct DebugLogic\<close> as \<open>repr(C)\<close> lays it out: its fields in order, each with its length in
  32-bit words.
\<close>

definition debug_logic_fields :: "(string \<times> nat) list" where
  "debug_logic_fields =
     [(''id'', 1), (''_status_control_int'', 1), (''_reserved0'', 3), (''_data_transfer_int'', 1),
      (''_watchpoint_fault_addr'', 1), (''vector_catch'', 1), (''_reserved1'', 1), (''event_catch'', 1),
      (''debug_cache_ctrl'', 1), (''debug_mmu_ctrl'', 1), (''_reserved2'', 20),
      (''host_to_target_data_transfer_ext'', 1), (''instr_tx'', 1), (''status_control_ext'', 1),
      (''target_to_host_data_transfer_ext'', 1), (''run_ctrl'', 1), (''ext_auxiliary_ctrl'', 1),
      (''_reserved3'', 2), (''pc_sample'', 1), (''context_id_sample'', 1), (''_virt_id_sample'', 1),
      (''_reserved4'', 21), (''breakpoint_value'', 16), (''breakpoint_ctrl'', 16),
      (''watchpoint_value'', 16), (''watchpoint_ctrl'', 16), (''_debug_rom_addr'', 1),
      (''_reserved5'', 15), (''_breakpoint_extd_value'', 16), (''_reserved6'', 32),
      (''_os_lock_access'', 1), (''os_lock_status'', 1), (''_os_save_restore'', 1),
      (''_os_double_lock'', 1), (''powerdown_reset_ctrl'', 1), (''powerdown_reset_status'', 1),
      (''_reserved7'', 58), (''_debug_self_addr_offset'', 1), (''_reserved8'', 255),
      (''_impl_defined0'', 64), (''_reserved9'', 256), (''processor_id'', 64), (''_reserved10'', 32),
      (''_integration'', 32), (''_integration_mode_ctrl'', 1), (''_reserved11'', 39),
      (''claim_tag_set'', 1), (''claim_tag_clear'', 1), (''_reserved12'', 2), (''lock_access'', 1),
      (''lock_status'', 1), (''authentication_status'', 1), (''_reserved13'', 1),
      (''_debug_device_id_2'', 1), (''_debug_device_id_1'', 1), (''device_type'', 1),
      (''peripheral_id_4'', 1), (''peripheral_ids'', 4), (''component_ids'', 4)]"

fun word_offset :: "string \<Rightarrow> (string \<times> nat) list \<Rightarrow> nat option" where
  "word_offset name [] = None"
| "word_offset name ((f, n) # fs) =
     (if f = name then Some 0 else map_option ((+) n) (word_offset name fs))"

definition DEBUG_UNLOCK_MAGIC :: u32 where
  "DEBUG_UNLOCK_MAGIC = 0xC5ACCE55"

record debug_logic =
  status_control_ext :: u32
  breakpoint_value :: "u32 list"
  breakpoint_ctrl :: "u32 list"
  watchpoint_value :: "u32 list"
  watchpoint_ctrl :: "u32 list"
  lock_status :: u32

definition software_lock_status :: "u32 \<Rightarrow> bool" where
  "software_lock_status r = bit r 1"

text \<open>The lock ignores every register write but the one that can open it.\<close>

definition when_unlocked :: "(debug_logic \<Rightarrow> debug_logic) \<Rightarrow> debug_logic \<Rightarrow> debug_logic" where
  "when_unlocked f d = (if software_lock_status (lock_status d) then d else f d)"

definition write_lock_access :: "u32 \<Rightarrow> debug_logic \<Rightarrow> debug_logic" where
  "write_lock_access v d =
     d\<lparr>lock_status := with_bit 1 (v \<noteq> DEBUG_UNLOCK_MAGIC) (lock_status d)\<rparr>"

definition modify_status_control_ext :: "(u32 \<Rightarrow> u32) \<Rightarrow> debug_logic \<Rightarrow> debug_logic" where
  "modify_status_control_ext f = when_unlocked (\<lambda>d. d\<lparr>status_control_ext := f (status_control_ext d)\<rparr>)"

text \<open>The generated accessors of an array register answer an error for an index outside it.\<close>

definition read_breakpoint_value :: "nat \<Rightarrow> debug_logic \<Rightarrow> u32 option" where
  "read_breakpoint_value i d = (if i < 16 then Some (breakpoint_value d ! i) else None)"

definition read_breakpoint_ctrl :: "nat \<Rightarrow> debug_logic \<Rightarrow> u32 option" where
  "read_breakpoint_ctrl i d = (if i < 16 then Some (breakpoint_ctrl d ! i) else None)"

definition write_breakpoint_value :: "nat \<Rightarrow> u32 \<Rightarrow> debug_logic \<Rightarrow> debug_logic option" where
  "write_breakpoint_value i v d =
     (if i < 16 then Some (when_unlocked (\<lambda>d. d\<lparr>breakpoint_value := (breakpoint_value d)[i := v]\<rparr>) d) else None)"

definition write_breakpoint_ctrl :: "nat \<Rightarrow> u32 \<Rightarrow> debug_logic \<Rightarrow> debug_logic option" where
  "write_breakpoint_ctrl i v d =
     (if i < 16 then Some (when_unlocked (\<lambda>d. d\<lparr>breakpoint_ctrl := (breakpoint_ctrl d)[i := v]\<rparr>) d) else None)"

definition modify_breakpoint_ctrl :: "nat \<Rightarrow> (u32 \<Rightarrow> u32) \<Rightarrow> debug_logic \<Rightarrow> debug_logic option" where
  "modify_breakpoint_ctrl i f d =
     (case read_breakpoint_ctrl i d of None \<Rightarrow> None | Some v \<Rightarrow> write_breakpoint_ctrl i (f v) d)"

definition write_watchpoint_value :: "nat \<Rightarrow> u32 \<Rightarrow> debug_logic \<Rightarrow> debug_logic option" where
  "write_watchpoint_value i v d =
     (if i < 16 then Some (when_unlocked (\<lambda>d. d\<lparr>watchpoint_value := (watchpoint_value d)[i := v]\<rparr>) d) else None)"

definition write_watchpoint_ctrl :: "nat \<Rightarrow> u32 \<Rightarrow> debug_logic \<Rightarrow> debug_logic option" where
  "write_watchpoint_ctrl i v d =
     (if i < 16 then Some (when_unlocked (\<lambda>d. d\<lparr>watchpoint_ctrl := (watchpoint_ctrl d)[i := v]\<rparr>) d) else None)"

section \<open>Facts\<close>

lemma software_lock_write [simp]:
  "software_lock_status (lock_status (write_lock_access v d)) \<longleftrightarrow> v \<noteq> DEBUG_UNLOCK_MAGIC"
  by (simp add: write_lock_access_def software_lock_status_def)

lemma write_lock_access_regs [simp]:
  "breakpoint_value (write_lock_access v d) = breakpoint_value d"
  "breakpoint_ctrl (write_lock_access v d) = breakpoint_ctrl d"
  "watchpoint_value (write_lock_access v d) = watchpoint_value d"
  "watchpoint_ctrl (write_lock_access v d) = watchpoint_ctrl d"
  "status_control_ext (write_lock_access v d) = status_control_ext d"
  by (simp_all add: write_lock_access_def)

lemma breakpoint_type_round [simp]: "breakpoint_type_of (breakpoint_type_raw t) = Some t"
  by (cases t) (simp_all add: breakpoint_type_of_def)

lemma breakpoint_type_raw_mask [simp]: "breakpoint_type_raw t AND mask 4 = breakpoint_type_raw t"
  by (cases t) (simp_all add: mask_eq_exp_minus_1)

lemmas bc_defs =
  with_address_range_mask_def bc_type_def with_breakpoint_type_def with_linked_breakpoint_index_def
  with_security_state_ctrl_def byte_address_select_def with_byte_address_select_def
  with_privileged_mode_ctrl_def bc_enabled_def with_enabled_def

lemma bc_DISABLED_enabled [simp]: "\<not> bc_enabled bc_DISABLED"
  by (simp add: bc_DISABLED_def bc_defs)

lemma with_enabled_fields [simp]:
  "bc_enabled (with_enabled b r) = b"
  "bc_type (with_enabled b r) = bc_type r"
  "byte_address_select (with_enabled b r) = byte_address_select r"
  by (simp_all add: bc_defs field_with_bit_other)

section \<open>Properties\<close>

text \<open>
  The CP14 coordinates of a debug register determine it: for each of the 1024 register
  numbers, (CRn, CRm, opc2) fit their three, four and three bits and give the number back.
\<close>
lemma cp14_encoding_roundtrip:
  assumes "regnum < 1024" and "get_cp14_encoding regnum = (crn, crm, opc2)"
  shows "crn < 8 \<and> crm < 16 \<and> opc2 < 8 \<and> push_bit 7 crn OR push_bit 4 opc2 OR crm = regnum"
proof -
  have top: "\<not> bit regnum i" if "10 \<le> i" for i
  proof -
    have "regnum AND mask 10 = regnum" using assms(1) by (intro less_mask_eq) simp
    then have "bit regnum i \<longleftrightarrow> bit (regnum AND mask 10) i" by simp
    then show ?thesis using that by (simp add: bit_simps)
  qed
  have c: "crn = drop_bit 7 regnum AND mask 3" "crm = regnum AND mask 4" "opc2 = drop_bit 4 regnum AND mask 3"
    using assms(2) by (simp_all add: get_cp14_encoding_def mask_eq_exp_minus_1)
  have b: "w AND mask n < 2 ^ n" if "n < 32" for w :: u32 and n
    using that by (intro and_mask_less_size) (simp add: word_size)
  have "push_bit 7 crn OR push_bit 4 opc2 OR crm = regnum"
  proof (rule bit_word_eqI)
    fix i :: nat assume "i < LENGTH(32)"
    then show "bit (push_bit 7 crn OR push_bit 4 opc2 OR crm) i = bit regnum i"
      using top [of i] by (cases "7 \<le> i"; cases "10 \<le> i") (auto simp: c bit_simps)
  qed
  then show ?thesis using b [of 3 "drop_bit 7 regnum"] b [of 4 regnum] b [of 3 "drop_bit 4 regnum"] by (simp add: c)
qed

lemma cp14_encoding_roundtrip_witness:
  "get_cp14_encoding DBGDSCRext = (0, 2, 2) \<and> push_bit 7 0 OR push_bit 4 2 OR 2 = (34 :: u32)"
proof -
  have e: "get_cp14_encoding 34 = (0, 2, 2)" by (simp add: get_cp14_encoding_def drop_bit_eq_div)
  show ?thesis using cp14_encoding_roundtrip [OF _ e] e by (simp add: DBGDSCRext_def)
qed

text \<open>
  The memory mapped block puts each register the debugger uses where the architecture
  numbers it: the registers that also have a CP14 number lie at that word, the four comparator
  banks and the lock at their words; but the struct ends four words short of the 1024-word
  block, as its identification tail starts one word early and leaves registers out.
\<close>
lemma debug_logic_layout:
  "word_offset ''id'' debug_logic_fields = Some (unat DBGDIDR) \<and>
   word_offset ''_status_control_int'' debug_logic_fields = Some (unat DBGDSCRint) \<and>
   word_offset ''status_control_ext'' debug_logic_fields = Some (unat DBGDSCRext) \<and>
   word_offset ''_debug_rom_addr'' debug_logic_fields = Some (unat DBGDRAR) \<and>
   word_offset ''_debug_self_addr_offset'' debug_logic_fields = Some (unat DBGDSAR) \<and>
   word_offset ''breakpoint_value'' debug_logic_fields = Some 64 \<and>
   word_offset ''breakpoint_ctrl'' debug_logic_fields = Some 80 \<and>
   word_offset ''watchpoint_value'' debug_logic_fields = Some 96 \<and>
   word_offset ''watchpoint_ctrl'' debug_logic_fields = Some 112 \<and>
   word_offset ''lock_access'' debug_logic_fields = Some 1004 \<and>
   word_offset ''lock_status'' debug_logic_fields = Some 1005 \<and>
   word_offset ''device_type'' debug_logic_fields = Some 1010 \<and>
   sum_list (map snd debug_logic_fields) = 1020"
  by (intro conjI) code_simp+

end
