(* ===== verification/Cpu_Vmsa.thy ===== *)
theory Cpu_Vmsa
  imports Cpu_Cache
begin

text \<open>
  \<open>src/src/cpu/vmsa.rs\<close>: the translation table registers, the level-1 descriptors they lead to,
  and the domain override. The machine record extends the three memory views with the system
  registers the module reads and writes.
\<close>

record vmsa = caches +
  ttbcr :: u32
  ttbr0 :: u32
  ttbr1 :: u32
  dacr :: u32

section \<open>Translation table registers\<close>

definition tt1_walk_disable :: "u32 \<Rightarrow> bool" where "tt1_walk_disable r = bit r 5"
definition tt0_walk_disable :: "u32 \<Rightarrow> bool" where "tt0_walk_disable r = bit r 4"
definition tt0_boundary :: "u32 \<Rightarrow> nat" where "tt0_boundary r = unat (field 0 3 r)"

text \<open>\<open>u32::leading_zeros\<close>\<close>

definition leading_zeros :: "u32 \<Rightarrow> nat" where
  "leading_zeros w = length (takeWhile (\<lambda>i. \<not> bit w i) (rev [0..<32]))"

definition virtual_addr_uses_tt0 :: "u32 \<Rightarrow> u32 \<Rightarrow> bool" where
  "virtual_addr_uses_tt0 ctrl addr = (let n = tt0_boundary ctrl in n \<le> leading_zeros addr)"

definition upper_base_addr_mask :: u32 where
  "upper_base_addr_mask = NOT (mask 7)"

definition ttbr_base_ptr :: "u32 \<Rightarrow> nat \<Rightarrow> u32" where
  "ttbr_base_ptr raw boundary =
     (let last_addr_bit = 14 - boundary;
          m = push_bit last_addr_bit (- 1)
      in raw AND m AND upper_base_addr_mask)"

record translation_table =
  tt_boundary :: nat
  base_ptr :: u32
  num_entries :: nat

definition for_addr :: "u32 \<Rightarrow> 'm vmsa_scheme \<Rightarrow> translation_table" where
  "for_addr addr m =
     (let ctrl = ttbcr m;
          is_tt0 = virtual_addr_uses_tt0 ctrl addr;
          boundary = (if is_tt0 then tt0_boundary ctrl else 0);
          ttbr = (if is_tt0 then ttbr0 m else ttbr1 m);
          section_inner_bits = 20
      in \<lparr>tt_boundary = boundary, base_ptr = ttbr_base_ptr ttbr boundary,
          num_entries = 2 ^ (32 - section_inner_bits - boundary)\<rparr>)"

text \<open>The pointer to the descriptor; a descriptor is one word.\<close>

definition lookup_l1 :: "translation_table \<Rightarrow> u32 \<Rightarrow> u32 outcome" where
  "lookup_l1 tt addr =
     and_then (assert_that (tt_boundary tt \<le> leading_zeros addr) ''lookup_l1: boundary'') (\<lambda>_.
       let section_index = unat (drop_bit 20 addr) in
       and_then (assert_that (section_index < num_entries tt) ''lookup_l1: index'') (\<lambda>_.
         ok (base_ptr tt + of_nat (4 * section_index))))"

section \<open>Descriptors\<close>

datatype l1_descriptor_type = DescInvalid | PageTable | Section

definition l1_variant :: "u32 \<Rightarrow> l1_descriptor_type option" where
  "l1_variant d =
     (let v = field 0 2 d in
      if v = 0 then Some DescInvalid else if v = 1 then Some PageTable
      else if v = 2 then Some Section else None)"

definition as_section :: "u32 \<Rightarrow> u32 option" where
  "as_section d = (if l1_variant d = Some Section then Some d else None)"

datatype access_permissions =
    NoAccess | PL1AccessOnly | PL1AccessUserRead | AllAccess
  | ReadOnlyPL1AccessOnly | ReadOnlyPL1AccessUserRead | ReadOnlyAllAccess

text \<open>The field is split over bits 10, 11 and 15.\<close>

definition access_permissions_of :: "u32 \<Rightarrow> access_permissions option" where
  "access_permissions_of d =
     (let v = field 10 2 d OR push_bit 2 (field 15 1 d) in
      if v = 0 then Some NoAccess else if v = 1 then Some PL1AccessOnly
      else if v = 2 then Some PL1AccessUserRead else if v = 3 then Some AllAccess
      else if v = 5 then Some ReadOnlyPL1AccessOnly else if v = 6 then Some ReadOnlyPL1AccessUserRead
      else if v = 7 then Some ReadOnlyAllAccess else None)"

fun test_write :: "access_permissions \<Rightarrow> bool \<Rightarrow> bool" where
  "test_write AllAccess pl1 = True"
| "test_write PL1AccessOnly pl1 = pl1"
| "test_write PL1AccessUserRead pl1 = pl1"
| "test_write _ pl1 = False"

definition test_read :: "access_permissions \<Rightarrow> bool \<Rightarrow> bool" where
  "test_read p pl1 =
     (if test_write p pl1 then True
      else case p of
        ReadOnlyAllAccess \<Rightarrow> True
      | ReadOnlyPL1AccessUserRead \<Rightarrow> True
      | PL1AccessUserRead \<Rightarrow> True
      | ReadOnlyPL1AccessOnly \<Rightarrow> pl1
      | _ \<Rightarrow> False)"

text \<open>\<open>SectionDescriptor::mem_attrs\<close>; the two 2-bit cache policies stay raw.\<close>

datatype memory_region_attributes =
    StronglyOrdered | ShareableDevice | OuterAndInnerWriteThroughNoWriteAlloc
  | OuterAndInnerWriteBackNoWriteAlloc | OuterAndInnerNonCacheable
  | OuterAndInnerWriteBackWriteAlloc | NonShareableDevice
  | CacheableMemory u32 u32

definition mem_attrs :: "u32 \<Rightarrow> memory_region_attributes option" where
  "mem_attrs d =
     (let tex = field 12 3 d; c = bit d 3; b = bit d 2 in
      if tex = 0 \<and> \<not> c \<and> \<not> b then Some StronglyOrdered
      else if tex = 0 \<and> \<not> c \<and> b then Some ShareableDevice
      else if tex = 0 \<and> c \<and> \<not> b then Some OuterAndInnerWriteThroughNoWriteAlloc
      else if tex = 0 \<and> c \<and> b then Some OuterAndInnerWriteBackNoWriteAlloc
      else if tex = 1 \<and> \<not> c \<and> \<not> b then Some OuterAndInnerNonCacheable
      else if tex = 1 \<and> c \<and> b then Some OuterAndInnerWriteBackWriteAlloc
      else if tex = 2 \<and> \<not> c \<and> \<not> b then Some NonShareableDevice
      else if drop_bit 2 tex = 1 then
        let bb = tex AND 3; aa = (if c then 2 else 0) OR (if b then 1 else 0)
        in Some (CacheableMemory aa bb)
      else None)"

section \<open>Domain access\<close>

datatype domain_permission = NoPermission | Client | Manager

fun domain_permission_raw :: "domain_permission \<Rightarrow> u32" where
  "domain_permission_raw NoPermission = 0"
| "domain_permission_raw Client = 1"
| "domain_permission_raw Manager = 3"

text \<open>The loop of \<open>set_all\<close> runs over the even offsets below 32.\<close>

fun set_all_from :: "nat \<Rightarrow> nat \<Rightarrow> u32 \<Rightarrow> u32 \<Rightarrow> u32" where
  "set_all_from 0 offset bits acc = acc"
| "set_all_from (Suc n) offset bits acc = set_all_from n (offset + 2) bits (acc OR push_bit offset bits)"

definition set_all :: "domain_permission \<Rightarrow> u32" where
  "set_all permission = set_all_from 16 0 (domain_permission_raw permission) 0"

definition with_manager_domain_access ::
  "('m vmsa_scheme \<Rightarrow> ('r \<times> 'm vmsa_scheme) outcome) \<Rightarrow> 'm vmsa_scheme \<Rightarrow> ('r \<times> 'm vmsa_scheme) outcome" where
  "with_manager_domain_access inner m =
     (let domain_access = dacr m; m = m\<lparr>dacr := set_all Manager\<rparr> in
      and_then (inner m) (\<lambda>(res, m). ok (res, m\<lparr>dacr := domain_access\<rparr>)))"

section \<open>Facts\<close>

lemma takeWhile_length_ge:
  "n \<le> length xs \<Longrightarrow> n \<le> length (takeWhile P xs) \<longleftrightarrow> (\<forall>k < n. P (xs ! k))"
proof (induction xs arbitrary: n)
  case Nil
  then show ?case by simp
next
  case (Cons x xs)
  then show ?case by (cases n) (auto simp: All_less_Suc2)
qed

lemma leading_zeros_ge:
  assumes "n \<le> 32"
  shows "n \<le> leading_zeros w \<longleftrightarrow> (\<forall>i. 32 - n \<le> i \<longrightarrow> \<not> bit w i)"
proof -
  have "n \<le> leading_zeros w \<longleftrightarrow> (\<forall>k < n. \<not> bit w (31 - k))"
    using assms by (simp add: leading_zeros_def takeWhile_length_ge rev_nth)
  also have "\<dots> \<longleftrightarrow> (\<forall>i. 32 - n \<le> i \<longrightarrow> \<not> bit w i)"
  proof (intro iffI allI impI)
    fix i assume a: "\<forall>k < n. \<not> bit w (31 - k)" and i: "32 - n \<le> i"
    show "\<not> bit w i"
    proof (cases "i < 32")
      case True
      then have "31 - i < n" "31 - (31 - i) = i" using i assms by auto
      then show ?thesis using a by metis
    qed (auto dest: bit_imp_le_length)
  next
    fix k assume "\<forall>i. 32 - n \<le> i \<longrightarrow> \<not> bit w i" and "k < n"
    then show "\<not> bit w (31 - k)" using assms by auto
  qed
  finally show ?thesis .
qed

lemma tt0_boundary_less: "tt0_boundary r < 8"
  using field_less [of 3 0 r] by (simp add: tt0_boundary_def)

lemma high_zero_less:
  assumes "\<forall>i. k \<le> i \<longrightarrow> \<not> bit (w :: u32) i" and "k \<le> 32"
  shows "unat w < 2 ^ k"
proof -
  have "take_bit k w = w"
    by (rule bit_word_eqI) (use assms(1) not_le in \<open>auto simp: bit_take_bit_iff\<close>)
  then have "unat w = take_bit k (unat w)" by (metis unsigned_take_bit_eq)
  then show ?thesis using take_bit_nat_less_exp [of k "unat w"] by simp
qed

text \<open>The table chosen for an address can always be indexed with it.\<close>

lemma lookup_for_addr:
  "lookup_l1 (for_addr a m) a = Inr (base_ptr (for_addr a m) + of_nat (4 * unat (drop_bit 20 a)))"
proof -
  let ?b = "tt_boundary (for_addr a m)"
  have b: "?b < 8" "?b \<le> leading_zeros a"
    using tt0_boundary_less [of "ttbcr m"] by (auto simp: for_addr_def virtual_addr_uses_tt0_def Let_def)
  have "unat a < 2 ^ (32 - ?b)"
    using leading_zeros_ge [of ?b a] b by (intro high_zero_less) auto
  moreover have "(2::nat) ^ (32 - ?b) = 2 ^ 20 * 2 ^ (12 - ?b)"
  proof -
    have "32 - ?b = 20 + (12 - ?b)" using b(1) by simp
    then show ?thesis by (simp only: power_add)
  qed
  ultimately have "unat a div 2 ^ 20 < 2 ^ (12 - ?b)" by (simp add: div_less_iff_less_mult mult.commute)
  moreover have "num_entries (for_addr a m) = 2 ^ (12 - ?b)"
    by (simp add: for_addr_def Let_def)
  ultimately show ?thesis
    using b(2) by (simp add: lookup_l1_def drop_bit_eq_div unat_div Let_def)
qed

text \<open>All addresses of one section share their table and their descriptor.\<close>

lemma for_addr_section:
  assumes "drop_bit 20 a = drop_bit 20 b"
  shows "for_addr a m = for_addr b m"
proof -
  have "bit a i = bit b i" if "20 \<le> i" for i
  proof -
    have "bit (drop_bit 20 a) (i - 20) = bit (drop_bit 20 b) (i - 20)" using assms by simp
    then show ?thesis using that by (simp add: bit_drop_bit_eq)
  qed
  then have "n \<le> leading_zeros a \<longleftrightarrow> n \<le> leading_zeros b" if "n < 8" for n
    using that by (simp add: leading_zeros_ge)
  then show ?thesis
    using tt0_boundary_less by (simp add: for_addr_def virtual_addr_uses_tt0_def Let_def)
qed

lemma set_all_from_bit:
  "bit (set_all_from n offset bits acc) i \<longleftrightarrow>
     bit acc i \<or> (\<exists>k < n. i < 32 \<and> offset + 2 * k \<le> i \<and> bit bits (i - (offset + 2 * k)))"
proof (induction n arbitrary: offset acc)
  case 0
  then show ?case by simp
next
  case (Suc n)
  then show ?case
    by (auto simp: bit_simps Ex_less_Suc2 algebra_simps)
qed

lemma domain_permission_mask [simp]: "domain_permission_raw p AND mask 2 = domain_permission_raw p"
  by (cases p) (simp_all add: mask_eq_exp_minus_1)

lemma domain_permission_bits: "bit (domain_permission_raw p) i \<Longrightarrow> i < 2"
  by (metis domain_permission_mask bit_and_iff bit_mask_iff)

lemma set_all_field:
  assumes "i < 16"
  shows "field (2 * i) 2 (set_all p) = domain_permission_raw p"
proof (rule bit_word_eqI)
  fix j :: nat assume j: "j < LENGTH(32)"
  have "bit (set_all p) (2 * i + j) \<longleftrightarrow> bit (domain_permission_raw p) j" if "j < 2"
  proof -
    have "bit (set_all p) (2 * i + j) \<longleftrightarrow>
        (\<exists>k < 16. 2 * k \<le> 2 * i + j \<and> bit (domain_permission_raw p) (2 * i + j - 2 * k))"
      using that assms by (auto simp: set_all_def set_all_from_bit)
    also have "\<dots> \<longleftrightarrow> bit (domain_permission_raw p) j"
    proof
      assume "\<exists>k < 16. 2 * k \<le> 2 * i + j \<and> bit (domain_permission_raw p) (2 * i + j - 2 * k)"
      then obtain k where k: "2 * k \<le> 2 * i + j" "bit (domain_permission_raw p) (2 * i + j - 2 * k)" by blast
      have "2 * i + j - 2 * k < 2" using k(2) by (rule domain_permission_bits)
      then have "k = i" using k(1) that by linarith
      then show "bit (domain_permission_raw p) j" using k(2) by simp
    next
      assume "bit (domain_permission_raw p) j"
      then show "\<exists>k < 16. 2 * k \<le> 2 * i + j \<and> bit (domain_permission_raw p) (2 * i + j - 2 * k)"
        using assms by (intro exI [of _ i]) simp
    qed
    finally show ?thesis .
  qed
  then show "bit (field (2 * i) 2 (set_all p)) j \<longleftrightarrow> bit (domain_permission_raw p) j"
    using domain_permission_bits by (auto simp: bit_field)
qed

section \<open>Properties\<close>

text \<open>
  Manager access is temporary and total: the wrapped code runs with every one of the 16
  domains set to Manager, whatever it does to the domain register, and afterwards the register
  has the value it had before; a result is passed through unchanged.
\<close>
lemma manager_access_scoped:
  assumes "inner (m\<lparr>dacr := set_all Manager\<rparr>) = Inr (res, m1)"
  shows "(\<forall>i < 16. field (2 * i) 2 (dacr (m\<lparr>dacr := set_all Manager\<rparr>)) = domain_permission_raw Manager) \<and>
         with_manager_domain_access inner m = Inr (res, m1\<lparr>dacr := dacr m\<rparr>)"
  using assms set_all_field by (auto simp: with_manager_domain_access_def)

definition demo_vmsa :: vmsa where
  "demo_vmsa = \<lparr>dview = (\<lambda>_. 0), pou = (\<lambda>_. 0), iview = (\<lambda>_. 0), ttbcr = 0, ttbr0 = 0, ttbr1 = 0, dacr = 0x55555555\<rparr>"

lemma manager_access_scoped_witness:
  "with_manager_domain_access (\<lambda>m. Inr (dacr m, m\<lparr>dacr := 0\<rparr>)) demo_vmsa = Inr (set_all Manager, demo_vmsa)"
  using manager_access_scoped [of "\<lambda>m. Inr (dacr m, m\<lparr>dacr := 0\<rparr>)" demo_vmsa]
  by (simp add: demo_vmsa_def)

end
