(* ===== verification/Hw_Breakpoints.thy ===== *)
theory Hw_Breakpoints
  imports Cpu_Debug Cpu_Vmsa Gdb_Arch Breakpoint_Store
begin

text \<open>
  \<open>src/src/gdb_target/breakpoint/hardware.rs\<close>: the manager of the processor's breakpoint
  comparators. The manager owns the register block it was set up with, so its state contains it.
\<close>

section \<open>The code\<close>

record hardware_capabilities =
  num_breakpoints :: u8
  num_watchpoints :: u8

record hw_manager =
  capabilities :: hardware_capabilities
  mmio :: debug_logic
  used_breakpoints :: "bool list"

datatype specificity = Match | Mismatch

fun specificity_type :: "specificity \<Rightarrow> breakpoint_type" where
  "specificity_type Match = UnlinkedInstrAddressMatch"
| "specificity_type Mismatch = UnlinkedInstrAddressMismatch"

definition split_addr :: "u32 \<Rightarrow> arm_breakpoint_kind \<Rightarrow> breakpoint_error + u32 \<times> u32" where
  "split_addr addr kind =
     (let word = addr AND NOT 3 in
      case kind of
        KArm32 \<Rightarrow> if unat addr mod 4 \<noteq> 0 then Inl NotAlignedCorrectly else Inr (word, 15)
      | _ \<Rightarrow> if unat addr mod 2 \<noteq> 0 then Inl NotAlignedCorrectly
             else Inr (word, if unat addr mod 4 = 0 then 3 else 12))"

definition locked :: "hw_manager \<Rightarrow> bool" where
  "locked h = software_lock_status (lock_status (mmio h))"

definition set_locked :: "bool \<Rightarrow> hw_manager \<Rightarrow> hw_manager outcome" where
  "set_locked l h =
     (let h = h\<lparr>mmio := write_lock_access (if l then 0 else DEBUG_UNLOCK_MAGIC) (mmio h)\<rparr> in
      and_then (assert_that (locked h = l) ''set_locked'') (\<lambda>_. ok h))"

definition update_mmio :: "string \<Rightarrow> (debug_logic \<Rightarrow> debug_logic option) \<Rightarrow> hw_manager \<Rightarrow> hw_manager outcome" where
  "update_mmio site f h = and_then (unwrap site (f (mmio h))) (\<lambda>d. ok (h\<lparr>mmio := d\<rparr>))"

definition RESET_SENTINEL :: u32 where
  "RESET_SENTINEL = 0xf0f0f0f0"

definition hw_reset :: "hw_manager \<Rightarrow> hw_manager outcome" where
  "hw_reset h =
     and_then (assert_that (\<not> locked h) ''reset: locked'') (\<lambda>_.
     and_then (for_each (\<lambda>idx h.
         and_then (update_mmio ''reset'' (write_breakpoint_ctrl idx bc_DISABLED) h) (\<lambda>h.
           update_mmio ''reset'' (write_breakpoint_value idx RESET_SENTINEL) h))
       [0..<unat (num_breakpoints (capabilities h))] h) (\<lambda>h.
     let h = h\<lparr>used_breakpoints := replicate 16 False\<rparr> in
     and_then (for_each (\<lambda>idx h.
         and_then (update_mmio ''reset'' (write_watchpoint_ctrl idx wc_DISABLED) h) (\<lambda>h.
           update_mmio ''reset'' (write_watchpoint_value idx RESET_SENTINEL) h))
       [0..<unat (num_watchpoints (capabilities h))] h) (\<lambda>h.
     ok (h\<lparr>mmio := modify_status_control_ext
           (\<lambda>c. with_monitor_debug_mode True (with_halting_debug_mode False c)) (mmio h)\<rparr>))))"

text \<open>
  The loop of \<open>add_breakpoint_at\<close>: an early return when the breakpoint exists, otherwise the
  first comparator that is free.
\<close>

fun scan_comparators ::
  "hw_manager \<Rightarrow> u32 \<Rightarrow> u32 \<Rightarrow> breakpoint_type \<Rightarrow> nat list \<Rightarrow> nat option \<Rightarrow>
   (breakpoint_error + nat option) outcome" where
  "scan_comparators h new_word new_bas ty [] next_disabled_idx = ok (Inr next_disabled_idx)"
| "scan_comparators h new_word new_bas ty (idx # idxs) next_disabled_idx =
     and_then (unwrap ''add_breakpoint_at'' (read_breakpoint_ctrl idx (mmio h))) (\<lambda>existing_bkpt.
     and_then (unwrap ''add_breakpoint_at'' (read_breakpoint_value idx (mmio h))) (\<lambda>existing_word.
       let next_disabled_idx =
             (if \<not> bc_enabled existing_bkpt \<and> \<not> used_breakpoints h ! idx \<and> next_disabled_idx = None
              then Some idx else next_disabled_idx) in
       if bc_enabled existing_bkpt \<and> bc_type existing_bkpt = Some ty \<and> new_word = existing_word \<and>
          byte_address_select existing_bkpt = new_bas
       then ok (Inl AlreadyExists)
       else scan_comparators h new_word new_bas ty idxs next_disabled_idx))"

definition configure :: "u32 \<Rightarrow> breakpoint_type \<Rightarrow> u32 \<Rightarrow> u32" where
  "configure new_bas ty bkpt =
     with_security_state_ctrl SecAll
       (with_privileged_mode_ctrl UserSystemSupervisorOnly
         (with_breakpoint_type ty
           (with_linked_breakpoint_index 0
             (with_address_range_mask 0
               (with_byte_address_select new_bas
                 (with_enabled True bkpt))))))"

definition add_breakpoint_at ::
  "u32 \<Rightarrow> specificity \<Rightarrow> arm_breakpoint_kind \<Rightarrow> hw_manager \<Rightarrow> ((breakpoint_error + unit) \<times> hw_manager) outcome" where
  "add_breakpoint_at addr specificity kind h =
     and_then (assert_that (\<not> locked h) ''add_breakpoint_at: locked'') (\<lambda>_.
       case split_addr addr kind of
         Inl e \<Rightarrow> ok (Inl e, h)
       | Inr (new_word, new_bas) \<Rightarrow>
           and_then (scan_comparators h new_word new_bas (specificity_type specificity)
               [0..<unat (num_breakpoints (capabilities h))] None) (\<lambda>r.
             case r of
               Inl e \<Rightarrow> ok (Inl e, h)
             | Inr None \<Rightarrow> ok (Inl NoSpace, h)
             | Inr (Some bkpt_index) \<Rightarrow>
                 and_then (update_mmio ''add_breakpoint_at'' (write_breakpoint_value bkpt_index new_word) h) (\<lambda>h.
                 and_then (update_mmio ''add_breakpoint_at''
                     (modify_breakpoint_ctrl bkpt_index (configure new_bas (specificity_type specificity))) h) (\<lambda>h.
                   ok (Inr (), h\<lparr>used_breakpoints := (used_breakpoints h)[bkpt_index := True]\<rparr>)))))"

text \<open>One round of the loop of \<open>remove_breakpoint_at\<close>.\<close>

definition remove_at_index ::
  "u32 \<Rightarrow> u32 \<Rightarrow> breakpoint_type \<Rightarrow> nat \<Rightarrow> bool \<times> hw_manager \<Rightarrow> (bool \<times> hw_manager) outcome" where
  "remove_at_index search_word bas ty bkpt_index = (\<lambda>(anything_removed, h).
     and_then (unwrap ''remove_breakpoint_at'' (read_breakpoint_ctrl bkpt_index (mmio h))) (\<lambda>bkpt.
       if \<not> (bc_enabled bkpt \<and> bc_type bkpt = Some ty \<and> byte_address_select bkpt = bas)
       then ok (anything_removed, h)
       else
         and_then (unwrap ''remove_breakpoint_at'' (read_breakpoint_value bkpt_index (mmio h))) (\<lambda>bkpt_word.
           if bkpt_word \<noteq> search_word then ok (anything_removed, h)
           else
             and_then (update_mmio ''remove_breakpoint_at'' (write_breakpoint_ctrl bkpt_index (with_enabled False bkpt)) h)
               (\<lambda>h. ok (True, h\<lparr>used_breakpoints := (used_breakpoints h)[bkpt_index := False]\<rparr>)))))"

definition remove_breakpoint_at ::
  "u32 \<Rightarrow> specificity \<Rightarrow> arm_breakpoint_kind \<Rightarrow> hw_manager \<Rightarrow> (bool \<times> hw_manager) outcome" where
  "remove_breakpoint_at addr specificity kind h =
     and_then (assert_that (\<not> locked h) ''remove_breakpoint_at: locked'') (\<lambda>_.
       case split_addr addr kind of
         Inl _ \<Rightarrow> ok (False, h)
       | Inr (search_word, bas) \<Rightarrow>
           for_each (remove_at_index search_word bas (specificity_type specificity))
             [0..<unat (num_breakpoints (capabilities h))] (False, h))"

text \<open>The subtraction of two \<open>u8\<close> is checked.\<close>

definition breakpoints_available :: "hw_manager \<Rightarrow> u8 outcome" where
  "breakpoints_available h =
     (let breaks_used = of_nat (length (filter id (used_breakpoints h)));
          total_breaks = num_breakpoints (capabilities h)
      in and_then (assert_that (breaks_used \<le> total_breaks) ''breakpoints_available: underflow'')
           (\<lambda>_. ok (total_breaks - breaks_used)))"

definition last_break_reason :: "hw_manager \<Rightarrow> debug_event_reason option" where
  "last_break_reason h = method_of_entry (status_control_ext (mmio h))"

text \<open>The \<open>HwBreakpoint\<close> callbacks of \<open>gdbstub\<close>, on the target's manager.\<close>

definition add_hw_breakpoint :: "u32 \<Rightarrow> arm_breakpoint_kind \<Rightarrow> hw_manager \<Rightarrow> (bool \<times> hw_manager) outcome" where
  "add_hw_breakpoint addr kind h =
     and_then (breakpoints_available h) (\<lambda>n.
       if n \<le> 1 then ok (False, h)
       else and_then (add_breakpoint_at addr Match kind h) (\<lambda>(result, h). ok (result = Inr (), h)))"

definition remove_hw_breakpoint :: "u32 \<Rightarrow> arm_breakpoint_kind \<Rightarrow> hw_manager \<Rightarrow> (bool \<times> hw_manager) outcome" where
  "remove_hw_breakpoint addr kind h = remove_breakpoint_at addr Match kind h"

section \<open>Setting up\<close>

text \<open>
  The board's device configuration block and the coprocessor registers that \<open>HwBreakpointManager::setup\<close> reads. The
  register block behind an address is a parameter.
\<close>

record devcfg =
  lock_debug :: bool
  invasive_debug_enable :: bool
  secure_invasive_debug_enable :: bool

record debug_sysregs =
  sder :: u32
  dbgdidr :: u32
  dbgdrar :: u32
  dbgdsar :: u32

definition enable_invasive_debug :: "devcfg \<Rightarrow> bool \<times> devcfg" where
  "enable_invasive_debug dc =
     (if lock_debug dc then (invasive_debug_enable dc \<and> secure_invasive_debug_enable dc, dc)
      else (True, dc\<lparr>invasive_debug_enable := True, secure_invasive_debug_enable := True\<rparr>))"

definition hw_setup ::
  "(u32 \<Rightarrow> debug_logic) \<Rightarrow> devcfg \<Rightarrow> debug_sysregs \<Rightarrow> 'm vmsa_scheme \<Rightarrow>
   (hw_manager \<times> devcfg \<times> debug_sysregs \<times> 'm vmsa_scheme) outcome" where
  "hw_setup logic_at dc regs m =
     and_then (with_manager_domain_access (\<lambda>m. ok (enable_invasive_debug dc, m)) m) (\<lambda>((enabled, dc), m).
     and_then (assert_that enabled ''The operating system has disabled hardware debugging.'') (\<lambda>_.
     let regs = regs\<lparr>sder := with_secure_user_invasive_debug True (sder regs)\<rparr>;
         rom_base = dbgdrar regs;
         self_address_offset = dbgdsar regs in
     and_then (assert_that (rom_address_valid rom_base = Some Valid \<and> self_address_valid self_address_offset = Some Valid)
         ''This device has no debug logic MMIO'') (\<lambda>_.
     let mmio_base = rom_address_value rom_base + self_address_value self_address_offset;
         debug_id = dbgdidr regs;
         manager = \<lparr>capabilities = \<lparr>num_breakpoints = ucast (brps debug_id) + 1, num_watchpoints = ucast (wrps debug_id) + 1\<rparr>,
                    mmio = logic_at mmio_base, used_breakpoints = replicate 16 False\<rparr> in
     and_then (set_locked False manager) (\<lambda>manager.
     and_then (hw_reset manager) (\<lambda>manager.
     and_then (set_locked True manager) (\<lambda>manager.
       ok (manager, dc, regs, m)))))))"

section \<open>The comparators as a list of optional breakpoints\<close>

text \<open>
  \<open>held h i\<close> is the breakpoint comparator \<open>i\<close> holds: its type, its word and its byte select.
\<close>

type_synonym hw_bkpt = "breakpoint_type option \<times> u32 \<times> u32"

definition held :: "hw_manager \<Rightarrow> nat \<Rightarrow> hw_bkpt option" where
  "held h i =
     (let c = breakpoint_ctrl (mmio h) ! i in
      if bc_enabled c then Some (bc_type c, breakpoint_value (mmio h) ! i, byte_address_select c) else None)"

definition num :: "hw_manager \<Rightarrow> nat" where
  "num h = unat (num_breakpoints (capabilities h))"

text \<open>The banks have their 16 registers and the bookkeeping agrees with the enable bits.\<close>

definition hw_wf :: "hw_manager \<Rightarrow> bool" where
  "hw_wf h \<longleftrightarrow>
     length (breakpoint_value (mmio h)) = 16 \<and> length (breakpoint_ctrl (mmio h)) = 16 \<and>
     length (used_breakpoints h) = 16 \<and> 0 < num h \<and> num h \<le> 16"

definition books_ok :: "hw_manager \<Rightarrow> bool" where
  "books_ok h \<longleftrightarrow> (\<forall>i < 16. used_breakpoints h ! i = (i < num h \<and> held h i \<noteq> None))"

definition hw_distinct :: "hw_manager \<Rightarrow> bool" where
  "hw_distinct h \<longleftrightarrow> (\<forall>i < num h. \<forall>j < num h. held h i \<noteq> None \<longrightarrow> held h i = held h j \<longrightarrow> i = j)"

definition hw_inv :: "hw_manager \<Rightarrow> bool" where
  "hw_inv h \<longleftrightarrow> hw_wf h \<and> books_ok h \<and> hw_distinct h"

definition hw_keys :: "hw_manager \<Rightarrow> hw_bkpt set" where
  "hw_keys h = {k. \<exists>i < num h. held h i = Some k}"

lemma read_regs [simp]:
  "i < 16 \<Longrightarrow> read_breakpoint_ctrl i d = Some (breakpoint_ctrl d ! i)"
  "i < 16 \<Longrightarrow> read_breakpoint_value i d = Some (breakpoint_value d ! i)"
  by (simp_all add: read_breakpoint_ctrl_def read_breakpoint_value_def)

lemma configure_fields [simp]:
  "bc_enabled (configure bas ty c)"
  "bc_type (configure bas ty c) = Some ty"
  "byte_address_select (configure bas ty c) = bas AND mask 4"
  by (simp_all add: configure_def bc_defs field_with_field_other field_with_field_same
      field_with_bit_other bit_with_field_other)

lemma scan_comparators_eq:
  assumes "\<forall>i \<in> set idxs. i < 16 \<and> used_breakpoints h ! i = (held h i \<noteq> None)"
  shows "scan_comparators h w bas ty idxs nd =
     Inr (if \<exists>i \<in> set idxs. held h i = Some (Some ty, w, bas) then Inl AlreadyExists
          else Inr (if nd \<noteq> None then nd else find (\<lambda>i. held h i = None) idxs))"
  using assms
proof (induction idxs arbitrary: nd)
  case Nil
  then show ?case by simp
next
  case (Cons idx idxs)
  then have "idx < 16" by simp
  with Cons show ?case by (auto simp: held_def Let_def)
qed

text \<open>What an operation on the comparators may change.\<close>

definition hw_frame :: "hw_manager \<Rightarrow> hw_manager \<Rightarrow> bool" where
  "hw_frame h h' \<longleftrightarrow>
     capabilities h' = capabilities h \<and> lock_status (mmio h') = lock_status (mmio h) \<and>
     status_control_ext (mmio h') = status_control_ext (mmio h) \<and> (hw_wf h \<longrightarrow> hw_wf h')"

lemma hw_frame_refl [simp]: "hw_frame h h"
  by (simp add: hw_frame_def)

lemma hw_frame_trans: "hw_frame h h' \<Longrightarrow> hw_frame h' h'' \<Longrightarrow> hw_frame h h''"
  by (simp add: hw_frame_def)

lemma hw_frame_simps:
  assumes "hw_frame h h'"
  shows "locked h' = locked h" and "num h' = num h" and "capabilities h' = capabilities h"
  using assms by (simp_all add: hw_frame_def locked_def num_def)

lemma remove_at_index_spec:
  assumes "\<not> locked h" and "hw_wf h" and "i < 16"
  obtains h' where "remove_at_index w bas ty i (b, h) = Inr (b \<or> held h i = Some (Some ty, w, bas), h')"
    and "hw_frame h h'"
    and "\<And>j. j < 16 \<Longrightarrow> held h' j = (if j = i \<and> held h i = Some (Some ty, w, bas) then None else held h j)"
    and "\<And>j. j < 16 \<Longrightarrow> used_breakpoints h' ! j =
          (if j = i \<and> held h i = Some (Some ty, w, bas) then False else used_breakpoints h ! j)"
proof (cases "held h i = Some (Some ty, w, bas)")
  case False
  then have "remove_at_index w bas ty i (b, h) = Inr (b, h)"
    using assms(3) by (auto simp: remove_at_index_def held_def Let_def)
  then show thesis using that [of h] False by simp
next
  case True
  let ?c = "breakpoint_ctrl (mmio h) ! i"
  let ?h' = "h\<lparr>mmio := (mmio h)\<lparr>breakpoint_ctrl := (breakpoint_ctrl (mmio h))[i := with_enabled False ?c]\<rparr>,
               used_breakpoints := (used_breakpoints h)[i := False]\<rparr>"
  have "remove_at_index w bas ty i (b, h) = Inr (True, ?h')"
    using True assms(1,3)
    by (auto simp: remove_at_index_def held_def update_mmio_def write_breakpoint_ctrl_def when_unlocked_def
        locked_def Let_def split: if_splits)
  moreover have "hw_frame h ?h'" by (simp add: hw_frame_def hw_wf_def num_def)
  moreover have "held ?h' j = (if j = i then None else held h j)" if "j < 16" for j
    using that assms(2) by (simp add: held_def hw_wf_def nth_list_update Let_def)
  ultimately show thesis using that [of ?h'] True assms(2) by (simp add: nth_list_update hw_wf_def)
qed

lemma remove_loop_spec:
  assumes "\<not> locked h" and "hw_wf h" and "\<forall>i \<in> set idxs. i < 16" and "distinct idxs"
  obtains h' where "for_each (remove_at_index w bas ty) idxs (b, h) =
        Inr (b \<or> (\<exists>i \<in> set idxs. held h i = Some (Some ty, w, bas)), h')"
    and "hw_frame h h'"
    and "\<And>j. j < 16 \<Longrightarrow> held h' j = (if j \<in> set idxs \<and> held h j = Some (Some ty, w, bas) then None else held h j)"
    and "\<And>j. j < 16 \<Longrightarrow> used_breakpoints h' ! j =
          (if j \<in> set idxs \<and> held h j = Some (Some ty, w, bas) then False else used_breakpoints h ! j)"
  using assms
proof (induction idxs arbitrary: b h thesis)
  case Nil
  then show ?case by simp
next
  case (Cons i idxs)
  let ?k = "Some (Some ty, w, bas)"
  have i: "i < 16" "i \<notin> set idxs" using Cons.prems(4,5) by simp_all
  obtain h1 where h1: "remove_at_index w bas ty i (b, h) = Inr (b \<or> held h i = ?k, h1)" "hw_frame h h1"
    "\<And>j. j < 16 \<Longrightarrow> held h1 j = (if j = i \<and> held h i = ?k then None else held h j)"
    "\<And>j. j < 16 \<Longrightarrow> used_breakpoints h1 ! j = (if j = i \<and> held h i = ?k then False else used_breakpoints h ! j)"
    using remove_at_index_spec [OF Cons.prems(2,3) i(1), of w bas ty b] by blast
  have wf: "\<not> locked h1" "hw_wf h1"
    using Cons.prems(2,3) h1(2) by (simp_all add: hw_frame_simps) (simp add: hw_frame_def)
  obtain h' where h': "for_each (remove_at_index w bas ty) idxs (b \<or> held h i = ?k, h1) =
        Inr ((b \<or> held h i = ?k) \<or> (\<exists>j \<in> set idxs. held h1 j = ?k), h')" "hw_frame h1 h'"
    "\<And>j. j < 16 \<Longrightarrow> held h' j = (if j \<in> set idxs \<and> held h1 j = ?k then None else held h1 j)"
    "\<And>j. j < 16 \<Longrightarrow> used_breakpoints h' ! j = (if j \<in> set idxs \<and> held h1 j = ?k then False else used_breakpoints h1 ! j)"
    using Cons.IH [OF _ wf, of "b \<or> held h i = ?k"] Cons.prems(4,5) by auto
  have same: "held h1 j = held h j" if "j \<in> set idxs" for j
    using that h1(3) [of j] i(2) Cons.prems(4) by auto
  have ex: "((b \<or> held h i = ?k) \<or> (\<exists>j \<in> set idxs. held h1 j = ?k)) = (b \<or> (\<exists>j \<in> set (i # idxs). held h j = ?k))"
    using same by auto
  have c: "held h' j = (if j \<in> set (i # idxs) \<and> held h j = ?k then None else held h j)" if "j < 16" for j
    using h'(3) [OF that] h1(3) [OF that] same [of j] by auto
  have u: "used_breakpoints h' ! j = (if j \<in> set (i # idxs) \<and> held h j = ?k then False else used_breakpoints h ! j)"
    if "j < 16" for j
    using h'(4) [OF that] h1(4) [OF that] same [of j] by auto
  show ?case
    by (rule Cons.prems(1) [of h'])
      (use h1(1) h'(1) ex hw_frame_trans [OF h1(2) h'(2)] c u in simp_all)
qed

section \<open>Adding and removing\<close>

definition hw_key :: "specificity \<Rightarrow> u32 \<times> u32 \<Rightarrow> hw_bkpt" where
  "hw_key sp = (\<lambda>(w, bas). (Some (specificity_type sp), w, bas))"

lemma split_addr_select: "split_addr addr kind = Inr (w, bas) \<Longrightarrow> bas AND mask 4 = bas"
  by (auto simp: split_addr_def mask_eq_exp_minus_1 Let_def split: arm_breakpoint_kind.splits if_splits)

lemma hw_scan:
  assumes "hw_inv h"
  shows "scan_comparators h w bas (specificity_type sp) [0..<num h] None =
     Inr (if hw_key sp (w, bas) \<in> hw_keys h then Inl AlreadyExists
          else Inr (find (\<lambda>i. held h i = None) [0..<num h]))"
proof -
  have "\<forall>i \<in> set [0..<num h]. i < 16 \<and> used_breakpoints h ! i = (held h i \<noteq> None)"
    using assms by (auto simp: hw_inv_def hw_wf_def books_ok_def)
  then show ?thesis by (auto simp: scan_comparators_eq hw_keys_def hw_key_def)
qed

lemma add_breakpoint_new:
  assumes "hw_inv h" and "\<not> locked h" and sp: "split_addr addr kind = Inr (w, bas)"
    and new: "hw_key sp (w, bas) \<notin> hw_keys h" and i: "find (\<lambda>i. held h i = None) [0..<num h] = Some i"
  obtains h' where "add_breakpoint_at addr sp kind h = Inr (Inr (), h')" and "hw_frame h h'"
    and "i < num h" and "held h i = None"
    and "\<And>j. j < 16 \<Longrightarrow> held h' j = (if j = i then Some (hw_key sp (w, bas)) else held h j)"
    and "\<And>j. j < 16 \<Longrightarrow> used_breakpoints h' ! j = (if j = i then True else used_breakpoints h ! j)"
proof -
  let ?ty = "specificity_type sp"
  have i': "i < num h" "held h i = None" using i by (auto simp: find_Some_iff)
  have wf: "hw_wf h" "i < 16" using assms(1) i' by (auto simp: hw_inv_def hw_wf_def)
  let ?d = "(mmio h)\<lparr>breakpoint_value := (breakpoint_value (mmio h))[i := w],
     breakpoint_ctrl := (breakpoint_ctrl (mmio h))[i := configure bas ?ty (breakpoint_ctrl (mmio h) ! i)]\<rparr>"
  let ?h' = "h\<lparr>mmio := ?d, used_breakpoints := (used_breakpoints h)[i := True]\<rparr>"
  have "add_breakpoint_at addr sp kind h = Inr (Inr (), ?h')"
    using hw_scan [OF assms(1), of w bas sp] new i sp assms(2) wf(2)
    by (simp add: add_breakpoint_at_def num_def update_mmio_def write_breakpoint_value_def
        modify_breakpoint_ctrl_def write_breakpoint_ctrl_def when_unlocked_def locked_def)
  moreover have "hw_frame h ?h'" by (simp add: hw_frame_def hw_wf_def num_def)
  moreover have "held ?h' j = (if j = i then Some (hw_key sp (w, bas)) else held h j)" if "j < 16" for j
    using that wf split_addr_select [OF sp] by (auto simp: held_def hw_wf_def nth_list_update hw_key_def Let_def)
  ultimately show thesis
    using that [of ?h'] i' wf by (simp add: nth_list_update hw_wf_def)
qed

lemma hw_inv_change:
  assumes "hw_inv h" and "hw_frame h h'"
    and "\<And>j. j < num h \<Longrightarrow> held h' j = f j"
    and "\<And>j. j < 16 \<Longrightarrow> used_breakpoints h' ! j = (j < num h \<and> f j \<noteq> None)"
    and "\<And>i j. i < num h \<Longrightarrow> j < num h \<Longrightarrow> f i \<noteq> None \<Longrightarrow> f i = f j \<Longrightarrow> i = j"
  shows "hw_inv h'"
  using assms by (auto simp: hw_inv_def books_ok_def hw_distinct_def hw_frame_def hw_frame_simps [OF assms(2)])

lemma hw_keys_eq:
  assumes "num h' = num h" and "\<And>j. j < num h \<Longrightarrow> held h' j = f j"
  shows "hw_keys h' = {k. \<exists>j < num h. f j = Some k}"
  using assms by (simp add: hw_keys_def cong: conj_cong)

lemma keys_insert:
  assumes "i < n" and "g i = None"
  shows "{k. \<exists>j < (n :: nat). (if j = i then Some a else g j) = Some k} = insert a {k. \<exists>j < n. g j = Some k}"
    (is "?L = ?R")
proof (rule set_eqI)
  fix k
  show "k \<in> ?L \<longleftrightarrow> k \<in> ?R" using assms by (cases "k = a") (auto split: if_splits, metis option.distinct(1))
qed

lemma keys_delete:
  "{k. \<exists>j < (n :: nat). (if g j = Some a then None else g j) = Some k} = {k. \<exists>j < n. g j = Some k} - {a}"
    (is "?L = ?R")
proof (rule set_eqI)
  fix k
  show "k \<in> ?L \<longleftrightarrow> k \<in> ?R" by (cases "k = a") (auto split: if_splits, metis option.inject)
qed

lemma add_breakpoint_new_inv:
  assumes "hw_inv h" and "\<not> locked h" and sp: "split_addr addr kind = Inr (w, bas)"
    and new: "hw_key sp (w, bas) \<notin> hw_keys h" and i: "find (\<lambda>i. held h i = None) [0..<num h] = Some i"
  obtains h' where "add_breakpoint_at addr sp kind h = Inr (Inr (), h')" and "hw_frame h h'"
    and "hw_inv h'" and "hw_keys h' = insert (hw_key sp (w, bas)) (hw_keys h)"
    and "i < num h" and "held h i = None"
    and "\<And>j. j < 16 \<Longrightarrow> held h' j = (if j = i then Some (hw_key sp (w, bas)) else held h j)"
proof -
  let ?k = "hw_key sp (w, bas)"
  have n: "num h \<le> 16" using assms(1) by (simp add: hw_inv_def hw_wf_def)
  obtain h' where r: "add_breakpoint_at addr sp kind h = Inr (Inr (), h')" "hw_frame h h'"
    "i < num h" "held h i = None"
    "\<And>j. j < 16 \<Longrightarrow> held h' j = (if j = i then Some ?k else held h j)"
    "\<And>j. j < 16 \<Longrightarrow> used_breakpoints h' ! j = (if j = i then True else used_breakpoints h ! j)"
    by (rule add_breakpoint_new [OF assms]) blast
  have fresh: "held h j \<noteq> Some ?k" if "j < num h" for j
    using new that by (auto simp: hw_keys_def)
  have dist: "\<And>a b. a < num h \<Longrightarrow> b < num h \<Longrightarrow> held h a \<noteq> None \<Longrightarrow> held h a = held h b \<Longrightarrow> a = b"
    using assms(1) by (simp add: hw_inv_def hw_distinct_def)
  have "hw_inv h'"
  proof (rule hw_inv_change [OF assms(1) r(2), of "\<lambda>j. if j = i then Some ?k else held h j"])
    show "held h' j = (if j = i then Some ?k else held h j)" if "j < num h" for j
      using r(5) that n by simp
    show "used_breakpoints h' ! j = (j < num h \<and> (if j = i then Some ?k else held h j) \<noteq> None)" if "j < 16" for j
      using r(3,6) that assms(1) by (cases "j = i") (simp_all add: hw_inv_def books_ok_def)
    show "a = b" if "a < num h" "b < num h" "(if a = i then Some ?k else held h a) \<noteq> None"
      "(if a = i then Some ?k else held h a) = (if b = i then Some ?k else held h b)" for a b
      using that dist [of a b] fresh [of a] fresh [of b] by (auto split: if_splits)
  qed
  moreover have "hw_keys h' = {k. \<exists>j < num h. (if j = i then Some ?k else held h j) = Some k}"
    by (rule hw_keys_eq) (use r(5) n in \<open>simp_all add: hw_frame_simps [OF r(2)]\<close>)
  then have "hw_keys h' = insert ?k (hw_keys h)"
    using keys_insert [of i "num h" "held h", OF r(3,4)] by (simp add: hw_keys_def)
  ultimately show thesis using that r by blast
qed

lemma remove_breakpoint_spec:
  assumes "hw_inv h" and "\<not> locked h" and sp: "split_addr addr kind = Inr (w, bas)"
  obtains h' where "remove_breakpoint_at addr sp kind h = Inr (hw_key sp (w, bas) \<in> hw_keys h, h')"
    and "hw_frame h h'" and "hw_inv h'" and "hw_keys h' = hw_keys h - {hw_key sp (w, bas)}"
    and "\<And>j. j < num h \<Longrightarrow> held h' j = (if held h j = Some (hw_key sp (w, bas)) then None else held h j)"
proof -
  let ?k = "hw_key sp (w, bas)"
  have n: "hw_wf h" "num h \<le> 16" using assms(1) by (simp_all add: hw_inv_def hw_wf_def)
  have idx: "\<forall>i \<in> set [0..<num h]. i < 16" "distinct [0..<num h]" using n by auto
  have k: "(Some (specificity_type sp), w, bas) = ?k" by (simp add: hw_key_def)
  obtain h' where r: "for_each (remove_at_index w bas (specificity_type sp)) [0..<num h] (False, h) =
        Inr (False \<or> (\<exists>i \<in> set [0..<num h]. held h i = Some ?k), h')" "hw_frame h h'"
    "\<And>j. j < 16 \<Longrightarrow> held h' j = (if j \<in> set [0..<num h] \<and> held h j = Some ?k then None else held h j)"
    "\<And>j. j < 16 \<Longrightarrow> used_breakpoints h' ! j =
          (if j \<in> set [0..<num h] \<and> held h j = Some ?k then False else used_breakpoints h ! j)"
    by (rule remove_loop_spec [OF assms(2) n(1) idx, of w bas "specificity_type sp" False, unfolded k]) blast
  have c: "held h' j = (if held h j = Some ?k then None else held h j)" if "j < num h" for j
    using r(3) that n by simp
  have dist: "\<And>a b. a < num h \<Longrightarrow> b < num h \<Longrightarrow> held h a \<noteq> None \<Longrightarrow> held h a = held h b \<Longrightarrow> a = b"
    using assms(1) by (simp add: hw_inv_def hw_distinct_def)
  have "hw_inv h'"
  proof (rule hw_inv_change [OF assms(1) r(2), of "\<lambda>j. if held h j = Some ?k then None else held h j"])
    show "used_breakpoints h' ! j = (j < num h \<and> (if held h j = Some ?k then None else held h j) \<noteq> None)"
      if "j < 16" for j
      using r(4) [OF that] that assms(1) by (auto simp: hw_inv_def books_ok_def)
    show "a = b" if "a < num h" "b < num h" "(if held h a = Some ?k then None else held h a) \<noteq> None"
      "(if held h a = Some ?k then None else held h a) = (if held h b = Some ?k then None else held h b)" for a b
      using that dist [of a b] by (auto split: if_splits)
  qed (rule c)
  moreover have "hw_keys h' = {k. \<exists>j < num h. (if held h j = Some ?k then None else held h j) = Some k}"
    by (rule hw_keys_eq) (use c in \<open>simp_all add: hw_frame_simps [OF r(2)]\<close>)
  then have "hw_keys h' = hw_keys h - {?k}"
    using keys_delete [of "num h" "held h" ?k] by (simp add: hw_keys_def)
  moreover have "remove_breakpoint_at addr sp kind h = Inr (?k \<in> hw_keys h, h')"
  proof -
    have "(\<exists>i \<in> set [0..<num h]. held h i = Some ?k) = (?k \<in> hw_keys h)" by (auto simp: hw_keys_def)
    then show ?thesis using r(1) assms(2) sp by (simp add: remove_breakpoint_at_def num_def)
  qed
  ultimately show thesis using that r(2) c by blast
qed

section \<open>The comparators as a breakpoint store\<close>

definition hw_store_key :: "u32 \<times> specificity \<times> arm_breakpoint_kind \<Rightarrow> hw_bkpt" where
  "hw_store_key a = (case a of (addr, sp, kind) \<Rightarrow>
     case split_addr addr kind of Inl _ \<Rightarrow> (None, 0, 0) | Inr wb \<Rightarrow> hw_key sp wb)"

definition hw_store_ready :: "u32 \<times> specificity \<times> arm_breakpoint_kind \<Rightarrow> hw_manager \<Rightarrow> bool" where
  "hw_store_ready a h = (case a of (addr, sp, kind) \<Rightarrow>
     \<not> locked h \<and> unat addr mod (if kind = KArm32 then 4 else 2) = 0)"

definition hw_store_add ::
  "u32 \<times> specificity \<times> arm_breakpoint_kind \<Rightarrow> hw_manager \<Rightarrow> ((breakpoint_error + unit) \<times> hw_manager) outcome" where
  "hw_store_add a h = (case a of (addr, sp, kind) \<Rightarrow> add_breakpoint_at addr sp kind h)"

definition hw_store_del ::
  "u32 \<times> specificity \<times> arm_breakpoint_kind \<Rightarrow> hw_manager \<Rightarrow> (bool \<times> hw_manager) outcome" where
  "hw_store_del a h = (case a of (addr, sp, kind) \<Rightarrow> remove_breakpoint_at addr sp kind h)"

lemma split_addr_aligned:
  "unat addr mod (if kind = KArm32 then 4 else 2) = 0 \<longleftrightarrow> (\<exists>w bas. split_addr addr kind = Inr (w, bas))"
  by (cases kind) (auto simp: split_addr_def Let_def)

text \<open>What an addition answers for an aligned address.\<close>

definition hw_result :: "hw_bkpt \<Rightarrow> hw_manager \<Rightarrow> breakpoint_error + unit" where
  "hw_result k h =
     (if k \<in> hw_keys h then Inl AlreadyExists
      else if \<forall>i < num h. held h i \<noteq> None then Inl NoSpace else Inr ())"

lemma add_breakpoint_total:
  assumes "hw_inv h" and "\<not> locked h" and sp: "split_addr addr kind = Inr (w, bas)"
  obtains h' where "add_breakpoint_at addr sp kind h = Inr (hw_result (hw_key sp (w, bas)) h, h')"
    and "hw_inv h'" and "hw_frame h h'"
    and "hw_result (hw_key sp (w, bas)) h = Inr () \<Longrightarrow> hw_keys h' = insert (hw_key sp (w, bas)) (hw_keys h)"
    and "hw_result (hw_key sp (w, bas)) h \<noteq> Inr () \<Longrightarrow> h' = h"
proof (cases "hw_key sp (w, bas) \<in> hw_keys h \<or> (\<forall>i < num h. held h i \<noteq> None)")
  case True
  have "find (\<lambda>i. held h i = None) [0..<num h] = None" if "\<forall>i < num h. held h i \<noteq> None"
    using that by (auto simp: find_None_iff)
  then have "add_breakpoint_at addr sp kind h = Inr (hw_result (hw_key sp (w, bas)) h, h)"
    using True hw_scan [OF assms(1), of w bas sp] sp assms(2)
    by (auto simp: add_breakpoint_at_def num_def hw_result_def)
  moreover have "hw_result (hw_key sp (w, bas)) h \<noteq> Inr ()" using True by (auto simp: hw_result_def)
  ultimately show thesis using that [of h] assms(1) by simp
next
  case False
  then obtain i where i: "find (\<lambda>i. held h i = None) [0..<num h] = Some i"
    by (cases "find (\<lambda>i. held h i = None) [0..<num h]") (auto simp: find_None_iff)
  have res: "hw_result (hw_key sp (w, bas)) h = Inr ()" using False by (auto simp: hw_result_def)
  have new: "hw_key sp (w, bas) \<notin> hw_keys h" using False by blast
  show thesis
    by (rule add_breakpoint_new_inv [OF assms new i], rule that) (simp_all add: res)
qed

interpretation hw: breakpoint_store hw_inv hw_keys hw_store_key hw_store_ready hw_store_add hw_store_del
proof (unfold_locales, goal_cases)
  case (1 s a)
  obtain addr sp kind where a: "a = (addr, sp, kind)" by (cases a)
  obtain w bas where sa: "split_addr addr kind = Inr (w, bas)" and u: "\<not> locked s"
    using 1 a split_addr_aligned by (auto simp: hw_store_ready_def)
  show ?case by (rule add_breakpoint_total [OF 1(1) u sa, of sp]) (auto simp: a hw_store_add_def)
next
  case (2 s a)
  obtain addr sp kind where a: "a = (addr, sp, kind)" by (cases a)
  obtain w bas where sa: "split_addr addr kind = Inr (w, bas)" and u: "\<not> locked s"
    using 2 a split_addr_aligned by (auto simp: hw_store_ready_def)
  show ?case
    by (rule add_breakpoint_total [OF 2(1) u sa, of sp])
      (use 2(3) in \<open>auto simp: a hw_store_add_def hw_store_key_def sa hw_result_def\<close>)
next
  case (3 s a e s')
  obtain addr sp kind where a: "a = (addr, sp, kind)" by (cases a)
  obtain w bas where sa: "split_addr addr kind = Inr (w, bas)" and u: "\<not> locked s"
    using 3 a split_addr_aligned by (auto simp: hw_store_ready_def)
  show ?case
    by (rule add_breakpoint_total [OF 3(1) u sa, of sp]) (use 3(3) in \<open>auto simp: a hw_store_add_def\<close>)
next
  case (4 s a s')
  obtain addr sp kind where a: "a = (addr, sp, kind)" by (cases a)
  obtain w bas where sa: "split_addr addr kind = Inr (w, bas)" and u: "\<not> locked s"
    using 4 a split_addr_aligned by (auto simp: hw_store_ready_def)
  show ?case
    by (rule add_breakpoint_total [OF 4(1) u sa, of sp])
      (use 4(3) in \<open>auto simp: a hw_store_add_def hw_store_key_def sa\<close>)
next
  case (5 s a)
  obtain addr sp kind where a: "a = (addr, sp, kind)" by (cases a)
  obtain w bas where sa: "split_addr addr kind = Inr (w, bas)" and u: "\<not> locked s"
    using 5 a split_addr_aligned by (auto simp: hw_store_ready_def)
  show ?case by (rule remove_breakpoint_spec [OF 5(1) u sa, of sp]) (auto simp: a hw_store_del_def)
next
  case (6 s a c s')
  obtain addr sp kind where a: "a = (addr, sp, kind)" by (cases a)
  obtain w bas where sa: "split_addr addr kind = Inr (w, bas)" and u: "\<not> locked s"
    using 6 a split_addr_aligned by (auto simp: hw_store_ready_def)
  show ?case
    by (rule remove_breakpoint_spec [OF 6(1) u sa, of sp])
      (use 6(3) in \<open>auto simp: a hw_store_del_def hw_store_key_def sa\<close>)
next
  case (7 s a r s')
  obtain addr sp kind where a: "a = (addr, sp, kind)" by (cases a)
  obtain w bas where sa: "split_addr addr kind = Inr (w, bas)" and u: "\<not> locked s"
    using 7 a split_addr_aligned by (auto simp: hw_store_ready_def)
  show ?case
    by (rule add_breakpoint_total [OF 7(1) u sa, of sp])
      (use 7 in \<open>auto simp: a hw_store_add_def hw_store_ready_def hw_frame_simps\<close>)
qed

section \<open>Counting the comparators in use\<close>

lemma hw_keys_image: "Some ` hw_keys h = held h ` {i. i < num h \<and> held h i \<noteq> None}"
  by (force simp: hw_keys_def)

lemma held_count:
  assumes "hw_inv h"
  shows "card {i. i < num h \<and> held h i \<noteq> None} = card (hw_keys h)"
proof -
  let ?I = "{i. i < num h \<and> held h i \<noteq> None}"
  have "card ?I = card (held h ` ?I)"
    using assms by (intro card_image [symmetric] inj_onI) (auto simp: hw_inv_def hw_distinct_def)
  also have "\<dots> = card (hw_keys h)"
    unfolding hw_keys_image [symmetric] by (intro card_image) simp
  finally show ?thesis .
qed

lemma used_count:
  assumes "hw_inv h"
  shows "length (filter id (used_breakpoints h)) = card (hw_keys h)"
proof -
  have "{i. i < length (used_breakpoints h) \<and> id (used_breakpoints h ! i)} = {i. i < num h \<and> held h i \<noteq> None}"
    using assms by (auto simp: hw_inv_def hw_wf_def books_ok_def)
  then show ?thesis by (simp only: length_filter_conv_card held_count [OF assms])
qed

lemma used_count_le:
  assumes "hw_inv h"
  shows "card (hw_keys h) \<le> num h" and "num h \<le> 16"
proof -
  have "card (hw_keys h) = card (Some ` hw_keys h)" by (intro card_image [symmetric]) simp
  also have "\<dots> \<le> card {i. i < num h \<and> held h i \<noteq> None}"
    unfolding hw_keys_image by (rule card_image_le) simp
  also have "\<dots> \<le> card {..<num h}" by (intro card_mono) auto
  finally show "card (hw_keys h) \<le> num h" by simp
  show "num h \<le> 16" using assms by (simp add: hw_inv_def hw_wf_def)
qed

lemma breakpoints_available_eq:
  assumes "hw_inv h"
  shows "breakpoints_available h = Inr (of_nat (num h - card (hw_keys h)))"
proof -
  note c = used_count_le [OF assms]
  have n: "num_breakpoints (capabilities h) = of_nat (num h)" by (simp add: num_def)
  have "(of_nat (card (hw_keys h)) :: u8) \<le> of_nat (num h)"
    using c by (simp add: word_le_nat_alt unat_of_nat)
  then show ?thesis
    using c by (simp add: breakpoints_available_def used_count [OF assms] n of_nat_diff Let_def)
qed

lemma all_held_card:
  assumes "hw_inv h" and "\<forall>i < num h. held h i \<noteq> None"
  shows "card (hw_keys h) = num h"
proof -
  have "{i. i < num h \<and> held h i \<noteq> None} = {..<num h}" using assms(2) by auto
  then show ?thesis using held_count [OF assms(1)] by simp
qed

end
