(* ===== verification/Hw_Properties.thy ===== *)
theory Hw_Properties
  imports Hw_Breakpoints
begin

text \<open>
  The properties of the hardware breakpoint manager (\<open>hardware.rs\<close>). Which instructions a
  comparator stops is read off the documentation of \<open>byte_address_select\<close> in \<open>debug.rs\<close>: a
  comparator hits the addresses of its word whose select bit is set.
\<close>

definition hw_hit :: "u32 \<Rightarrow> u32 \<Rightarrow> u32 \<Rightarrow> bool" where
  "hw_hit word bas pc \<longleftrightarrow> pc AND NOT 3 = word \<and> bit bas (unat (pc AND 3))"

definition kind_size :: "arm_breakpoint_kind \<Rightarrow> nat" where
  "kind_size kind = (if kind = KArm32 then 4 else 2)"

lemma in_range_le:
  assumes "unat a + n \<le> 2 ^ 32"
  shows "in_range a n x \<longleftrightarrow> unat a \<le> unat x \<and> unat x < unat a + n"
proof (cases "unat a \<le> unat x")
  case True
  then have "unat (x - a) = unat x - unat a" by (simp add: unat_sub word_le_nat_alt)
  then show ?thesis using True by (auto simp: in_range_def)
next
  case False
  then have "unat (x - a) = 2 ^ 32 - unat a + unat x"
    using unat_sub_if' [of x a] unat_u32_less [of a] by (simp add: word_le_nat_alt)
  then show ?thesis using False assms by (simp add: in_range_def)
qed

lemma and_three: "unat (pc AND 3 :: u32) = unat pc mod 4"
proof -
  have "pc AND 3 = take_bit 2 pc" by (simp add: take_bit_eq_mask mask_eq_exp_minus_1)
  moreover have "unat (take_bit 2 pc) = unat pc mod 4"
    unfolding unsigned_take_bit_eq by (simp add: take_bit_eq_mod)
  ultimately show ?thesis by simp
qed

lemma same_word: "(pc AND NOT 3 = a AND NOT 3) \<longleftrightarrow> unat pc div 4 = unat (a :: u32) div 4"
proof -
  have w: "x AND NOT 3 = push_bit 2 (drop_bit 2 x)" for x :: u32
  proof -
    have "x AND NOT (mask 2) = push_bit 2 (drop_bit 2 x)"
    proof (rule bit_word_eqI)
      fix n show "bit (x AND NOT (mask 2)) n \<longleftrightarrow> bit (push_bit 2 (drop_bit 2 x)) n" if "n < LENGTH(32)"
        using that by (cases "2 \<le> n") (auto simp: bit_simps elim!: le_SucE dest!: le_Suc_ex)
    qed
    then show ?thesis by (simp add: mask_eq_exp_minus_1)
  qed
  have "pc AND NOT 3 = a AND NOT 3 \<longleftrightarrow> drop_bit 2 pc = drop_bit 2 a"
  proof
    assume "pc AND NOT 3 = a AND NOT 3"
    then have "drop_bit 2 (push_bit 2 (drop_bit 2 pc)) = drop_bit 2 (push_bit 2 (drop_bit 2 a))"
      by (simp only: w)
    moreover have "drop_bit 2 (push_bit 2 (drop_bit 2 x)) = drop_bit 2 x" for x :: u32
      by (rule bit_word_eqI) (auto simp: bit_simps dest: bit_imp_le_length)
    ultimately show "drop_bit 2 pc = drop_bit 2 a" by simp
  qed (simp only: w)
  also have "\<dots> \<longleftrightarrow> unat pc div 4 = unat a div 4"
    by (simp add: word_unat_eq_iff drop_bit_eq_div unat_div)
  finally show ?thesis .
qed

lemma select_bits:
  "r < 4 \<Longrightarrow> bit (15 :: u32) r" "bit (3 :: u32) r \<longleftrightarrow> r < 2" "r < 4 \<Longrightarrow> bit (12 :: u32) r \<longleftrightarrow> 2 \<le> r"
proof -
  have "(15 :: u32) = mask 4" "(3 :: u32) = mask 2" "(12 :: u32) = push_bit 2 (mask 2)"
    by (simp_all add: mask_eq_exp_minus_1)
  then show "r < 4 \<Longrightarrow> bit (15 :: u32) r" "bit (3 :: u32) r \<longleftrightarrow> r < 2" "r < 4 \<Longrightarrow> bit (12 :: u32) r \<longleftrightarrow> 2 \<le> r"
    by (simp_all only: bit_mask_iff bit_push_bit_iff) auto
qed

lemma word_nat:
  "(a :: nat) mod 4 = 0 \<Longrightarrow> x div 4 = a div 4 \<longleftrightarrow> a \<le> x \<and> x < a + 4"
  "(a :: nat) mod 4 = 0 \<Longrightarrow> x div 4 = a div 4 \<and> x mod 4 < 2 \<longleftrightarrow> a \<le> x \<and> x < a + 2"
  "(a :: nat) mod 4 = 2 \<Longrightarrow> x div 4 = a div 4 \<and> 2 \<le> x mod 4 \<longleftrightarrow> a \<le> x \<and> x < a + 2"
proof -
  obtain X R where x: "x = 4 * X + R" "R < 4"
    by (rule that [of "x div 4" "x mod 4"]) simp_all
  have aux: "(X = A \<and> R < 2) = (4 * A \<le> 4 * X + R \<and> 4 * X + R < 4 * A + 2)"
    "(X = A \<and> 2 \<le> R) = (4 * A + 2 \<le> 4 * X + R \<and> 4 * X + R < 4 * A + 2 + 2)"
    "(X = A) = (4 * A \<le> 4 * X + R \<and> 4 * X + R < 4 * A + 4)" for A
    using x(2) by presburger+
  have d: "x div 4 = X" "x mod 4 = R" using x by simp_all
  show "x div 4 = a div 4 \<longleftrightarrow> a \<le> x \<and> x < a + 4" if "a mod 4 = 0"
  proof -
    have A: "a = 4 * (a div 4)" using that by presburger
    show ?thesis unfolding d by (subst (2 3) A) (unfold x(1), rule aux)
  qed
  show "x div 4 = a div 4 \<and> x mod 4 < 2 \<longleftrightarrow> a \<le> x \<and> x < a + 2" if "a mod 4 = 0"
  proof -
    have A: "a = 4 * (a div 4)" using that by presburger
    show ?thesis unfolding d by (subst (2 3) A) (unfold x(1), rule aux)
  qed
  show "x div 4 = a div 4 \<and> 2 \<le> x mod 4 \<longleftrightarrow> a \<le> x \<and> x < a + 2" if "a mod 4 = 2"
  proof -
    have A: "a = 4 * (a div 4) + 2" using that by presburger
    show ?thesis unfolding d by (subst (2 3) A) (unfold x(1), rule aux)
  qed
qed

lemma split_addr_cases:
  "(\<exists>w bas. split_addr addr kind = Inr (w, bas) \<and> unat addr mod kind_size kind = 0 \<and>
            (\<forall>pc. hw_hit w bas pc \<longleftrightarrow> in_range addr (kind_size kind) pc)) \<or>
   split_addr addr kind = Inl NotAlignedCorrectly \<and> unat addr mod kind_size kind \<noteq> 0"
proof (cases "unat addr mod kind_size kind = 0")
  case False
  then show ?thesis by (cases kind) (auto simp: split_addr_def kind_size_def Let_def)
next
  case True
  define a where "a = unat addr"
  have k: "kind_size kind \<in> {2, 4}" by (simp add: kind_size_def)
  have "unat addr + (kind_size kind - 1) < 2 ^ 32"
    by (rule aligned_no_wrap [OF True]) (use k in auto)
  then have range: "in_range addr (kind_size kind) pc \<longleftrightarrow> a \<le> unat pc \<and> unat pc < a + kind_size kind" for pc
    using k by (subst in_range_le) (auto simp: a_def)
  define w where "w = addr AND NOT 3"
  have hit: "hw_hit w bas pc \<longleftrightarrow> unat pc div 4 = a div 4 \<and> bit bas (unat pc mod 4)" for bas pc
    by (simp only: w_def hw_hit_def same_word and_three a_def)
  consider (arm) "kind = KArm32" "a mod 4 = 0" | (low) "kind \<noteq> KArm32" "a mod 4 = 0"
    | (high) "kind \<noteq> KArm32" "a mod 2 = 0" "a mod 4 \<noteq> 0"
    using True by (cases "kind = KArm32") (auto simp: kind_size_def a_def)
  then show ?thesis
  proof cases
    case arm
    have "unat pc div 4 = a div 4 \<longleftrightarrow> a \<le> unat pc \<and> unat pc < a + 4" for pc
      using arm(2) by (rule word_nat)
    moreover have "split_addr addr kind = Inr (w, 15)"
      using arm True by (simp add: split_addr_def kind_size_def w_def Let_def)
    moreover have "hw_hit w 15 pc \<longleftrightarrow> unat pc div 4 = a div 4" for pc
      unfolding hit using select_bits(1) [of "unat pc mod 4"] by simp
    ultimately show ?thesis
      using arm True range by (simp add: kind_size_def) blast
  next
    case low
    have "unat pc div 4 = a div 4 \<and> unat pc mod 4 < 2 \<longleftrightarrow> a \<le> unat pc \<and> unat pc < a + 2" for pc
      using low(2) by (rule word_nat)
    moreover have "split_addr addr kind = Inr (w, 3)"
      using low True by (cases kind) (auto simp: split_addr_def kind_size_def a_def w_def Let_def)
    moreover have "hw_hit w 3 pc \<longleftrightarrow> unat pc div 4 = a div 4 \<and> unat pc mod 4 < 2" for pc
      unfolding hit select_bits(2) by (rule refl)
    ultimately show ?thesis
      using low True range by (simp only: kind_size_def if_False) blast
  next
    case high
    have "unat pc div 4 = a div 4 \<and> 2 \<le> unat pc mod 4 \<longleftrightarrow> a \<le> unat pc \<and> unat pc < a + 2" for pc
      using high(2,3) by (intro word_nat) presburger
    moreover have "split_addr addr kind = Inr (w, 12)"
      using high True by (cases kind) (auto simp: split_addr_def kind_size_def a_def w_def Let_def)
    moreover have "hw_hit w 12 pc \<longleftrightarrow> unat pc div 4 = a div 4 \<and> 2 \<le> unat pc mod 4" for pc
      unfolding hit by (subst select_bits(3)) simp_all
    ultimately show ?thesis
      using high True range by (simp only: kind_size_def if_False) blast
  qed
qed

lemma split_addr_hit:
  assumes "unat addr mod kind_size kind = 0"
  obtains w bas where "split_addr addr kind = Inr (w, bas)"
    and "\<forall>pc. hw_hit w bas pc \<longleftrightarrow> in_range addr (kind_size kind) pc"
  using split_addr_cases [of addr kind] assms by auto


section \<open>A manager for the witnesses\<close>

text \<open>Six comparators, none in use, unlocked.\<close>

definition demo_logic :: debug_logic where
  "demo_logic = \<lparr>status_control_ext = 0, breakpoint_value = replicate 16 0, breakpoint_ctrl = replicate 16 0,
     watchpoint_value = replicate 16 0, watchpoint_ctrl = replicate 16 0, lock_status = 1\<rparr>"

definition demo_hw :: hw_manager where
  "demo_hw = \<lparr>capabilities = \<lparr>num_breakpoints = 6, num_watchpoints = 4\<rparr>, mmio = demo_logic,
     used_breakpoints = replicate 16 False\<rparr>"

lemma demo_hw_held: "i < 16 \<Longrightarrow> held demo_hw i = None"
  by (simp add: held_def demo_hw_def demo_logic_def bc_enabled_def Let_def)

lemma demo_hw_ok [simp]: "hw_inv demo_hw" "\<not> locked demo_hw" "num demo_hw = 6" "hw_keys demo_hw = {}"
proof -
  show n: "num demo_hw = 6" by (simp add: num_def demo_hw_def)
  show "hw_keys demo_hw = {}" by (auto simp: hw_keys_def n demo_hw_held)
  show "hw_inv demo_hw"
    unfolding hw_inv_def hw_wf_def books_ok_def hw_distinct_def n
    by (simp add: demo_hw_held) (simp add: demo_hw_def demo_logic_def)
  show "\<not> locked demo_hw"
    by (simp add: locked_def demo_hw_def demo_logic_def software_lock_status_def bit_1_iff)
qed

section \<open>Adding and removing\<close>

lemma hw_store_key_eq: "split_addr addr kind = Inr (w, bas) \<Longrightarrow> hw_store_key (addr, sp, kind) = hw_key sp (w, bas)"
  by (simp add: hw_store_key_def)

lemma hw_result_card:
  assumes "hw_inv h"
  shows "hw_result k h = (if k \<in> hw_keys h then Inl AlreadyExists
           else if card (hw_keys h) = num h then Inl NoSpace else Inr ())"
proof -
  have "(\<forall>i < num h. held h i \<noteq> None) \<longleftrightarrow> card (hw_keys h) = num h"
  proof
    assume c: "card (hw_keys h) = num h"
    have "{i. i < num h \<and> held h i \<noteq> None} = {..<num h}"
      by (rule card_subset_eq) (use held_count [OF assms] c in auto)
    then show "\<forall>i < num h. held h i \<noteq> None" by blast
  qed (rule all_held_card [OF assms])
  then show ?thesis by (simp only: hw_result_def)
qed



text \<open>
  A hardware breakpoint that was added can be removed again, and removing it gives back
  exactly the breakpoints that were there before; adding it twice is refused.
\<close>
lemma add_then_remove_hw:
  assumes "hw_inv h" and "\<not> locked h" and "unat addr mod kind_size kind = 0"
    and "add_breakpoint_at addr sp kind h = Inr (Inr (), h')"
  shows "add_breakpoint_at addr sp kind h' = Inr (Inl AlreadyExists, h') \<and>
         (\<exists>c h''. remove_breakpoint_at addr sp kind h' = Inr (c, h'') \<and> hw_inv h'' \<and> hw_keys h'' = hw_keys h)"
proof -
  have r: "hw_store_ready (addr, sp, kind) h" using assms(2,3) by (simp add: hw_store_ready_def kind_size_def)
  have a: "hw_store_add (addr, sp, kind) h = Inr (Inr (), h')" using assms(4) by (simp add: hw_store_add_def)
  have "hw_store_add (addr, sp, kind) h' = Inr (Inl AlreadyExists, h')"
    by (rule hw.add_twice [OF assms(1) r a])
  moreover obtain c h'' where "hw_store_del (addr, sp, kind) h' = Inr (c, h'')" "hw_inv h''" "hw_keys h'' = hw_keys h"
    by (rule hw.add_then_del [OF assms(1) r a])
  ultimately show ?thesis by (auto simp: hw_store_add_def hw_store_del_def)
qed

lemma add_then_remove_hw_witness:
  "\<exists>h' c h''. add_breakpoint_at 0x03800000 Mismatch KArm32 demo_hw = Inr (Inr (), h') \<and>
     remove_breakpoint_at 0x03800000 Mismatch KArm32 h' = Inr (c, h'') \<and> hw_keys h'' = {}"
proof -
  have k: "unat (0x03800000 :: u32) mod kind_size KArm32 = 0" by (simp add: kind_size_def)
  have sa: "split_addr 0x03800000 KArm32 = Inr (0x03800000, 15)" by (simp add: split_addr_def Let_def)
  have res: "hw_result x demo_hw = Inr ()" for x by (simp add: hw_result_card)
  obtain h' where a: "add_breakpoint_at 0x03800000 Mismatch KArm32 demo_hw = Inr (Inr (), h')"
    by (rule add_breakpoint_total [OF demo_hw_ok(1,2) sa, of Mismatch]) (simp add: res)
  show ?thesis using a add_then_remove_hw [OF demo_hw_ok(1,2) k a] by auto
qed

lemma add_hw_breakpoint_spec:
  assumes "hw_inv h" and "\<not> locked h"
  obtains b h' where "add_hw_breakpoint addr kind h = Inr (b, h')" and "hw_inv h'" and "hw_frame h h'"
    and "b \<longleftrightarrow> unat addr mod kind_size kind = 0 \<and> card (hw_keys h) + 1 < num h \<and> hw_store_key (addr, Match, kind) \<notin> hw_keys h"
    and "hw_keys h' = (if b then insert (hw_store_key (addr, Match, kind)) (hw_keys h) else hw_keys h)"
proof -
  have avail: "breakpoints_available h = Inr (of_nat (num h - card (hw_keys h)))"
    by (rule breakpoints_available_eq [OF assms(1)])
  have le: "(of_nat (num h - card (hw_keys h)) :: u8) \<le> 1 \<longleftrightarrow> num h - card (hw_keys h) \<le> 1"
    using used_count_le [OF assms(1)] by (simp add: word_le_nat_alt unat_of_nat del: of_nat_diff)
  show thesis
  proof (cases "num h - card (hw_keys h) \<le> 1 \<or> (\<exists>e. split_addr addr kind = Inl e)")
    case True
    have "add_hw_breakpoint addr kind h = Inr (False, h)"
      using avail le assms(2) True by (auto simp: add_hw_breakpoint_def add_breakpoint_at_def)
    have few: "num h - card (hw_keys h) \<le> 1 \<Longrightarrow> \<not> card (hw_keys h) + 1 < num h" by linarith
    from \<open>add_hw_breakpoint addr kind h = Inr (False, h)\<close> show thesis
      by (rule that) (use True few assms(1) split_addr_aligned [of addr kind] in \<open>auto simp: kind_size_def\<close>)
  next
    case False
    then obtain w bas where sa: "split_addr addr kind = Inr (w, bas)" by (cases "split_addr addr kind") auto
    let ?k = "hw_key Match (w, bas)"
    obtain h' where h': "add_breakpoint_at addr Match kind h = Inr (hw_result ?k h, h')" "hw_inv h'" "hw_frame h h'"
      "hw_result ?k h = Inr () \<Longrightarrow> hw_keys h' = insert ?k (hw_keys h)" "hw_result ?k h \<noteq> Inr () \<Longrightarrow> h' = h"
      by (rule add_breakpoint_total [OF assms sa, of Match]) blast
    have "hw_result ?k h = Inr () \<longleftrightarrow> ?k \<notin> hw_keys h" using False by (auto simp: hw_result_card [OF assms(1)])
    moreover have "add_hw_breakpoint addr kind h = Inr (hw_result ?k h = Inr (), h')"
      using False avail le h'(1) by (simp add: add_hw_breakpoint_def)
    ultimately show thesis
      using that [of "hw_result ?k h = Inr ()" h'] h' False sa split_addr_aligned [of addr kind]
      by (auto simp: hw_store_key_eq [OF sa] kind_size_def)
  qed
qed

text \<open>
  C25: GDB can never take the last comparator: a \<open>Z1\<close> request is accepted exactly when the
  address is aligned, the breakpoint is new and at least two comparators are free, so one stays
  free for single stepping in every state that a sequence of requests reaches.
\<close>
theorem gdb_leaves_a_comparator:
  assumes "hw_inv h" and "\<not> locked h" and "card (hw_keys h) < num h"
  shows "\<exists>b h'. add_hw_breakpoint addr kind h = Inr (b, h') \<and> hw_inv h' \<and> \<not> locked h' \<and>
           num h' = num h \<and> card (hw_keys h') < num h \<and>
           b = (unat addr mod kind_size kind = 0 \<and> card (hw_keys h) + 1 < num h \<and>
                hw_store_key (addr, Match, kind) \<notin> hw_keys h)"
proof (rule add_hw_breakpoint_spec [OF assms(1,2), of addr kind])
  fix b h'
  assume r: "add_hw_breakpoint addr kind h = Inr (b, h')" "hw_inv h'" "hw_frame h h'"
    "b \<longleftrightarrow> unat addr mod kind_size kind = 0 \<and> card (hw_keys h) + 1 < num h \<and> hw_store_key (addr, Match, kind) \<notin> hw_keys h"
    "hw_keys h' = (if b then insert (hw_store_key (addr, Match, kind)) (hw_keys h) else hw_keys h)"
  have "card (insert (hw_store_key (addr, Match, kind)) (hw_keys h)) \<le> Suc (card (hw_keys h))"
    by (rule card_insert_le_m1) simp_all
  then have "card (hw_keys h') < num h" using r(4,5) assms(3) by (auto split: if_splits)
  then show ?thesis using r assms(2) hw_frame_simps [OF r(3)] by auto
qed

theorem gdb_leaves_a_comparator_witness:
  "\<exists>h'. add_hw_breakpoint 0x03800000 KArm32 demo_hw = Inr (True, h') \<and> hw_inv h' \<and> card (hw_keys h') < 6"
  using gdb_leaves_a_comparator [OF demo_hw_ok(1,2), of "0x03800000" KArm32] 
  by (auto simp: kind_size_def)

section \<open>Resetting and setting up\<close>

definition banks_ok :: "debug_logic \<Rightarrow> bool" where
  "banks_ok d \<longleftrightarrow> length (breakpoint_value d) = 16 \<and> length (breakpoint_ctrl d) = 16 \<and>
     length (watchpoint_value d) = 16 \<and> length (watchpoint_ctrl d) = 16"

text \<open>What holds after \<open>k\<close> rounds of the two loops of \<open>reset\<close>.\<close>

definition bkpt_reset :: "hardware_capabilities \<Rightarrow> nat \<Rightarrow> hw_manager \<Rightarrow> bool" where
  "bkpt_reset c k h \<longleftrightarrow> capabilities h = c \<and> \<not> locked h \<and> banks_ok (mmio h) \<and>
     (\<forall>i < k. breakpoint_ctrl (mmio h) ! i = bc_DISABLED)"

definition wtch_reset :: "hardware_capabilities \<Rightarrow> nat \<Rightarrow> hw_manager \<Rightarrow> bool" where
  "wtch_reset c k h \<longleftrightarrow> bkpt_reset c (unat (num_breakpoints c)) h \<and>
     used_breakpoints h = replicate 16 False \<and> (\<forall>i < k. watchpoint_ctrl (mmio h) ! i = wc_DISABLED)"

lemma hw_reset_spec:
  assumes "\<not> locked h" and "banks_ok (mmio h)"
    and "unat (num_breakpoints (capabilities h)) \<le> 16" and "unat (num_watchpoints (capabilities h)) \<le> 16"
  obtains h' where "hw_reset h = Inr h'"
    and "wtch_reset (capabilities h) (unat (num_watchpoints (capabilities h))) h'"
    and "monitor_debug_mode (status_control_ext (mmio h'))"
    and "\<not> halting_debug_mode (status_control_ext (mmio h'))"
proof -
  let ?c = "capabilities h"
  have "\<exists>h1. for_each (\<lambda>idx h.
         and_then (update_mmio ''reset'' (write_breakpoint_ctrl idx bc_DISABLED) h) (\<lambda>h.
           update_mmio ''reset'' (write_breakpoint_value idx RESET_SENTINEL) h))
       [0..<unat (num_breakpoints ?c)] h = Inr h1 \<and> bkpt_reset ?c (unat (num_breakpoints ?c)) h1"
    by (rule for_each_upt)
      (use assms in \<open>auto simp: bkpt_reset_def update_mmio_def write_breakpoint_ctrl_def write_breakpoint_value_def
        when_unlocked_def locked_def banks_ok_def nth_list_update less_Suc_eq\<close>)
  then obtain h1 where h1: "for_each (\<lambda>idx h.
         and_then (update_mmio ''reset'' (write_breakpoint_ctrl idx bc_DISABLED) h) (\<lambda>h.
           update_mmio ''reset'' (write_breakpoint_value idx RESET_SENTINEL) h))
       [0..<unat (num_breakpoints ?c)] h = Inr h1" "bkpt_reset ?c (unat (num_breakpoints ?c)) h1" by blast
  let ?h1 = "h1\<lparr>used_breakpoints := replicate 16 False\<rparr>"
  have c: "capabilities h1 = ?c" using h1(2) by (simp add: bkpt_reset_def)
  have "\<exists>h2. for_each (\<lambda>idx h.
         and_then (update_mmio ''reset'' (write_watchpoint_ctrl idx wc_DISABLED) h) (\<lambda>h.
           update_mmio ''reset'' (write_watchpoint_value idx RESET_SENTINEL) h))
       [0..<unat (num_watchpoints ?c)] ?h1 = Inr h2 \<and> wtch_reset ?c (unat (num_watchpoints ?c)) h2"
    by (rule for_each_upt)
      (use assms h1(2) in \<open>auto simp: bkpt_reset_def wtch_reset_def update_mmio_def write_watchpoint_ctrl_def
        write_watchpoint_value_def when_unlocked_def locked_def banks_ok_def nth_list_update less_Suc_eq\<close>)
  then obtain h2 where h2: "for_each (\<lambda>idx h.
         and_then (update_mmio ''reset'' (write_watchpoint_ctrl idx wc_DISABLED) h) (\<lambda>h.
           update_mmio ''reset'' (write_watchpoint_value idx RESET_SENTINEL) h))
       [0..<unat (num_watchpoints ?c)] ?h1 = Inr h2" "wtch_reset ?c (unat (num_watchpoints ?c)) h2" by blast
  let ?h' = "h2\<lparr>mmio := modify_status_control_ext
           (\<lambda>c. with_monitor_debug_mode True (with_halting_debug_mode False c)) (mmio h2)\<rparr>"
  have "hw_reset h = Inr ?h'" using assms(1) h1(1) h2(1) c by (simp add: hw_reset_def Let_def)
  then show thesis
    by (rule that)
      (use h2(2) in \<open>auto simp: wtch_reset_def bkpt_reset_def banks_ok_def locked_def modify_status_control_ext_def
        when_unlocked_def monitor_debug_mode_def with_monitor_debug_mode_def halting_debug_mode_def
        with_halting_debug_mode_def\<close>)
qed

lemma wtch_reset_inv:
  assumes "wtch_reset c k h" and "0 < unat (num_breakpoints c)" and "unat (num_breakpoints c) \<le> 16"
  shows "hw_inv h" and "hw_keys h = {}"
proof -
  have "num h = unat (num_breakpoints c)" using assms(1) by (simp add: num_def wtch_reset_def bkpt_reset_def)
  moreover have "held h i = None" if "i < unat (num_breakpoints c)" for i
    using assms(1) that by (simp add: held_def wtch_reset_def bkpt_reset_def Let_def)
  ultimately show "hw_inv h" "hw_keys h = {}"
    using assms by (auto simp: hw_inv_def hw_wf_def books_ok_def hw_distinct_def hw_keys_def wtch_reset_def
        bkpt_reset_def banks_ok_def)
qed

lemma capability_count:
  assumes "unat v < 16"
  shows "unat (ucast (v :: u32) + 1 :: u8) = unat v + 1"
proof -
  have "unat (ucast v :: u8) = unat v"
    using assms by (simp add: unsigned_ucast_eq take_bit_nat_eq_self)
  then show ?thesis using assms by (simp add: unat_word_ariths(1))
qed

lemma hw_setup_full:
  assumes "lock_debug dc \<longrightarrow> invasive_debug_enable dc \<and> secure_invasive_debug_enable dc"
    and "rom_address_valid (dbgdrar regs) = Some Valid" and "self_address_valid (dbgdsar regs) = Some Valid"
    and "banks_ok (logic_at (rom_address_value (dbgdrar regs) + self_address_value (dbgdsar regs)))"
  shows "\<exists>h dc' regs'. hw_setup logic_at dc regs m = Inr (h, dc', regs', m) \<and>
           locked h \<and> hw_inv h \<and> hw_keys h = {} \<and> num h = unat (brps (dbgdidr regs)) + 1 \<and>
           (\<forall>i < unat (wrps (dbgdidr regs)) + 1. watchpoint_ctrl (mmio h) ! i = wc_DISABLED) \<and>
           monitor_debug_mode (status_control_ext (mmio h)) \<and> \<not> halting_debug_mode (status_control_ext (mmio h)) \<and>
           invasive_debug_enable dc' \<and> secure_invasive_debug_enable dc' \<and> bit (sder regs') 0 \<and>
           banks_ok (mmio h) \<and> unat (num_watchpoints (capabilities h)) \<le> 16"
proof -
  have b16: "unat (brps (dbgdidr regs)) < 16" "unat (wrps (dbgdidr regs)) < 16"
    using field_less [of 4 24 "dbgdidr regs"] field_less [of 4 28 "dbgdidr regs"] by (simp_all add: brps_def wrps_def)
  note cnt = capability_count [OF b16(1)] capability_count [OF b16(2)]
  define caps where "caps = \<lparr>num_breakpoints = ucast (brps (dbgdidr regs)) + 1, num_watchpoints = ucast (wrps (dbgdidr regs)) + 1\<rparr>"
  define h0 where "h0 = \<lparr>capabilities = caps,
      mmio = write_lock_access DEBUG_UNLOCK_MAGIC (logic_at (rom_address_value (dbgdrar regs) + self_address_value (dbgdsar regs))),
      used_breakpoints = replicate 16 False\<rparr>"
  have h0: "\<not> locked h0" "banks_ok (mmio h0)" "capabilities h0 = caps"
    using assms(4) by (simp_all add: h0_def locked_def banks_ok_def)
  have n: "unat (num_breakpoints caps) = unat (brps (dbgdidr regs)) + 1"
    "unat (num_watchpoints caps) = unat (wrps (dbgdidr regs)) + 1" using cnt by (simp_all add: caps_def)
  obtain h1 where h1: "hw_reset h0 = Inr h1" "wtch_reset caps (unat (num_watchpoints caps)) h1"
    "monitor_debug_mode (status_control_ext (mmio h1))" "\<not> halting_debug_mode (status_control_ext (mmio h1))"
    by (rule hw_reset_spec [OF h0(1,2), unfolded h0(3)]) (use n b16 in auto)
  note i1 = wtch_reset_inv [OF h1(2)]
  let ?h = "h1\<lparr>mmio := write_lock_access 0 (mmio h1)\<rparr>"
  have held: "held ?h i = held h1 i" for i by (simp add: held_def Let_def)
  have inv: "hw_inv ?h" "hw_keys ?h = {}" "num ?h = num h1"
  proof -
    show "num ?h = num h1" by (simp add: num_def)
    then show "hw_inv ?h" "hw_keys ?h = {}"
      using i1 n b16 by (simp_all add: hw_inv_def hw_wf_def books_ok_def hw_distinct_def hw_keys_def held)
  qed
  have lk: "locked ?h" by (simp add: locked_def DEBUG_UNLOCK_MAGIC_def)
  have "num ?h = unat (brps (dbgdidr regs)) + 1" using h1(2) n inv(3) by (simp add: num_def wtch_reset_def bkpt_reset_def)
  moreover have "hw_setup logic_at dc regs m =
      Inr (?h, dc\<lparr>invasive_debug_enable := True, secure_invasive_debug_enable := True\<rparr>,
           regs\<lparr>sder := with_secure_user_invasive_debug True (sder regs)\<rparr>, m)"
    using assms(1-3) h1(1) h0(1) lk
    by (auto simp: hw_setup_def with_manager_domain_access_def enable_invasive_debug_def set_locked_def Let_def
        h0_def caps_def)
  ultimately show ?thesis
    using inv lk h1(2-4) n(2) b16(2) by (auto simp: wtch_reset_def bkpt_reset_def banks_ok_def with_secure_user_invasive_debug_def)
qed

lemma hw_setup_spec:
  assumes "lock_debug dc \<longrightarrow> invasive_debug_enable dc \<and> secure_invasive_debug_enable dc"
    and "rom_address_valid (dbgdrar regs) = Some Valid" and "self_address_valid (dbgdsar regs) = Some Valid"
    and "banks_ok (logic_at (rom_address_value (dbgdrar regs) + self_address_value (dbgdsar regs)))"
  shows "\<exists>h dc' regs'. hw_setup logic_at dc regs m = Inr (h, dc', regs', m) \<and>
           locked h \<and> hw_inv h \<and> hw_keys h = {} \<and> num h = unat (brps (dbgdidr regs)) + 1 \<and>
           (\<forall>i < unat (wrps (dbgdidr regs)) + 1. watchpoint_ctrl (mmio h) ! i = wc_DISABLED) \<and>
           monitor_debug_mode (status_control_ext (mmio h)) \<and> \<not> halting_debug_mode (status_control_ext (mmio h)) \<and>
           invasive_debug_enable dc' \<and> secure_invasive_debug_enable dc' \<and> bit (sder regs') 0"
  using hw_setup_full [where m = m and logic_at = logic_at, OF assms] by blast

text \<open>
  C27: Setting up hardware debugging on a board that permits it ends with a usable manager: locked,
  its invariant established, every breakpoint comparator and every watchpoint disabled, debug events
  routed to the monitor rather than halting the processor, invasive debug enabled, and the memory
  domains as they were. No register access of it is out of range, however many comparators the
  processor reports.
\<close>
theorem setup_establishes_manager:
  assumes "lock_debug dc \<longrightarrow> invasive_debug_enable dc \<and> secure_invasive_debug_enable dc"
    and "rom_address_valid (dbgdrar regs) = Some Valid" and "self_address_valid (dbgdsar regs) = Some Valid"
    and "banks_ok (logic_at (rom_address_value (dbgdrar regs) + self_address_value (dbgdsar regs)))"
  shows "\<exists>h dc' regs'. hw_setup logic_at dc regs m = Inr (h, dc', regs', m) \<and>
           locked h \<and> hw_inv h \<and> hw_keys h = {} \<and> num h = unat (brps (dbgdidr regs)) + 1 \<and>
           (\<forall>i < unat (wrps (dbgdidr regs)) + 1. watchpoint_ctrl (mmio h) ! i = wc_DISABLED) \<and>
           monitor_debug_mode (status_control_ext (mmio h)) \<and> \<not> halting_debug_mode (status_control_ext (mmio h)) \<and>
           invasive_debug_enable dc' \<and> secure_invasive_debug_enable dc' \<and> bit (sder regs') 0"
  using assms by (rule hw_setup_spec)

theorem setup_establishes_manager_witness:
  "\<exists>h dc' regs'. hw_setup (\<lambda>_. demo_logic) \<lparr>lock_debug = False, invasive_debug_enable = False, secure_invasive_debug_enable = False\<rparr>
       \<lparr>sder = 0, dbgdidr = 0x35000000, dbgdrar = 0xf8800003, dbgdsar = 0x00010003\<rparr> demo_vmsa = Inr (h, dc', regs', demo_vmsa) \<and>
     num h = 6 \<and> hw_keys h = {} \<and> locked h"
proof -
  have v: "field 0 2 0xf8800003 = 3" "field 0 2 0x00010003 = 3" "field 24 4 0x35000000 = 5"
    by (simp_all add: field_def mask_eq_exp_minus_1 drop_bit_eq_div)
  have b: "banks_ok demo_logic" by (simp add: banks_ok_def demo_logic_def)
  show ?thesis
    using setup_establishes_manager [of "\<lparr>lock_debug = False, invasive_debug_enable = False, secure_invasive_debug_enable = False\<rparr>"
        "\<lparr>sder = 0, dbgdidr = 0x35000000, dbgdrar = 0xf8800003, dbgdsar = 0x00010003\<rparr>" "\<lambda>_. demo_logic" demo_vmsa]
    by (auto simp: rom_address_valid_def self_address_valid_def debug_valid_of_def brps_def v b)
qed

end
