(* ===== verification/Memory_Access.thy ===== *)
theory Memory_Access
  imports Cpu_Vmsa
begin

text \<open>
  \<open>src/src/gdb_target/memory.rs\<close>: the debugger's reads and writes of program memory, guarded by
  a walk over the sections of the range. The level-1 descriptors are read from memory, where the
  translation table base registers say.
\<close>

section \<open>The code\<close>

definition SECTION_SIZE :: u32 where "SECTION_SIZE = push_bit 20 1"
definition SECTION_MASK :: u32 where "SECTION_MASK = push_bit 20 (NOT 0)"

definition read_word :: "memory \<Rightarrow> u32 \<Rightarrow> u32" where
  "read_word mem a = le_word (load mem a 4)"

definition descriptor_grants :: "u32 \<Rightarrow> bool \<Rightarrow> bool" where
  "descriptor_grants descriptor write =
     (case as_section descriptor of
        None \<Rightarrow> False
      | Some s \<Rightarrow> (case access_permissions_of s of
            None \<Rightarrow> False
          | Some perms \<Rightarrow> if write then test_write perms True else test_read perms True))"

text \<open>The body of the loop up to \<open>can_access\<close>.\<close>

definition can_access :: "'m vmsa_scheme \<Rightarrow> bool \<Rightarrow> u32 \<Rightarrow> bool outcome" where
  "can_access m write check_addr =
     (let tt = for_addr check_addr m in
      and_then (lookup_l1 tt check_addr) (\<lambda>ptr.
        let descriptor = read_word (dview m) ptr in
        ok (descriptor_grants descriptor write)))"

lemma saturating_add_section:
  "check_addr < range_end \<Longrightarrow> unat check_addr < unat (saturating_add check_addr SECTION_SIZE)"
proof -
  assume "check_addr < range_end"
  then have "unat check_addr < 2 ^ 32 - 1"
    using unat_u32_less [of range_end] by (simp add: word_less_nat_alt)
  then show ?thesis by (simp add: unat_saturating_add SECTION_SIZE_def)
qed

text \<open>The loop: the new \<open>range.end\<close>.\<close>

function walk_sections :: "'m vmsa_scheme \<Rightarrow> bool \<Rightarrow> u32 \<Rightarrow> u32 \<Rightarrow> u32 outcome" where
  "walk_sections m write check_addr range_end =
     (if check_addr < range_end then
        and_then (can_access m write check_addr) (\<lambda>can.
          if \<not> can then ok check_addr
          else walk_sections m write (saturating_add check_addr SECTION_SIZE) range_end)
      else ok range_end)"
  by pat_completeness auto

termination
proof (relation "measure (\<lambda>(m, write, check_addr, range_end). 2 ^ 32 - unat check_addr)", goal_cases)
  case (2 m wr check_addr range_end can)
  then show ?case
    using saturating_add_section [of check_addr range_end]
      unat_u32_less [of check_addr] by simp
qed simp

declare walk_sections.simps [simp del]

definition test_access :: "'m vmsa_scheme \<Rightarrow> u32 \<Rightarrow> u32 \<Rightarrow> bool \<Rightarrow> nat outcome" where
  "test_access m range_start range_end write =
     (let check_addr = range_start AND SECTION_MASK in
      and_then (walk_sections m write check_addr range_end) (\<lambda>range_end.
        ok (unat (saturating_sub range_end range_start))))"

text \<open>\<open>ptr::copy\<close> takes valid pointers only: a copy of some bytes from or to null is trapped.\<close>

definition assert_copy :: "u32 \<Rightarrow> nat \<Rightarrow> string \<Rightarrow> unit outcome" where
  "assert_copy addr count site = assert_that (addr \<noteq> 0 \<or> count = 0) site"

text \<open>The result is the count and the buffer, whose prefix is overwritten.\<close>

definition read_memory :: "u32 \<Rightarrow> u8 list \<Rightarrow> 'm vmsa_scheme \<Rightarrow> (nat \<times> u8 list) outcome" where
  "read_memory start_addr data m =
     (let end_addr = saturating_add start_addr (of_nat (length data)) in
      and_then (test_access m start_addr end_addr False) (\<lambda>readable_bytes.
      and_then (assert_copy start_addr readable_bytes ''read_memory: null'') (\<lambda>_.
        ok (readable_bytes, load (dview m) start_addr readable_bytes @ drop readable_bytes data))))"

definition write_memory :: "u32 \<Rightarrow> u8 list \<Rightarrow> 'm vmsa_scheme \<Rightarrow> (bool \<times> 'm vmsa_scheme) outcome" where
  "write_memory start_addr data m =
     (let end_addr = saturating_add start_addr (of_nat (length data)) in
      and_then (test_access m start_addr end_addr True) (\<lambda>writable_bytes.
        if writable_bytes < length data then ok (False, m)
        else
          and_then (assert_copy start_addr writable_bytes ''write_memory: null'') (\<lambda>_.
            ok (True, write_data start_addr data m))))"

section \<open>What the walk finds\<close>

text \<open>The specification: the permission of the section an address lies in, seen by the MMU.\<close>

definition accessible :: "'m vmsa_scheme \<Rightarrow> bool \<Rightarrow> u32 \<Rightarrow> bool" where
  "accessible m write a =
     descriptor_grants (read_word (dview m) (base_ptr (for_addr a m) + of_nat (4 * unat (drop_bit 20 a)))) write"

lemma can_access_eq: "can_access m write a = Inr (accessible m write a)"
  by (simp add: can_access_def accessible_def lookup_for_addr Let_def)

lemma accessible_section:
  assumes "unat a div 2 ^ 20 = unat b div 2 ^ 20"
  shows "accessible m write a = accessible m write b"
proof -
  have "drop_bit 20 a = drop_bit 20 b"
    using assms by (simp add: word_unat_eq_iff drop_bit_eq_div unat_div)
  then show ?thesis by (simp add: accessible_def for_addr_section [of a b m])
qed

lemma unat_section_mask: "unat (a AND SECTION_MASK) = unat a div 2 ^ 20 * 2 ^ 20"
proof -
  have "a AND SECTION_MASK = push_bit 20 (drop_bit 20 a)"
    by (rule bit_word_eqI) (auto simp: SECTION_MASK_def bit_simps)
  then have "a AND SECTION_MASK = drop_bit 20 a * 2 ^ 20" by (simp add: push_bit_eq_mult)
  moreover have "unat (drop_bit 20 a) = unat a div 2 ^ 20" by (simp add: drop_bit_eq_div unat_div)
  moreover have "unat a div 2 ^ 20 * 2 ^ 20 < 2 ^ 32"
    using unat_u32_less [of a] div_times_less_eq_dividend [of "unat a" "2 ^ 20"] by linarith
  ultimately show ?thesis using unat_mult_lem [of "drop_bit 20 a" "2 ^ 20 :: u32"] by simp
qed

lemma walk_sections_spec:
  assumes "unat check_addr mod 2 ^ 20 = 0 \<or> check_addr = - 1"
  shows "\<exists>e. walk_sections m write check_addr range_end = Inr e \<and> unat e \<le> unat range_end \<and>
           (\<forall>x. unat check_addr \<le> unat x \<and> unat x < unat e \<longrightarrow> accessible m write x) \<and>
           (e = range_end \<or> unat check_addr \<le> unat e \<and> \<not> accessible m write e)"
  using assms
proof (induction m "write" check_addr range_end rule: walk_sections.induct)
  case (1 m wr check_addr range_end)
  show ?case
  proof (cases "check_addr < range_end \<and> accessible m wr check_addr")
    case False
    then show ?thesis
      by (subst walk_sections.simps) (auto simp: can_access_eq word_less_nat_alt not_less)
  next
    case True
    let ?next = "saturating_add check_addr SECTION_SIZE"
    have al: "unat check_addr mod 2 ^ 20 = 0"
      using True 1(2) by (auto simp: word_less_nat_alt unat_minus_one_u32 dest: less_le_trans [OF _ less_imp_le [OF unat_u32_less]])
        (use unat_u32_less [of range_end] in \<open>simp add: unat_minus_one_u32\<close>)
    have nx: "unat ?next = min (unat check_addr + 2 ^ 20) (2 ^ 32 - 1)"
      by (simp add: unat_saturating_add SECTION_SIZE_def)
    have "unat ?next mod 2 ^ 20 = 0 \<or> ?next = - 1"
      using al nx by (auto simp: min_def word_unat_eq_iff unat_minus_one_u32)
    then obtain e where e: "walk_sections m wr ?next range_end = Inr e" "unat e \<le> unat range_end"
      "\<And>x. unat ?next \<le> unat x \<Longrightarrow> unat x < unat e \<Longrightarrow> accessible m wr x"
      "e = range_end \<or> unat ?next \<le> unat e \<and> \<not> accessible m wr e"
      using 1(1) [of True] True by (auto simp: can_access_eq)
    have "accessible m wr x" if x: "unat check_addr \<le> unat x" "unat x < unat e" for x
    proof (cases "unat ?next \<le> unat x")
      case False
      then have "unat x < unat check_addr + 2 ^ 20" using nx by linarith
      moreover obtain q where q: "unat check_addr = 2 ^ 20 * q"
        using al by (auto simp: mod_eq_0_iff_dvd elim: dvdE)
      ultimately have "unat x div 2 ^ 20 = q"
        using x(1) by (intro div_nat_eqI) simp_all
      then have "unat x div 2 ^ 20 = unat check_addr div 2 ^ 20" by (simp add: q)
      then show ?thesis using True accessible_section by blast
    qed (use e(3) x(2) in blast)
    moreover have "unat check_addr \<le> unat ?next" using unat_u32_less [of check_addr] by (simp add: nx)
    moreover have "walk_sections m wr check_addr range_end = Inr e"
      using True e(1) by (subst walk_sections.simps) (simp add: can_access_eq)
    ultimately show ?thesis using e(2,4) le_trans by blast
  qed
qed

lemma test_access_spec:
  obtains n where "test_access m s e write = Inr n" and "n \<le> unat e - unat s"
    and "\<And>k. k < n \<Longrightarrow> accessible m write (s + of_nat k)"
    and "n = unat e - unat s \<or> \<not> accessible m write (s + of_nat n)"
proof -
  let ?c = "s AND SECTION_MASK"
  have c: "unat ?c mod 2 ^ 20 = 0" "unat ?c \<le> unat s"
    unfolding unat_section_mask by simp_all
  obtain r where r: "walk_sections m write ?c e = Inr r" "unat r \<le> unat e"
    "\<And>x. unat ?c \<le> unat x \<Longrightarrow> unat x < unat r \<Longrightarrow> accessible m write x"
    "r = e \<or> unat ?c \<le> unat r \<and> \<not> accessible m write r"
    using walk_sections_spec [of ?c m "write" e] c(1) by blast
  let ?n = "unat r - unat s"
  have off: "unat (s + of_nat k) = unat s + k" if "k \<le> ?n" for k
    using that unat_u32_less [of s] unat_u32_less [of r] by (intro unat_add_u32) linarith
  have "test_access m s e write = Inr ?n" by (simp add: test_access_def r(1) unat_saturating_sub Let_def)
  moreover have "accessible m write (s + of_nat k)" if "k < ?n" for k
    by (rule r(3)) (use that off [of k] c(2) in simp_all)
  moreover have "?n = unat e - unat s \<or> \<not> accessible m write (s + of_nat ?n)"
  proof (cases "r = e")
    case False
    then have r': "unat ?c \<le> unat r" "\<not> accessible m write r" using r(4) by simp_all
    show ?thesis
    proof (cases "unat s \<le> unat r")
      case True
      then have "s + of_nat ?n = r" using off [of ?n] by (simp add: word_unat_eq_iff)
      then show ?thesis using r' by simp
    next
      case False
      have "unat s div 2 ^ 20 = unat r div 2 ^ 20"
      proof (rule antisym)
        show "unat s div 2 ^ 20 \<le> unat r div 2 ^ 20"
          using div_le_mono [OF r'(1), of "2 ^ 20"] by (simp add: unat_section_mask)
        show "unat r div 2 ^ 20 \<le> unat s div 2 ^ 20" using False by (intro div_le_mono) simp
      qed
      then have "\<not> accessible m write s" using r'(2) accessible_section by metis
      then show ?thesis using False by simp
    qed
  qed simp
  ultimately show thesis using that [of ?n] r(2) by (simp add: diff_le_mono)
qed

section \<open>A machine for the witnesses\<close>

text \<open>
  The translation table lies at 0x4000 and maps one section, 0x03800000 to 0x038fffff, with full
  access; every other descriptor is invalid.
\<close>

definition demo_ram :: vmsa where
  "demo_ram = \<lparr>dview = (\<lambda>x. if x = 0x40e0 then 0x02 else if x = 0x40e1 then 0x0c else 0), pou = (\<lambda>_. 0),
     iview = (\<lambda>_. 0), ttbcr = 0, ttbr0 = 0x4000, ttbr1 = 0, dacr = 0x55555555\<rparr>"

lemma demo_ram_for_addr: "base_ptr (for_addr a demo_ram) = 0x4000"
  by (simp add: for_addr_def demo_ram_def virtual_addr_uses_tt0_def tt0_boundary_def field_def
      ttbr_base_ptr_def upper_base_addr_mask_def mask_eq_exp_minus_1 Let_def)

lemma demo_ram_descriptor:
  "read_word (dview demo_ram) 0x40e0 = 0x0c02"
  "read_word (dview demo_ram) 0x40e4 = 0"
  by (simp_all add: read_word_def load_4 demo_ram_def push_bit_eq_mult)

lemma demo_ram_accessible:
  "drop_bit 20 a = 0x38 \<Longrightarrow> accessible demo_ram w a"
  "drop_bit 20 a = 0x39 \<Longrightarrow> \<not> accessible demo_ram w a"
  by (simp_all add: accessible_def demo_ram_for_addr demo_ram_descriptor descriptor_grants_def as_section_def
      l1_variant_def access_permissions_of_def field_def mask_eq_exp_minus_1 drop_bit_eq_div test_read_def Let_def)

section \<open>Properties\<close>

text \<open>
  The walk over the sections of a range always ends and never trips an assertion of the
  table lookup; it answers the length of the longest prefix of the range whose every byte the
  MMU grants to privileged code.
\<close>
lemma test_access_longest_prefix:
  "\<exists>n. test_access m s e write = Inr n \<and> n \<le> unat e - unat s \<and>
       {k. k < unat e - unat s \<and> (\<forall>j \<le> k. accessible m write (s + of_nat j))} = {..<n}"
proof (rule test_access_spec [of m s e "write"])
  fix n
  assume n: "test_access m s e write = Inr n" "n \<le> unat e - unat s"
    "\<And>k. k < n \<Longrightarrow> accessible m write (s + of_nat k)"
    "n = unat e - unat s \<or> \<not> accessible m write (s + of_nat n)"
  have "{k. k < unat e - unat s \<and> (\<forall>j \<le> k. accessible m write (s + of_nat j))} = {..<n}"
    using n(2-4) by (auto simp: not_less [symmetric])
  then show ?thesis using n by blast
qed

lemma test_access_longest_prefix_witness:
  "\<exists>n. test_access demo_ram 0x038ffff0 0x03900010 True = Inr n \<and> n = 16"
proof -
  obtain n where n: "test_access demo_ram 0x038ffff0 0x03900010 True = Inr n" "n \<le> 32"
    "{k. k < 32 \<and> (\<forall>j \<le> k. accessible demo_ram True (0x038ffff0 + of_nat j))} = {..<n}"
    using test_access_longest_prefix [of demo_ram "0x038ffff0" "0x03900010" True] by auto
  have in_sec: "accessible demo_ram True (0x038ffff0 + of_nat j)" if "j < 16" for j
  proof (rule demo_ram_accessible)
    have "unat (0x038ffff0 + of_nat j :: u32) = 0x038ffff0 + j"
      using that by (subst unat_add_u32) simp_all
    then show "drop_bit 20 (0x038ffff0 + of_nat j :: u32) = 0x38"
      using that by (simp add: word_unat_eq_iff drop_bit_eq_div unat_div)
  qed
  have "\<not> accessible demo_ram True (0x038ffff0 + of_nat 16)"
    using demo_ram_accessible(2) [of "0x03900000"] by (simp add: drop_bit_eq_div)
  then have "16 \<notin> {..<n}" unfolding n(3) [symmetric] by blast
  moreover have "15 \<in> {..<n}" unfolding n(3) [symmetric] using in_sec by simp
  ultimately show ?thesis using n(1) by simp
qed

lemma range_length:
  "l < 2 ^ 32 \<Longrightarrow> unat (saturating_add s (of_nat l)) - unat s = min l (2 ^ 32 - 1 - unat s)"
  by (simp add: unat_saturating_add unat_of_nat)



text \<open>
  C30: A GDB memory write is all or nothing: it answers true, and stores every byte, exactly when
  the whole range lies below the last address and each byte may be written; otherwise memory is
  unchanged. In both cases the instruction stream still sees what it saw before: a write into
  code is not synchronised with the instruction cache.
\<close>
theorem write_memory_all_or_nothing:
  assumes "start \<noteq> 0" and "length data < 2 ^ 32"
  shows "\<exists>b m'. write_memory start data m = Inr (b, m') \<and>
           b = (unat start + length data < 2 ^ 32 \<and> (\<forall>k < length data. accessible m True (start + of_nat k))) \<and>
           dview m' = (if b then store (dview m) start data else dview m) \<and>
           iview m' = iview m \<and> pou m' = pou m"
proof (rule test_access_spec [of m start "saturating_add start (of_nat (length data))" True])
  fix n
  assume n: "test_access m start (saturating_add start (of_nat (length data))) True = Inr n"
    "n \<le> unat (saturating_add start (of_nat (length data))) - unat start"
    "\<And>k. k < n \<Longrightarrow> accessible m True (start + of_nat k)"
    "n = unat (saturating_add start (of_nat (length data))) - unat start \<or> \<not> accessible m True (start + of_nat n)"
  note n' = n(2,4) [unfolded range_length [OF assms(2)]]
  let ?fits = "unat start + length data < 2 ^ 32 \<and> (\<forall>k < length data. accessible m True (start + of_nat k))"
  have "?fits \<longleftrightarrow> \<not> n < length data"
  proof
    assume "\<not> n < length data"
    then have "n = length data" "n \<le> 2 ^ 32 - 1 - unat start" using n'(1) by simp_all
    then show ?fits using n(3) unat_u32_less [of start] by simp
  next
    assume f: ?fits
    then have "n = min (length data) (2 ^ 32 - 1 - unat start) \<or> \<not> n < length data"
      using n'(2) by blast
    then show "\<not> n < length data" using f by linarith
  qed
  then show ?thesis
    using assms(1) by (simp add: write_memory_def n(1) assert_copy_def Let_def)
qed

theorem write_memory_all_or_nothing_witness:
  "\<exists>m'. write_memory 0x038fffff [1, 2] demo_ram = Inr (False, m') \<and> dview m' = dview demo_ram"
proof -
  have out: "\<not> accessible demo_ram True (0x038fffff + of_nat 1)"
    using demo_ram_accessible(2) [of "0x03900000"] by (simp add: drop_bit_eq_div)
  have no: "\<not> (\<forall>k < 2. accessible demo_ram True (0x038fffff + of_nat k))"
  proof
    assume "\<forall>k < 2. accessible demo_ram True (0x038fffff + of_nat k)"
    then have "accessible demo_ram True (0x038fffff + of_nat 1)" by (rule allE [of _ 1]) simp
    then show False using out by simp
  qed
  define d :: "u8 list" where "d = [1, 2]"
  have len: "length d = 2" by (simp add: d_def)
  obtain b m' where w: "write_memory 0x038fffff d demo_ram = Inr (b, m')"
    "b = (unat (0x038fffff :: u32) + length d < 2 ^ 32 \<and> (\<forall>k < length d. accessible demo_ram True (0x038fffff + of_nat k)))"
    "dview m' = (if b then store (dview demo_ram) 0x038fffff d else dview demo_ram)"
    using write_memory_all_or_nothing [of "0x038fffff" d demo_ram] len by auto
  have "\<not> b" unfolding w(2) len using no by blast
  then show ?thesis using w(1,3) by (simp add: d_def)
qed

end
