(* ===== verification/Registers.thy ===== *)
theory Registers
  imports Cpu_Instruction Gdb_Arch
begin

text \<open>
  The saved CPU state: \<open>DebugEventContext\<close> of \<open>src/src/exceptions/mod.rs\<close> with its wire form,
  \<open>ProgramStatus\<close> of \<open>src/src/cpu/mod.rs\<close>, access to single registers
  (\<open>src/src/gdb_target/single_register_access.rs\<close>), and the vector table switch
  (\<open>install_vectors\<close>, \<open>src/src/cpu/exception.rs\<close>).
\<close>

section \<open>The saved context\<close>

text \<open>Bit ranges of \<open>ProgramStatus\<close>: name, lowest bit, number of bits.\<close>

definition program_status_fields :: "(string \<times> nat \<times> nat) list" where
  "program_status_fields =
     [(''negative'', 31, 1), (''zero'', 30, 1), (''carry'', 29, 1), (''overflow'', 28, 1),
      (''cumulative_sat'', 27, 1), (''if_then_1_0'', 25, 2), (''jazelle'', 24, 1),
      (''gt_eq_flags'', 16, 4), (''if_then_7_2'', 10, 6), (''big_endian'', 9, 1),
      (''async_abort_disabled'', 8, 1), (''irq_disabled'', 7, 1), (''fiq_disabled'', 6, 1),
      (''thumb'', 5, 1), (''mode'', 0, 5)]"

definition ps_field :: "string \<Rightarrow> u32 \<Rightarrow> u32 option" where
  "ps_field name r = map_option (\<lambda>(lo, n). field lo n r) (map_of program_status_fields name)"

definition ps_thumb :: "u32 \<Rightarrow> bool" where
  "ps_thumb r = bit r 5"

record debug_event_context =
  cpsr :: u32
  stack_pointer :: u32
  link_register :: u32
  fpscr :: u32
  vfp_registers :: "u64 list"
  registers :: "u32 list"
  program_counter :: u32

definition context_default :: debug_event_context where
  "context_default = \<lparr>cpsr = 0, stack_pointer = 0, link_register = 0, fpscr = 0,
     vfp_registers = replicate 32 0, registers = replicate 13 0, program_counter = 0\<rparr>"

definition wf_context :: "debug_event_context \<Rightarrow> bool" where
  "wf_context c \<longleftrightarrow> length (registers c) = 13 \<and> length (vfp_registers c) = 32"

definition gdb_serialize :: "debug_event_context \<Rightarrow> u8 list" where
  "gdb_serialize c =
     concat (map (le_bytes 4) (registers c)) @
     le_bytes 4 (stack_pointer c) @ le_bytes 4 (link_register c) @ le_bytes 4 (program_counter c) @
     le_bytes 4 (cpsr c) @ concat (map (le_bytes 8) (vfp_registers c)) @ le_bytes 4 (fpscr c)"

text \<open>
  A read of \<open>n\<close> bytes, and the loop that overwrites a list of registers one after the other: a
  short input leaves the remaining ones as they were.
\<close>

definition read_bytes :: "nat \<Rightarrow> u8 list \<Rightarrow> (u8 list \<times> u8 list) option" where
  "read_bytes n bytes = (if n \<le> length bytes then Some (take n bytes, drop n bytes) else None)"

fun read_regs :: "nat \<Rightarrow> 'a::len word list \<Rightarrow> u8 list \<Rightarrow> 'a word list \<times> u8 list option" where
  "read_regs n [] bytes = ([], Some bytes)"
| "read_regs n (r # rs) bytes =
     (case read_bytes n bytes of
        None \<Rightarrow> (r # rs, None)
      | Some (left, right) \<Rightarrow>
          let (rs', rest) = read_regs n rs right in (le_word left # rs', rest))"

definition gdb_deserialize :: "u8 list \<Rightarrow> debug_event_context \<Rightarrow> debug_event_context \<times> (unit + unit)" where
  "gdb_deserialize bytes c =
     (let (rs, rest) = read_regs 4 (registers c) bytes; c = c\<lparr>registers := rs\<rparr> in
      case rest of None \<Rightarrow> (c, Inl ()) | Some bytes \<Rightarrow>
      (case read_bytes 4 bytes of None \<Rightarrow> (c, Inl ()) | Some (w, bytes) \<Rightarrow>
       let c = c\<lparr>stack_pointer := le_word w\<rparr> in
      (case read_bytes 4 bytes of None \<Rightarrow> (c, Inl ()) | Some (w, bytes) \<Rightarrow>
       let c = c\<lparr>link_register := le_word w\<rparr> in
      (case read_bytes 4 bytes of None \<Rightarrow> (c, Inl ()) | Some (w, bytes) \<Rightarrow>
       let c = c\<lparr>program_counter := le_word w\<rparr> in
      (case read_bytes 4 bytes of None \<Rightarrow> (c, Inl ()) | Some (w, bytes) \<Rightarrow>
       let c = c\<lparr>cpsr := le_word w\<rparr>;
           (ds, rest) = read_regs 8 (vfp_registers c) bytes; c = c\<lparr>vfp_registers := ds\<rparr> in
      (case rest of None \<Rightarrow> (c, Inl ()) | Some bytes \<Rightarrow>
      (case read_bytes 4 bytes of None \<Rightarrow> (c, Inl ()) | Some (w, bytes) \<Rightarrow>
       (c\<lparr>fpscr := le_word w\<rparr>, Inr ()))))))))"

definition read_instr :: "memory \<Rightarrow> debug_event_context \<Rightarrow> instruction outcome" where
  "read_instr mem c = instr_read mem (program_counter c) (ps_thumb (cpsr c))"

section \<open>Single registers\<close>

datatype target_error = NonFatal | Errno u8

text \<open>\<open>copy_from_slice\<close> into the whole buffer: the lengths must agree.\<close>

definition copy_from_slice :: "u8 list \<Rightarrow> u8 list \<Rightarrow> u8 list outcome" where
  "copy_from_slice buf bytes =
     and_then (assert_that (length buf = length bytes) ''copy_from_slice'') (\<lambda>_. ok bytes)"

definition read_reg :: "u8 list \<Rightarrow> u8 list \<Rightarrow> ((target_error + nat) \<times> u8 list) outcome" where
  "read_reg buf bytes = and_then (copy_from_slice buf bytes) (\<lambda>buf. ok (Inr (length bytes), buf))"

fun read_register ::
  "debug_event_context \<Rightarrow> arm_register_id \<Rightarrow> u8 list \<Rightarrow> ((target_error + nat) \<times> u8 list) outcome" where
  "read_register c (Gpr rid) buf =
     (if unat rid < length (registers c) then read_reg buf (le_bytes 4 (registers c ! unat rid))
      else ok (Inl NonFatal, buf))"
| "read_register c Sp buf = read_reg buf (le_bytes 4 (stack_pointer c))"
| "read_register c Lr buf = read_reg buf (le_bytes 4 (link_register c))"
| "read_register c Pc buf = read_reg buf (le_bytes 4 (program_counter c))"
| "read_register c Cpsr buf = read_reg buf (le_bytes 4 (cpsr c))"
| "read_register c (Fpr rid) buf =
     (if unat rid < length (vfp_registers c) then read_reg buf (le_bytes 8 (vfp_registers c ! unat rid))
      else ok (Inl NonFatal, buf))"
| "read_register c Fpscr buf = read_reg buf (le_bytes 4 (fpscr c))"

definition write_reg :: "nat \<Rightarrow> u8 list \<Rightarrow> ('a::len word \<Rightarrow> debug_event_context) \<Rightarrow> target_error + debug_event_context" where
  "write_reg n val assign = (if length val = n then Inr (assign (le_word val)) else Inl NonFatal)"

fun write_register ::
  "debug_event_context \<Rightarrow> arm_register_id \<Rightarrow> u8 list \<Rightarrow> target_error + debug_event_context" where
  "write_register c (Gpr rid) val =
     (if unat rid < length (registers c)
      then write_reg 4 val (\<lambda>w. c\<lparr>registers := (registers c)[unat rid := w]\<rparr>) else Inl NonFatal)"
| "write_register c Sp val = write_reg 4 val (\<lambda>w. c\<lparr>stack_pointer := w\<rparr>)"
| "write_register c Lr val = write_reg 4 val (\<lambda>w. c\<lparr>link_register := w\<rparr>)"
| "write_register c Pc val = write_reg 4 val (\<lambda>w. c\<lparr>program_counter := w\<rparr>)"
| "write_register c Cpsr val = write_reg 4 val (\<lambda>w. c\<lparr>cpsr := w\<rparr>)"
| "write_register c (Fpr rid) val =
     (if unat rid < length (vfp_registers c)
      then write_reg 8 val (\<lambda>w. c\<lparr>vfp_registers := (vfp_registers c)[unat rid := w]\<rparr>) else Inl NonFatal)"
| "write_register c Fpscr val = write_reg 4 val (\<lambda>w. c\<lparr>fpscr := w\<rparr>)"

datatype saved_register = SavedU32 u32 | SavedU64 u64

definition saved_from_le_bytes :: "u8 list \<Rightarrow> saved_register option" where
  "saved_from_le_bytes buf =
     (if length buf = 8 then Some (SavedU64 (le_word buf))
      else if length buf = 4 then Some (SavedU32 (le_word buf)) else None)"

fun unwrap_u32 :: "saved_register \<Rightarrow> u32 outcome" where
  "unwrap_u32 (SavedU32 v) = ok v"
| "unwrap_u32 (SavedU64 v) = panic ''Expected u32''"

fun unwrap_u64 :: "saved_register \<Rightarrow> u64 outcome" where
  "unwrap_u64 (SavedU64 v) = ok v"
| "unwrap_u64 (SavedU32 v) = panic ''Expected u64''"

fun saved_bytes :: "saved_register \<Rightarrow> nat" where
  "saved_bytes (SavedU32 v) = 4"
| "saved_bytes (SavedU64 v) = 8"

fun saved_write_to_buffer :: "saved_register \<Rightarrow> u8 list \<Rightarrow> u8 list outcome" where
  "saved_write_to_buffer (SavedU32 v) buf = copy_from_slice buf (le_bytes 4 v)"
| "saved_write_to_buffer (SavedU64 v) buf = copy_from_slice buf (le_bytes 8 v)"

section \<open>The exception vectors\<close>

definition vbar_new :: "u32 \<Rightarrow> u32 outcome" where
  "vbar_new addr = and_then (assert_that (addr AND 31 = 0) ''Must be aligned'') (\<lambda>_. ok addr)"

definition vbar_ptr :: "u32 \<Rightarrow> u32" where
  "vbar_ptr r = push_bit 5 (field 5 27 r)"

record vectors =
  vbar :: u32
  original_vector_addresses :: "u32 list"
  original_vector_addresses_set :: bool

definition install_vectors :: "u32 \<Rightarrow> vectors \<Rightarrow> vectors outcome" where
  "install_vectors overlay_table v =
     (let v = (if \<not> original_vector_addresses_set v then
                 v\<lparr>original_vector_addresses_set := True,
                   original_vector_addresses := map (\<lambda>i. vbar_ptr (vbar v) + of_nat (i * 4)) [0..<8]\<rparr>
               else v)
      in and_then (vbar_new overlay_table) (\<lambda>r. ok (v\<lparr>vbar := r\<rparr>)))"

section \<open>Facts\<close>

lemma length_concat_le_bytes [simp]: "length (concat (map (le_bytes n) ws)) = n * length ws"
  by (induction ws) simp_all

lemma read_bytes_append [simp]: "length bs = n \<Longrightarrow> read_bytes n (bs @ rest) = Some (bs, rest)"
  by (simp add: read_bytes_def)

lemma read_regs_roundtrip:
  assumes "\<And>w :: 'a::len word. le_word (le_bytes n w) = w" and "length rs = length ws"
  shows "read_regs n (rs :: 'a word list) (concat (map (le_bytes n) ws) @ rest) = (ws, Some rest)"
  using assms(2)
proof (induction rs arbitrary: ws)
  case (Cons r rs)
  then show ?case by (cases ws) (simp_all add: assms(1))
qed simp

lemma slice_concat:
  assumes "i < length ws"
  shows "take n (drop (n * i) (concat (map (le_bytes n) ws) @ rest)) = le_bytes n (ws ! i)"
  using assms
proof (induction ws arbitrary: i)
  case (Cons w ws)
  then show ?case by (cases i) simp_all
qed simp

lemma length_gdb_serialize: "wf_context c \<Longrightarrow> length (gdb_serialize c) = 328"
  by (simp add: gdb_serialize_def wf_context_def)

text \<open>Where the packet of all registers holds the register with a given number.\<close>

definition packet_offset :: "nat \<Rightarrow> nat" where
  "packet_offset rid =
     (if rid \<le> 15 then 4 * rid else if rid = 25 then 64
      else if rid \<le> 57 then 68 + 8 * (rid - 26) else 324)"

lemma read_regs_length: "length (fst (read_regs n rs bytes)) = length rs"
  by (induction n rs bytes rule: read_regs.induct) (auto split: option.splits prod.splits)

lemma read_regs_rest:
  "snd (read_regs n rs bytes) = (if n * length rs \<le> length bytes then Some (drop (n * length rs) bytes) else None)"
proof (induction n rs bytes rule: read_regs.induct)
  case (2 n r rs bytes)
  then show ?case
    by (cases "n \<le> length bytes") (auto simp: read_bytes_def split_beta add.commute)
qed simp

section \<open>Properties\<close>

text \<open>
  C31: The register packet loses nothing: parsing the serialisation of a context into any other
  context gives the first one back, whatever follows it in the packet, and the serialisation has
  the 328 bytes the target description promises.
\<close>
theorem context_roundtrip:
  assumes "wf_context c" and "wf_context c0"
  shows "gdb_deserialize (gdb_serialize c @ rest) c0 = (c, Inr ()) \<and> length (gdb_serialize c) = 328"
proof -
  have l: "length (registers c0) = length (registers c)" "length (vfp_registers c0) = length (vfp_registers c)"
    using assms by (simp_all add: wf_context_def)
  have "gdb_deserialize (gdb_serialize c @ rest) c0 = (c, Inr ())"
    unfolding gdb_deserialize_def gdb_serialize_def append_assoc
    by (simp add: read_regs_roundtrip l Let_def)
  then show ?thesis using length_gdb_serialize [OF assms(1)] by simp
qed

theorem context_roundtrip_witness:
  "gdb_deserialize (gdb_serialize (context_default\<lparr>program_counter := 0x03800000\<rparr>) @ [1]) context_default =
     (context_default\<lparr>program_counter := 0x03800000\<rparr>, Inr ())"
  using context_roundtrip [of "context_default\<lparr>program_counter := 0x03800000\<rparr>" context_default "[1]"]
  by (simp add: wf_context_def context_default_def)

text \<open>
  A register packet is accepted exactly when it has at least the 328 bytes of a full context;
  a shorter one is an error, and in neither case does the context lose its shape.
\<close>
lemma deserialize_accepts:
  assumes "wf_context c"
  shows "snd (gdb_deserialize bytes c) = (if 328 \<le> length bytes then Inr () else Inl ()) \<and>
         wf_context (fst (gdb_deserialize bytes c))"
proof -
  obtain rs rest where r: "read_regs 4 (registers c) bytes = (rs, rest)" by fastforce
  have rs: "length rs = 13" "rest = (if 52 \<le> length bytes then Some (drop 52 bytes) else None)"
    using read_regs_length [of 4 "registers c" bytes] read_regs_rest [of 4 "registers c" bytes] r assms
    by (simp_all add: wf_context_def)
  obtain ds rest' where d: "read_regs 8 (vfp_registers c) (drop 68 bytes) = (ds, rest')" by fastforce
  have ds: "length ds = 32" "rest' = (if 256 \<le> length bytes - 68 then Some (drop 324 bytes) else None)"
    using read_regs_length [of 8 "vfp_registers c" "drop 68 bytes"]
      read_regs_rest [of 8 "vfp_registers c" "drop 68 bytes"] d assms
    by (simp_all add: wf_context_def)
  show ?thesis
    using assms unfolding gdb_deserialize_def
    by (auto simp: r rs d ds read_bytes_def wf_context_def Let_def)
qed

lemma deserialize_accepts_witness:
  "snd (gdb_deserialize [1, 2, 3] context_default) = Inl () \<and>
   wf_context (fst (gdb_deserialize [1, 2, 3] context_default))"
  using deserialize_accepts [of context_default "[1, 2, 3]"]
  by (simp add: wf_context_def context_default_def)

text \<open>
  The two ways GDB reads registers agree: for every register number the target knows, reading
  the single register answers its size and the bytes found at that register's place in the packet
  of all registers.
\<close>
lemma single_register_matches_packet:
  assumes "from_raw_id rid = Some (reg, n)" and "wf_context c" and "length buf = n"
  shows "read_register c reg buf = Inr (Inr n, take n (drop (packet_offset rid) (gdb_serialize c)))"
proof -
  have len: "length (registers c) = 13" "length (vfp_registers c) = 32"
    using assms(2) by (simp_all add: wf_context_def)
  note defs = gdb_serialize_def read_reg_def copy_from_slice_def packet_offset_def len
  consider (gpr) "rid \<le> 12" "reg = Gpr (of_nat rid)" "n = 4"
    | (core) "rid \<in> {13, 14, 15, 25, 58}" "n = 4"
    | (fpr) "26 \<le> rid" "rid \<le> 57" "reg = Fpr (of_nat (rid - 26))" "n = 8"
    using assms(1) by (auto simp: from_raw_id_def split: if_splits)
  then show ?thesis
  proof cases
    case gpr
    then have u: "unat (of_nat rid :: u8) = rid" by (simp add: unat_of_nat)
    have "take 4 (drop (4 * rid) (gdb_serialize c)) = le_bytes 4 (registers c ! rid)"
      unfolding gdb_serialize_def by (rule slice_concat) (use gpr len in simp)
    then show ?thesis using gpr u assms(3) by (simp add: read_reg_def copy_from_slice_def packet_offset_def len)
  next
    case core
    then show ?thesis
      using assms(1,3) by (auto simp: from_raw_id_def defs)
  next
    case fpr
    then have u: "unat (of_nat (rid - 26) :: u8) = rid - 26" by (simp add: unat_of_nat del: of_nat_diff)
    have "drop 68 (gdb_serialize c) = concat (map (le_bytes 8) (vfp_registers c)) @ le_bytes 4 (fpscr c)"
      by (simp add: defs)
    then have "take 8 (drop (8 * (rid - 26)) (drop 68 (gdb_serialize c))) = le_bytes 8 (vfp_registers c ! (rid - 26))"
      using fpr len by (simp only: slice_concat)
    then have "take 8 (drop (packet_offset rid) (gdb_serialize c)) = le_bytes 8 (vfp_registers c ! (rid - 26))"
      using fpr by (simp add: packet_offset_def add.commute)
    then show ?thesis using fpr u assms(3) by (simp add: read_reg_def copy_from_slice_def len del: of_nat_diff)
  qed
qed

lemma single_register_matches_packet_witness:
  "read_register context_default (Fpr 0) [0, 0, 0, 0, 0, 0, 0, 0] =
     Inr (Inr 8, take 8 (drop 68 (gdb_serialize context_default)))"
  using single_register_matches_packet [of 26 "Fpr 0" 8 context_default "[0, 0, 0, 0, 0, 0, 0, 0]"]
  by (simp add: from_raw_id_def wf_context_def context_default_def packet_offset_def)

lemma write_reg_Inr: "write_reg n val f = Inr c \<longleftrightarrow> length val = n \<and> c = f (le_word val)"
  by (auto simp: write_reg_def)

text \<open>
  C32: A register write is local and exact: it succeeds exactly for a register that exists and a
  value of its size; the register then reads back as the bytes written, every other register reads
  as before, and the context keeps its shape.
\<close>
theorem write_register_exact:
  assumes "wf_context c" and "length val = register_size reg"
    and "case reg of Gpr i \<Rightarrow> unat i < 13 | Fpr i \<Rightarrow> unat i < 32 | _ \<Rightarrow> True"
  shows "\<exists>c'. write_register c reg val = Inr c' \<and> wf_context c' \<and>
           (\<forall>buf. length buf = register_size reg \<longrightarrow> read_register c' reg buf = Inr (Inr (register_size reg), val)) \<and>
           (\<forall>other buf. other \<noteq> reg \<longrightarrow> read_register c' other buf = read_register c other buf)"
proof -
  have len: "length (registers c) = 13" "length (vfp_registers c) = 32"
    using assms(1) by (simp_all add: wf_context_def)
  note defs = write_reg_def read_reg_def copy_from_slice_def wf_context_def len
  show ?thesis
  proof (cases reg)
    case (Gpr i)
    let ?c' = "c\<lparr>registers := (registers c)[unat i := le_word val]\<rparr>"
    have "read_register ?c' other buf = read_register c other buf" if "other \<noteq> reg" for other buf
      using that Gpr by (cases other) (auto simp: nth_list_update word_unat_eq_iff)
    then show ?thesis
      using assms Gpr by (intro exI [of _ ?c']) (auto simp: defs le_bytes_le_word_u32)
  next
    case (Fpr i)
    let ?c' = "c\<lparr>vfp_registers := (vfp_registers c)[unat i := le_word val]\<rparr>"
    have "read_register ?c' other buf = read_register c other buf" if "other \<noteq> reg" for other buf
      using that Fpr by (cases other) (auto simp: nth_list_update word_unat_eq_iff)
    then show ?thesis
      using assms Fpr by (intro exI [of _ ?c']) (auto simp: defs le_bytes_le_word_u64)
  next
    case Sp
    have "read_register (c\<lparr>stack_pointer := w\<rparr>) other buf = read_register c other buf" if "other \<noteq> Sp" for w other buf
      using that by (cases other) simp_all
    then show ?thesis using assms Sp by (auto simp: defs le_bytes_le_word_u32)
  next
    case Lr
    have "read_register (c\<lparr>link_register := w\<rparr>) other buf = read_register c other buf" if "other \<noteq> Lr" for w other buf
      using that by (cases other) simp_all
    then show ?thesis using assms Lr by (auto simp: defs le_bytes_le_word_u32)
  next
    case Pc
    have "read_register (c\<lparr>program_counter := w\<rparr>) other buf = read_register c other buf" if "other \<noteq> Pc" for w other buf
      using that by (cases other) simp_all
    then show ?thesis using assms Pc by (auto simp: defs le_bytes_le_word_u32)
  next
    case Cpsr
    have "read_register (c\<lparr>cpsr := w\<rparr>) other buf = read_register c other buf" if "other \<noteq> Cpsr" for w other buf
      using that by (cases other) simp_all
    then show ?thesis using assms Cpsr by (auto simp: defs le_bytes_le_word_u32)
  next
    case Fpscr
    have "read_register (c\<lparr>fpscr := w\<rparr>) other buf = read_register c other buf" if "other \<noteq> Fpscr" for w other buf
      using that by (cases other) simp_all
    then show ?thesis using assms Fpscr by (auto simp: defs le_bytes_le_word_u32)
  qed
qed

theorem write_register_exact_witness:
  "\<exists>c'. write_register context_default Pc [0, 0, 0x80, 3] = Inr c' \<and>
     read_register c' Pc [0, 0, 0, 0] = Inr (Inr 4, [0, 0, 0x80, 3])"
  using write_register_exact [of context_default "[0, 0, 0x80, 3]" Pc]
  by (auto simp: wf_context_def context_default_def)

text \<open>
  Installing the vectors again never loses the system's own: after any number of further
  installations the eight chained addresses are still the entries of the table that was active
  before the first one, and the overlay is in place.
\<close>
lemma install_vectors_keeps_originals:
  assumes "overlay AND 31 = 0" and "\<not> original_vector_addresses_set v"
  shows "\<exists>v'. install_vectors overlay v = Inr v' \<and> vbar v' = overlay \<and>
           original_vector_addresses v' = map (\<lambda>i. (vbar v AND NOT 31) + 4 * of_nat i) [0..<8] \<and>
           (\<forall>n. for_each (\<lambda>_. install_vectors overlay) [0..<n] v' = Inr v')"
proof -
  have "vbar_ptr r = r AND NOT (mask 5)" for r
  proof (rule bit_word_eqI)
    fix n show "bit (vbar_ptr r) n \<longleftrightarrow> bit (r AND NOT (mask 5)) n" if "n < LENGTH(32)"
      using that by (cases "5 \<le> n") (auto simp: vbar_ptr_def bit_simps bit_field)
  qed
  then have p: "vbar_ptr r = r AND NOT 31" for r by (simp add: mask_eq_exp_minus_1)
  define v' where "v' = v\<lparr>original_vector_addresses_set := True,
      original_vector_addresses := map (\<lambda>i. (vbar v AND NOT 31) + 4 * of_nat i) [0..<8], vbar := overlay\<rparr>"
  have "install_vectors overlay v = Inr v'"
    using assms by (simp add: install_vectors_def vbar_new_def p v'_def mult.commute Let_def)
  moreover have "install_vectors overlay v' = Inr v'"
    using assms by (simp add: install_vectors_def vbar_new_def v'_def)
  then have "for_each (\<lambda>_. install_vectors overlay) xs v' = Inr v'" for xs :: "nat list"
    by (induction xs) simp_all
  ultimately show ?thesis by (auto simp: v'_def)
qed

lemma install_vectors_keeps_originals_witness:
  "\<exists>v'. install_vectors 0x03800040 \<lparr>vbar = 0x100, original_vector_addresses = [], original_vector_addresses_set = False\<rparr> = Inr v' \<and>
     install_vectors 0x03800040 v' = Inr v' \<and> vbar v' = 0x03800040"
proof -
  obtain v' where v': "install_vectors 0x03800040 \<lparr>vbar = 0x100, original_vector_addresses = [], original_vector_addresses_set = False\<rparr> = Inr v'"
    "vbar v' = 0x03800040" "\<forall>n. for_each (\<lambda>_. install_vectors 0x03800040) [0..<n] v' = Inr v'"
    using install_vectors_keeps_originals [of "0x03800040" "\<lparr>vbar = 0x100, original_vector_addresses = [], original_vector_addresses_set = False\<rparr>"]
    by auto
  have "install_vectors 0x03800040 v' = Inr v'" using spec [OF v'(3), of 1] by (auto simp: and_then_Inr_iff)
  then show ?thesis using v'(1,2) by blast
qed

end
