(* ===== verification/Gdb_Target.thy ===== *)
theory Gdb_Target
  imports Sw_Breakpoints Hw_Breakpoints Memory_Access Registers
begin

text \<open>
  \<open>src/src/gdb_target/mod.rs\<close> and \<open>resume.rs\<close>: the target that \<open>gdbstub\<close> calls back into, and
  its entry to and exit from the debug monitor. The target extends the software breakpoint table,
  the machine extends the memory views and translation registers with what the monitor does to
  the scheduler and the interrupt mask.
\<close>

section \<open>State\<close>

datatype stop_reason =
    HardwareBreak | TrackedSoftwareBreak nat | UntrackedSoftwareBreak | Interrupt | Other

datatype monitor_status = Active | Exiting | ResumingProgram

record single_step =
  target_addr :: u32
  step_kind :: arm_breakpoint_kind

record v5_target = v5_breaks +
  exception_ctx :: debug_event_context
  monitor_status :: monitor_status
  stop_reason :: stop_reason
  target_hw :: hw_manager
  original_hw_lock_state :: bool
  single_step_request :: "single_step option"
  interrupt_pending :: bool
  stop_motors_on_break :: bool

text \<open>
  \<open>freertos\<close> is the feature that selects the system; \<open>suspend_depth\<close> counts the scheduler
  suspensions in force, \<open>current_task\<close> is the number FreeRTOS gives the running task.
\<close>

record machine = vmsa +
  freertos :: bool
  suspend_depth :: nat
  irq_enabled :: bool
  current_task :: nat

definition ASYNC_HALT_SENTINEL :: u32 where
  "ASYNC_HALT_SENTINEL = 0xFFFFFFFC"

definition target_new ::
  "(u32 \<Rightarrow> debug_logic) \<Rightarrow> devcfg \<Rightarrow> debug_sysregs \<Rightarrow> 'm vmsa_scheme \<Rightarrow>
   (v5_target \<times> devcfg \<times> debug_sysregs \<times> 'm vmsa_scheme) outcome" where
  "target_new logic_at dc regs m =
     and_then (hw_setup logic_at dc regs m) (\<lambda>(h, dc, regs, m).
       ok (\<lparr>breaks_paused = False, breaks = replicate 16 None, exception_ctx = context_default,
            monitor_status = ResumingProgram, stop_reason = Other, target_hw = h,
            original_hw_lock_state = False, single_step_request = None, interrupt_pending = False,
            stop_motors_on_break = False\<rparr>, dc, regs, m))"

text \<open>\<open>System::suspend_preemption\<close> and \<open>System::current_thread\<close>, for FreeRTOS and the bare system.\<close>

definition suspend_preemption :: "'m machine_scheme \<Rightarrow> 'm machine_scheme" where
  "suspend_preemption m = (if freertos m then m\<lparr>suspend_depth := suspend_depth m + 1\<rparr> else m)"

definition current_thread :: "'m machine_scheme \<Rightarrow> nat outcome" where
  "current_thread m =
     (if freertos m then and_then (assert_that (current_task m \<noteq> 0) ''Task IDs should be nonzero'') (\<lambda>_. ok (current_task m))
      else ok 1)"

section \<open>Entering and leaving\<close>

definition with_hw :: "(hw_manager \<Rightarrow> hw_manager outcome) \<Rightarrow> 't v5_target_scheme \<Rightarrow> 't v5_target_scheme outcome" where
  "with_hw f t = and_then (f (target_hw t)) (\<lambda>h. ok (t\<lparr>target_hw := h\<rparr>))"

definition classify_stop :: "'t v5_target_scheme \<Rightarrow> 't v5_target_scheme" where
  "classify_stop t =
     (let pc = program_counter (exception_ctx t) in
      t\<lparr>stop_reason :=
        (case last_break_reason (target_hw t) of
           Some Breakpoint \<Rightarrow> if interrupt_pending t then Interrupt else HardwareBreak
         | Some BkptInstr \<Rightarrow>
             (case query_sw_breakpoint pc t of
                Some i \<Rightarrow> TrackedSoftwareBreak i
              | None \<Rightarrow> UntrackedSoftwareBreak)
         | _ \<Rightarrow> Other)\<rparr>)"

definition finalize_single_step :: "'t v5_target_scheme \<Rightarrow> 't v5_target_scheme outcome" where
  "finalize_single_step t =
     (let request = single_step_request t; t = t\<lparr>single_step_request := None\<rparr> in
      case request of
        None \<Rightarrow> ok t
      | Some single_step \<Rightarrow>
          with_hw (\<lambda>h. and_then (remove_breakpoint_at (target_addr single_step) Mismatch (step_kind single_step) h)
            (\<lambda>(_, h). ok h)) t)"

definition finalize_interrupt :: "'t v5_target_scheme \<Rightarrow> 't v5_target_scheme outcome" where
  "finalize_interrupt t =
     (if interrupt_pending t then
        and_then (with_hw (\<lambda>h. and_then (remove_breakpoint_at ASYNC_HALT_SENTINEL Mismatch KArm32 h) (\<lambda>(_, h). ok h)) t)
          (\<lambda>t. ok (t\<lparr>interrupt_pending := False\<rparr>))
      else ok t)"

definition fixup_manual_bkpt :: "memory \<Rightarrow> 't v5_target_scheme \<Rightarrow> 't v5_target_scheme outcome" where
  "fixup_manual_bkpt mem t =
     (if stop_reason t = UntrackedSoftwareBreak then
        and_then (read_instr mem (exception_ctx t)) (\<lambda>instr.
          let pc = program_counter (exception_ctx t) in
          and_then (assert_that (unat pc + instr_size instr < 2 ^ 32) ''fixup_manual_bkpt: overflow'') (\<lambda>_.
            ok (t\<lparr>exception_ctx := (exception_ctx t)\<lparr>program_counter := pc + of_nat (instr_size instr)\<rparr>\<rparr>)))
      else ok t)"

definition enter_breakpoint ::
  "debug_event_context \<Rightarrow> 't v5_target_scheme \<Rightarrow> 'm machine_scheme \<Rightarrow>
   (stop_reason \<times> 't v5_target_scheme \<times> 'm machine_scheme) outcome" where
  "enter_breakpoint ctx t m =
     and_then (set_breakpoints_ignored True t m) (\<lambda>(t, m).
     let m = (if single_step_request t = None then suspend_preemption m else m);
         m = m\<lparr>irq_enabled := True\<rparr>;
         t = t\<lparr>original_hw_lock_state := locked (target_hw t)\<rparr> in
     and_then (with_hw (set_locked False) t) (\<lambda>t.
     let t = t\<lparr>exception_ctx := ctx, monitor_status := Active\<rparr>;
         t = classify_stop t in
     and_then (finalize_single_step t) (\<lambda>t.
     and_then (finalize_interrupt t) (\<lambda>t.
     and_then (fixup_manual_bkpt (dview m) t) (\<lambda>t.
       ok (stop_reason t, t, m))))))"

text \<open>Whether the scheduler should be resumed, and the context to restore.\<close>

definition leave_breakpoint ::
  "'t v5_target_scheme \<Rightarrow> 'm machine_scheme \<Rightarrow>
   (bool \<times> debug_event_context \<times> 't v5_target_scheme \<times> 'm machine_scheme) outcome" where
  "leave_breakpoint t m =
     (let ctx = exception_ctx t;
          should_unpause_scheduler = (single_step_request t = None) in
      and_then (with_hw (set_locked (original_hw_lock_state t)) t) (\<lambda>t.
      and_then (set_breakpoints_ignored False t m) (\<lambda>(t, m).
        ok (should_unpause_scheduler, ctx, t, m))))"

text \<open>The end of \<open>catch_debug_event\<close> in \<open>overlay.s\<close>: mask interrupts, resume the scheduler if asked to.\<close>

definition overlay_restore :: "bool \<Rightarrow> 'm machine_scheme \<Rightarrow> 'm machine_scheme" where
  "overlay_restore should_unpause m =
     (let m = m\<lparr>irq_enabled := False\<rparr> in
      if freertos m \<and> should_unpause then m\<lparr>suspend_depth := suspend_depth m - 1\<rparr> else m)"

section \<open>Stepping, interrupting, resuming\<close>

definition request_single_step ::
  "'t v5_target_scheme \<Rightarrow> ((breakpoint_error + unit) \<times> 't v5_target_scheme) outcome" where
  "request_single_step t =
     (if single_step_request t \<noteq> None then ok (Inr (), t)
      else
        let kind = (if ps_thumb (cpsr (exception_ctx t)) then KThumb16 else KArm32);
            pc = program_counter (exception_ctx t) in
        and_then (add_breakpoint_at pc Mismatch kind (target_hw t)) (\<lambda>(r, h).
          let t = t\<lparr>target_hw := h\<rparr> in
          case r of
            Inl e \<Rightarrow> ok (Inl e, t)
          | Inr _ \<Rightarrow> ok (Inr (), t\<lparr>single_step_request := Some \<lparr>target_addr = pc, step_kind = kind\<rparr>\<rparr>)))"

definition request_interrupt :: "'t v5_target_scheme \<Rightarrow> 't v5_target_scheme outcome" where
  "request_interrupt t =
     (if interrupt_pending t then ok t
      else
        let was_locked = locked (target_hw t) in
        and_then (set_locked False (target_hw t)) (\<lambda>h.
        and_then (case single_step_request t of
            None \<Rightarrow> ok h
          | Some single_step \<Rightarrow>
              and_then (remove_breakpoint_at (target_addr single_step) Mismatch (step_kind single_step) h) (\<lambda>(_, h). ok h)) (\<lambda>h.
        and_then (add_breakpoint_at ASYNC_HALT_SENTINEL Mismatch KArm32 h) (\<lambda>(result, h).
        and_then (set_locked was_locked h) (\<lambda>h.
        and_then (assert_that (result = Inr ()) ''request_interrupt: unwrap'') (\<lambda>_.
          ok (t\<lparr>target_hw := h, interrupt_pending := True\<rparr>)))))))"

definition resume :: "'t v5_target_scheme \<Rightarrow> 't v5_target_scheme" where
  "resume t = t\<lparr>monitor_status := ResumingProgram\<rparr>"

definition step :: "'t v5_target_scheme \<Rightarrow> 't v5_target_scheme outcome" where
  "step t =
     and_then (request_single_step t) (\<lambda>(r, t).
     and_then (assert_that (r = Inr ()) ''Couldn't set up single step'') (\<lambda>_.
       ok (resume t)))"

definition set_resume_action_step ::
  "nat \<Rightarrow> 'm machine_scheme \<Rightarrow> 't v5_target_scheme \<Rightarrow> 't v5_target_scheme outcome" where
  "set_resume_action_step tid m t =
     and_then (current_thread m) (\<lambda>current.
       if tid = current then
         and_then (request_single_step t) (\<lambda>(r, t).
         and_then (assert_that (r = Inr ()) ''Couldn't set up single step'') (\<lambda>_. ok t))
       else panic ''Can't single step a different thread'')"

section \<open>Reporting and base operations\<close>

datatype signal = SIGINT | SIGTRAP

datatype gdb_stop = Exited u8 | HwBreak nat | SwBreak nat | SignalWithThread signal nat

definition gdb_stop_reason :: "'m machine_scheme \<Rightarrow> 't v5_target_scheme \<Rightarrow> gdb_stop outcome" where
  "gdb_stop_reason m t =
     (if monitor_status t = Exiting then ok (Exited 0)
      else and_then (current_thread m) (\<lambda>tid.
        ok (case stop_reason t of
              HardwareBreak \<Rightarrow> HwBreak tid
            | TrackedSoftwareBreak _ \<Rightarrow> SwBreak tid
            | UntrackedSoftwareBreak \<Rightarrow> SignalWithThread SIGTRAP tid
            | Other \<Rightarrow> SignalWithThread SIGTRAP tid
            | Interrupt \<Rightarrow> SignalWithThread SIGINT tid)))"

definition read_registers :: "'t v5_target_scheme \<Rightarrow> debug_event_context" where
  "read_registers t = exception_ctx t"

definition write_registers :: "debug_event_context \<Rightarrow> 't v5_target_scheme \<Rightarrow> 't v5_target_scheme" where
  "write_registers regs t = t\<lparr>exception_ctx := regs\<rparr>"

definition EFAULT :: u8 where "EFAULT = 14"

definition read_addrs :: "u32 \<Rightarrow> u8 list \<Rightarrow> 'm vmsa_scheme \<Rightarrow> ((target_error + nat) \<times> u8 list) outcome" where
  "read_addrs start_addr data m =
     and_then (read_memory start_addr data m) (\<lambda>(bytes_read, data).
       ok (if bytes_read = 0 then Inl (Errno EFAULT) else Inr bytes_read, data))"

definition write_addrs ::
  "u32 \<Rightarrow> u8 list \<Rightarrow> 'm vmsa_scheme \<Rightarrow> ((target_error + unit) \<times> 'm vmsa_scheme) outcome" where
  "write_addrs start_addr data m =
     and_then (write_memory start_addr data m) (\<lambda>(written, m).
       ok (if written then Inr () else Inl (Errno EFAULT), m))"

text \<open>The chunk of the memory map GDB asks for; the document is a parameter.\<close>

definition memory_map_xml :: "u8 list \<Rightarrow> nat \<Rightarrow> nat \<Rightarrow> u8 list \<Rightarrow> (nat \<times> u8 list) outcome" where
  "memory_map_xml memory_map offset len buf =
     (if offset > length memory_map then ok (0, buf)
      else
        let slice = drop offset memory_map;
            count = min (length slice) len in
        and_then (assert_that (count \<le> length buf) ''memory_map_xml: buf'') (\<lambda>_.
          ok (count, take count slice @ drop count buf)))"

section \<open>Frames\<close>

text \<open>What an operation on the prefix of a state leaves alone.\<close>

lemma machine_more:
  assumes "caches.more (m :: 'm machine_scheme) = caches.more m'"
  shows "freertos m = freertos m'" "suspend_depth m = suspend_depth m'" "irq_enabled m = irq_enabled m'"
    "current_task m = current_task m'"
  using assms by (cases m; cases m'; simp)+

lemma target_more:
  assumes "v5_breaks.more (t :: 't v5_target_scheme) = v5_breaks.more t'"
  shows "target_hw t = target_hw t'" "single_step_request t = single_step_request t'"
    "interrupt_pending t = interrupt_pending t'" "exception_ctx t = exception_ctx t'"
    "monitor_status t = monitor_status t'"
  using assms by (cases t; cases t'; simp)+

end
