(* ===== verification/Target_Properties.thy ===== *)
theory Target_Properties
  imports Gdb_Target Sw_Properties Hw_Properties
begin

text \<open>
  The invariant of the target (\<open>gdb_target/mod.rs\<close>) and the properties of entering, leaving,
  stepping and interrupting. The invariant ties the target's flags to the comparators: besides the
  breakpoints GDB asked for, of which there is always one fewer than there are comparators, the
  only comparator in use is the one of a pending step or interrupt. It also accounts for the
  scheduler: exactly one suspension is the debugger's while the monitor runs or a step is pending.
\<close>

section \<open>The invariant\<close>

definition is_match :: "hw_bkpt \<Rightarrow> bool" where
  "is_match k \<longleftrightarrow> fst k = Some UnlinkedInstrAddressMatch"

definition match_keys :: "hw_manager \<Rightarrow> hw_bkpt set" where
  "match_keys h = {k \<in> hw_keys h. is_match k}"

definition step_keys :: "hw_manager \<Rightarrow> hw_bkpt set" where
  "step_keys h = {k \<in> hw_keys h. \<not> is_match k}"

definition step_key :: "single_step \<Rightarrow> hw_bkpt" where
  "step_key r = hw_store_key (target_addr r, Mismatch, step_kind r)"

definition sentinel_key :: hw_bkpt where
  "sentinel_key = hw_store_key (ASYNC_HALT_SENTINEL, Mismatch, KArm32)"

definition pending_keys :: "'t v5_target_scheme \<Rightarrow> hw_bkpt set" where
  "pending_keys t =
     (if interrupt_pending t then {sentinel_key}
      else case single_step_request t of None \<Rightarrow> {} | Some r \<Rightarrow> {step_key r})"

definition step_aligned :: "single_step \<Rightarrow> bool" where
  "step_aligned r \<longleftrightarrow> unat (target_addr r) mod kind_size (step_kind r) = 0"

definition hw_target_inv :: "'t v5_target_scheme \<Rightarrow> bool" where
  "hw_target_inv t \<longleftrightarrow>
     hw_inv (target_hw t) \<and> card (match_keys (target_hw t)) < num (target_hw t) \<and>
     step_keys (target_hw t) = pending_keys t \<and>
     (\<forall>r. single_step_request t = Some r \<longrightarrow> step_aligned r) \<and>
     (breaks_paused t \<longrightarrow> \<not> locked (target_hw t) \<and> \<not> interrupt_pending t)"

definition sched_inv :: "nat \<Rightarrow> 't v5_target_scheme \<Rightarrow> 'm machine_scheme \<Rightarrow> bool" where
  "sched_inv base t m \<longleftrightarrow>
     (freertos m \<longrightarrow> suspend_depth m = base + (if breaks_paused t \<or> single_step_request t \<noteq> None then 1 else 0))"

definition target_inv :: "memory \<Rightarrow> nat \<Rightarrow> 't v5_target_scheme \<Rightarrow> 'm machine_scheme \<Rightarrow> bool" where
  "target_inv orig base t m \<longleftrightarrow>
     sw_inv orig t m \<and> hw_target_inv t \<and> sched_inv base t m \<and> wf_context (exception_ctx t)"

section \<open>Comparators under the target\<close>

definition relocked :: "bool \<Rightarrow> hw_manager \<Rightarrow> hw_manager" where
  "relocked l h = h\<lparr>mmio := write_lock_access (if l then 0 else DEBUG_UNLOCK_MAGIC) (mmio h)\<rparr>"

lemma set_locked_eq: "set_locked l h = Inr (relocked l h)"
  by (simp add: set_locked_def relocked_def locked_def DEBUG_UNLOCK_MAGIC_def)

lemma relocked_simps [simp]:
  "locked (relocked l h) = l" "num (relocked l h) = num h" "held (relocked l h) i = held h i"
  "hw_keys (relocked l h) = hw_keys h" "hw_inv (relocked l h) = hw_inv h"
  "last_break_reason (relocked l h) = last_break_reason h"
  "match_keys (relocked l h) = match_keys h" "step_keys (relocked l h) = step_keys h"
proof -
  show n: "num (relocked l h) = num h" by (simp add: num_def relocked_def)
  show c: "held (relocked l h) i = held h i" for i by (simp add: held_def relocked_def Let_def)
  show k: "hw_keys (relocked l h) = hw_keys h" by (simp add: hw_keys_def n c)
  show "hw_inv (relocked l h) = hw_inv h"
    by (simp add: hw_inv_def hw_wf_def books_ok_def hw_distinct_def n c) (simp add: relocked_def)
  show "locked (relocked l h) = l" by (simp add: locked_def relocked_def DEBUG_UNLOCK_MAGIC_def)
  show "last_break_reason (relocked l h) = last_break_reason h" by (simp add: last_break_reason_def relocked_def)
  show "match_keys (relocked l h) = match_keys h" "step_keys (relocked l h) = step_keys h"
    by (simp_all add: match_keys_def step_keys_def k)
qed

lemma key_kind:
  assumes "unat addr mod kind_size kind = 0"
  shows "is_match (hw_store_key (addr, sp, kind)) \<longleftrightarrow> sp = Match"
proof -
  obtain w bas where "split_addr addr kind = Inr (w, bas)"
    using assms split_addr_aligned [of addr kind] by (auto simp: kind_size_def)
  then show ?thesis by (cases sp) (simp_all add: hw_store_key_def hw_key_def is_match_def)
qed

lemma finite_hw_keys [simp]: "finite (hw_keys h)"
proof -
  have "hw_keys h \<subseteq> (\<lambda>i. the (held h i)) ` {..<num h}" by (force simp: hw_keys_def)
  then show ?thesis by (rule finite_subset) simp
qed

lemma hw_keys_parts:
  "hw_keys h = match_keys h \<union> step_keys h" "match_keys h \<inter> step_keys h = {}"
  "card (hw_keys h) = card (match_keys h) + card (step_keys h)"
proof -
  show u: "hw_keys h = match_keys h \<union> step_keys h" and d: "match_keys h \<inter> step_keys h = {}"
    by (auto simp: match_keys_def step_keys_def)
  have "finite (match_keys h)" "finite (step_keys h)" by (simp_all add: match_keys_def step_keys_def)
  then show "card (hw_keys h) = card (match_keys h) + card (step_keys h)"
    using card_Un_disjoint d by (subst u) blast
qed

text \<open>Removing the comparator of a step or an interrupt.\<close>

lemma remove_mismatch:
  assumes "hw_inv h" and "\<not> locked h" and al: "unat addr mod kind_size kind = 0"
  obtains b h' where "remove_breakpoint_at addr Mismatch kind h = Inr (b, h')" and "hw_inv h'"
    and "locked h' = locked h" and "num h' = num h" and "match_keys h' = match_keys h"
    and "step_keys h' = step_keys h - {hw_store_key (addr, Mismatch, kind)}"
    and "last_break_reason h' = last_break_reason h"
proof -
  obtain w bas where sa: "split_addr addr kind = Inr (w, bas)"
    using al split_addr_aligned [of addr kind] by (auto simp: kind_size_def)
  let ?k = "hw_store_key (addr, Mismatch, kind)"
  have k: "hw_key Mismatch (w, bas) = ?k" by (simp add: hw_store_key_def sa)
  obtain h' where h': "remove_breakpoint_at addr Mismatch kind h = Inr (?k \<in> hw_keys h, h')"
    "hw_frame h h'" "hw_inv h'" "hw_keys h' = hw_keys h - {?k}"
    by (rule remove_breakpoint_spec [OF assms(1,2) sa, of Mismatch, unfolded k]) blast
  have "\<not> is_match ?k" using key_kind [OF al] by simp
  then have "match_keys h' = match_keys h" "step_keys h' = step_keys h - {?k}"
    by (auto simp: match_keys_def step_keys_def h'(4))
  moreover have "last_break_reason h' = last_break_reason h"
    using h'(2) by (simp add: last_break_reason_def hw_frame_def)
  ultimately show thesis
    using that h' hw_frame_simps [OF h'(2)] by blast
qed

text \<open>Adding one when a comparator is free.\<close>

lemma add_mismatch:
  assumes "hw_inv h" and "\<not> locked h" and al: "unat addr mod kind_size kind = 0"
    and "step_keys h = {}" and "card (match_keys h) < num h"
  obtains h' where "add_breakpoint_at addr Mismatch kind h = Inr (Inr (), h')" and "hw_inv h'"
    and "locked h' = locked h" and "num h' = num h" and "match_keys h' = match_keys h"
    and "step_keys h' = {hw_store_key (addr, Mismatch, kind)}"
    and "last_break_reason h' = last_break_reason h"
proof -
  obtain w bas where sa: "split_addr addr kind = Inr (w, bas)"
    using al split_addr_aligned [of addr kind] by (auto simp: kind_size_def)
  let ?k = "hw_store_key (addr, Mismatch, kind)"
  have k: "hw_key Mismatch (w, bas) = ?k" by (simp add: hw_store_key_def sa)
  have m: "\<not> is_match ?k" using key_kind [OF al] by simp
  have "?k \<notin> step_keys h" using assms(4) by simp
  then have "?k \<notin> hw_keys h" using m by (simp add: step_keys_def)
  moreover have "card (hw_keys h) \<noteq> num h" using assms(4,5) hw_keys_parts(3) [of h] by simp
  ultimately have res: "hw_result ?k h = Inr ()" by (simp add: hw_result_card [OF assms(1)])
  obtain h' where h': "add_breakpoint_at addr Mismatch kind h = Inr (Inr (), h')" "hw_inv h'" "hw_frame h h'"
    "hw_keys h' = insert ?k (hw_keys h)"
    by (rule add_breakpoint_total [OF assms(1,2) sa, of Mismatch, unfolded k res]) blast
  have "match_keys h' = match_keys h" "step_keys h' = {?k}"
    using m assms(4) by (auto simp: match_keys_def step_keys_def h'(4))
  moreover have "last_break_reason h' = last_break_reason h"
    using h'(3) by (simp add: last_break_reason_def hw_frame_def)
  ultimately show thesis using that h' hw_frame_simps [OF h'(3)] by blast
qed

lemma sentinel_aligned: "unat ASYNC_HALT_SENTINEL mod kind_size KArm32 = 0"
  by (simp add: ASYNC_HALT_SENTINEL_def kind_size_def)

section \<open>The finalizers\<close>

text \<open>Both remove what was pending; the software table and the rest of the target are untouched.\<close>

definition same_target :: "'t v5_target_scheme \<Rightarrow> 't v5_target_scheme \<Rightarrow> bool" where
  "same_target t t' \<longleftrightarrow> breaks_paused t' = breaks_paused t \<and> breaks t' = breaks t \<and>
     exception_ctx t' = exception_ctx t \<and> monitor_status t' = monitor_status t \<and>
     stop_reason t' = stop_reason t \<and> original_hw_lock_state t' = original_hw_lock_state t \<and>
     stop_motors_on_break t' = stop_motors_on_break t"

lemma same_target_trans: "same_target t t' \<Longrightarrow> same_target t' t'' \<Longrightarrow> same_target t t''"
  by (simp add: same_target_def)

lemma finalize_single_step_spec:
  assumes "hw_inv (target_hw t)" and "\<not> locked (target_hw t)"
    and "\<forall>r. single_step_request t = Some r \<longrightarrow> step_aligned r"
  obtains t' where "finalize_single_step t = Inr t'" and "same_target t t'" and "single_step_request t' = None"
    and "interrupt_pending t' = interrupt_pending t" and "hw_inv (target_hw t')" and "\<not> locked (target_hw t')"
    and "num (target_hw t') = num (target_hw t)" and "match_keys (target_hw t') = match_keys (target_hw t)"
    and "step_keys (target_hw t') = step_keys (target_hw t) -
           (case single_step_request t of None \<Rightarrow> {} | Some r \<Rightarrow> {step_key r})"
proof (cases "single_step_request t")
  case None
  then show thesis using that [of "t\<lparr>single_step_request := None\<rparr>"] assms
    by (simp add: finalize_single_step_def same_target_def)
next
  case (Some r)
  then have al: "unat (target_addr r) mod kind_size (step_kind r) = 0" using assms(3) by (simp add: step_aligned_def)
  obtain b h' where h': "remove_breakpoint_at (target_addr r) Mismatch (step_kind r) (target_hw t) = Inr (b, h')"
    "hw_inv h'" "locked h' = locked (target_hw t)" "num h' = num (target_hw t)" "match_keys h' = match_keys (target_hw t)"
    "step_keys h' = step_keys (target_hw t) - {step_key r}"
    by (rule remove_mismatch [OF assms(1,2) al]) (simp add: step_key_def)
  show thesis
    by (rule that [of "t\<lparr>single_step_request := None, target_hw := h'\<rparr>"])
      (use assms Some h' in \<open>simp_all add: finalize_single_step_def with_hw_def same_target_def\<close>)
qed

lemma finalize_interrupt_spec:
  assumes "hw_inv (target_hw t)" and "\<not> locked (target_hw t)"
  obtains t' where "finalize_interrupt t = Inr t'" and "same_target t t'" and "\<not> interrupt_pending t'"
    and "single_step_request t' = single_step_request t" and "hw_inv (target_hw t')" and "\<not> locked (target_hw t')"
    and "num (target_hw t') = num (target_hw t)" and "match_keys (target_hw t') = match_keys (target_hw t)"
    and "step_keys (target_hw t') = step_keys (target_hw t) - (if interrupt_pending t then {sentinel_key} else {})"
proof (cases "interrupt_pending t")
  case False
  then show thesis using that [of t] assms by (simp add: finalize_interrupt_def same_target_def)
next
  case True
  obtain b h' where h': "remove_breakpoint_at ASYNC_HALT_SENTINEL Mismatch KArm32 (target_hw t) = Inr (b, h')"
    "hw_inv h'" "locked h' = locked (target_hw t)" "num h' = num (target_hw t)" "match_keys h' = match_keys (target_hw t)"
    "step_keys h' = step_keys (target_hw t) - {sentinel_key}"
    by (rule remove_mismatch [OF assms(1,2) sentinel_aligned]) (simp add: sentinel_key_def)
  show thesis
    by (rule that [of "t\<lparr>target_hw := h', interrupt_pending := False\<rparr>"])
      (use assms True h' in \<open>simp_all add: finalize_interrupt_def with_hw_def same_target_def\<close>)
qed

section \<open>Entering\<close>

text \<open>What the processor guarantees of a context it stopped in: the instruction could be fetched.\<close>

definition fetchable :: "debug_event_context \<Rightarrow> bool" where
  "fetchable ctx \<longleftrightarrow> program_counter ctx \<noteq> 0 \<and>
     unat (program_counter ctx) mod instr_align (ps_thumb (cpsr ctx)) = 0 \<and>
     unat (program_counter ctx) + 4 < 2 ^ 32"

text \<open>The classification, read off the state the stop happened in.\<close>

definition stop_class :: "u32 \<Rightarrow> 't v5_target_scheme \<Rightarrow> stop_reason" where
  "stop_class pc t =
     (case last_break_reason (target_hw t) of
        Some Breakpoint \<Rightarrow> if interrupt_pending t then Interrupt else HardwareBreak
      | Some BkptInstr \<Rightarrow>
          (case query_sw_breakpoint pc t of Some i \<Rightarrow> TrackedSoftwareBreak i | None \<Rightarrow> UntrackedSoftwareBreak)
      | _ \<Rightarrow> Other)"

lemma fixup_spec:
  assumes "fetchable (exception_ctx t)"
  obtains pc where "fixup_manual_bkpt mem t = Inr (t\<lparr>exception_ctx := (exception_ctx t)\<lparr>program_counter := pc\<rparr>\<rparr>)"
    and "if stop_reason t = UntrackedSoftwareBreak
         then unat pc = unat (program_counter (exception_ctx t)) +
                instr_size (projr (read_instr mem (exception_ctx t)))
         else pc = program_counter (exception_ctx t)"
proof (cases "stop_reason t = UntrackedSoftwareBreak")
  case False
  then show thesis using that [of "program_counter (exception_ctx t)"] by (simp add: fixup_manual_bkpt_def)
next
  case True
  let ?pc = "program_counter (exception_ctx t)"
  obtain i where i: "read_instr mem (exception_ctx t) = Inr i"
    using assms instr_read_total by (metis fetchable_def read_instr_def)
  have "unat ?pc + instr_size i < 2 ^ 32"
    using assms instr_size_bounds(3) [of i] unfolding fetchable_def by linarith
  then show thesis
    using that [of "?pc + of_nat (instr_size i)"] True i by (simp add: fixup_manual_bkpt_def unat_add_u32 Let_def)
qed

lemma wf_context_pc [simp]: "wf_context (ctx\<lparr>program_counter := pc\<rparr>) = wf_context ctx"
  by (simp add: wf_context_def)

lemma sw_inv_cong:
  "sw_inv orig t m \<Longrightarrow> breaks_paused t' = breaks_paused t \<Longrightarrow> breaks t' = breaks t \<Longrightarrow> dview m' = dview m \<Longrightarrow>
   sw_inv orig t' m'"
  by (simp add: sw_inv_def)

lemma query_addrs:
  assumes "map (map_option instr_addr) (breaks t') = map (map_option instr_addr) (breaks t)"
  shows "query_sw_breakpoint pc t' = query_sw_breakpoint pc t"
proof -
  have s: "slot_at pc x \<longleftrightarrow> map_option instr_addr x = Some pc" for x by (cases x) auto
  have "map (slot_at pc) xs = map (\<lambda>a. a = Some pc) (map (map_option instr_addr) xs)" for xs
    by (simp add: s)
  then show ?thesis
    unfolding query_sw_breakpoint_def by (intro find_index_map_cong) (simp only: assms)
qed

lemma enable_slot_addrs [simp]: "map_option instr_addr (enable_slot e s) = map_option instr_addr s"
  by (cases s) (simp_all add: enable_slot_def)

lemma enter_breakpoint_spec:
  assumes inv: "target_inv orig base t m" and run: "\<not> breaks_paused t"
    and ctx: "wf_context ctx" "fetchable ctx"
  obtains r t' m' pc where "enter_breakpoint ctx t m = Inr (r, t', m')"
    and "target_inv orig base t' m'" and "breaks_paused t'" and "single_step_request t' = None"
    and "monitor_status t' = Active" and "irq_enabled m'" and "dview m' = orig"
    and "r = stop_class (program_counter ctx) t" and "stop_reason t' = r"
    and "exception_ctx t' = ctx\<lparr>program_counter := pc\<rparr>"
    and "if r = UntrackedSoftwareBreak
         then unat pc = unat (program_counter ctx) + instr_size (projr (read_instr orig ctx))
         else pc = program_counter ctx"
    and "original_hw_lock_state t' = locked (target_hw t)"
    and "match_keys (target_hw t') = match_keys (target_hw t)"
    and "freertos m' = freertos m" and "breaks t' = map (enable_slot False) (breaks t)"
    and "stop_motors_on_break t' = stop_motors_on_break t"
proof -
  let ?h = "target_hw t"
  have sw: "sw_inv orig t m" and hw: "hw_inv ?h" "card (match_keys ?h) < num ?h" "step_keys ?h = pending_keys t"
    "\<forall>r. single_step_request t = Some r \<longrightarrow> step_aligned r"
    and sched: "sched_inv base t m"
    using inv by (auto simp: target_inv_def hw_target_inv_def)
  let ?t1 = "t\<lparr>breaks_paused := True, breaks := map (enable_slot (\<not> True)) (breaks t)\<rparr>"
  obtain m1 where m1: "set_breakpoints_ignored True t m = Inr (?t1, m1)" "sw_inv orig ?t1 m1" "maintains m m1"
    by (rule set_breakpoints_ignored_inv [OF sw])
  have dv: "dview m1 = orig"
    using m1(2) slots_state_enable [of True "breaks t"] overlay_disabled by (simp add: sw_inv_def)
  note mm = machine_more [OF m1(3) [unfolded maintains_def, THEN conjunct1]]
  let ?m2 = "(if single_step_request t = None then suspend_preemption m1 else m1)\<lparr>irq_enabled := True\<rparr>"
  define t5 where "t5 = ?t1\<lparr>original_hw_lock_state := locked ?h, target_hw := relocked False ?h, exception_ctx := ctx,
      monitor_status := Active, stop_reason := stop_class (program_counter ctx) t\<rparr>"
  have m2: "dview ?m2 = orig" "freertos ?m2 = freertos m" "irq_enabled ?m2"
    "freertos m \<Longrightarrow> suspend_depth ?m2 = base + 1"
    using sched run mm by (auto simp: dv suspend_preemption_def sched_inv_def)
  have q: "query_sw_breakpoint pc t' = query_sw_breakpoint pc t" if "breaks t' = breaks ?t1" for pc and t' :: "'a v5_target_scheme"
    by (rule query_addrs) (simp add: that)
  have cl: "classify_stop (?t1\<lparr>original_hw_lock_state := locked ?h, target_hw := relocked False ?h,
      exception_ctx := ctx, monitor_status := Active\<rparr>) = t5"
    by (simp add: classify_stop_def t5_def stop_class_def q Let_def
        split: option.splits debug_event_reason.splits)
  obtain t6 where t6: "finalize_single_step t5 = Inr t6" "same_target t5 t6" "single_step_request t6 = None"
    "interrupt_pending t6 = interrupt_pending t5" "hw_inv (target_hw t6)" "\<not> locked (target_hw t6)"
    "num (target_hw t6) = num (target_hw t5)" "match_keys (target_hw t6) = match_keys (target_hw t5)"
    "step_keys (target_hw t6) = step_keys (target_hw t5) -
           (case single_step_request t5 of None \<Rightarrow> {} | Some r \<Rightarrow> {step_key r})"
    by (rule finalize_single_step_spec [of t5]) (use hw in \<open>simp_all add: t5_def\<close>)
  obtain t7 where t7: "finalize_interrupt t6 = Inr t7" "same_target t6 t7" "\<not> interrupt_pending t7"
    "single_step_request t7 = single_step_request t6" "hw_inv (target_hw t7)" "\<not> locked (target_hw t7)"
    "num (target_hw t7) = num (target_hw t6)" "match_keys (target_hw t7) = match_keys (target_hw t6)"
    "step_keys (target_hw t7) = step_keys (target_hw t6) - (if interrupt_pending t6 then {sentinel_key} else {})"
    by (rule finalize_interrupt_spec [OF t6(5,6)])
  have same: "same_target t5 t7" using t6(2) t7(2) by (rule same_target_trans)
  have c7: "exception_ctx t7 = ctx" "stop_reason t7 = stop_class (program_counter ctx) t"
    using same by (simp_all add: same_target_def t5_def)
  have "fetchable (exception_ctx t7)" using ctx(2) c7(1) by simp
  then obtain pc where pc: "fixup_manual_bkpt orig t7 = Inr (t7\<lparr>exception_ctx := (exception_ctx t7)\<lparr>program_counter := pc\<rparr>\<rparr>)"
    "if stop_reason t7 = UntrackedSoftwareBreak
         then unat pc = unat (program_counter (exception_ctx t7)) + instr_size (projr (read_instr orig (exception_ctx t7)))
         else pc = program_counter (exception_ctx t7)"
    by (rule fixup_spec)
  let ?t' = "t7\<lparr>exception_ctx := ctx\<lparr>program_counter := pc\<rparr>\<rparr>"
  have "enter_breakpoint ctx t m = Inr (stop_class (program_counter ctx) t, ?t', ?m2)"
    using t6(1) t7(1) pc(1) c7 cl m2(1)
    by (simp add: enter_breakpoint_def m1(1) with_hw_def set_locked_eq Let_def)
  moreover have "step_keys (target_hw t7) = {}"
    using t6(4,9) t7(9) hw(3) by (auto simp: t5_def pending_keys_def split: option.splits if_splits)
  then have "target_inv orig base ?t' ?m2"
    using same t6 t7 hw(2) m2 ctx(1) m1(2) dv
    by (simp add: target_inv_def hw_target_inv_def sched_inv_def pending_keys_def same_target_def t5_def sw_inv_def)
  moreover have "breaks ?t' = map (enable_slot False) (breaks t)"
    using same by (simp add: same_target_def t5_def)
  ultimately show thesis
    using that [of "stop_class (program_counter ctx) t" ?t' ?m2 pc] same t6 t7 m2 pc(2) c7
    by (simp add: same_target_def t5_def)
qed

section \<open>Leaving, stepping, interrupting\<close>

lemma leave_breakpoint_spec:
  assumes inv: "target_inv orig base t m" and paused: "breaks_paused t"
  obtains b t' m' where "leave_breakpoint t m = Inr (b, exception_ctx t, t', m')"
    and "b \<longleftrightarrow> single_step_request t = None"
    and "target_inv orig base t' (overlay_restore b m')" and "\<not> breaks_paused t'"
    and "exception_ctx t' = exception_ctx t" and "single_step_request t' = single_step_request t"
    and "locked (target_hw t') = original_hw_lock_state t"
    and "dview m' = overlay orig (breaks t')"
    and "\<forall>x. coherent_at m x \<longrightarrow> coherent_at m' x"
    and "breaks t' = map (enable_slot True) (breaks t)" and "freertos m' = freertos m"
    and "slots_state False (breaks t')" and "hw_keys (target_hw t') = hw_keys (target_hw t)"
    and "interrupt_pending t' = interrupt_pending t"
proof -
  let ?t1 = "t\<lparr>target_hw := relocked (original_hw_lock_state t) (target_hw t)\<rparr>"
  have sw: "sw_inv orig ?t1 m" using inv by (simp add: target_inv_def sw_inv_def)
  let ?t' = "?t1\<lparr>breaks_paused := False, breaks := map (enable_slot (\<not> False)) (breaks ?t1)\<rparr>"
  obtain m' where m': "set_breakpoints_ignored False ?t1 m = Inr (?t', m')" "sw_inv orig ?t' m'" "maintains m m'"
    by (rule set_breakpoints_ignored_inv [OF sw])
  note mm = machine_more [OF m'(3) [unfolded maintains_def, THEN conjunct1]]
  have leave: "leave_breakpoint t m = Inr (single_step_request t = None, exception_ctx t, ?t', m')"
    using m'(1) by (simp add: leave_breakpoint_def with_hw_def set_locked_eq Let_def)
  have sched: "sched_inv base ?t' (overlay_restore (single_step_request t = None) m')"
    using inv paused by (auto simp: target_inv_def sched_inv_def overlay_restore_def mm Let_def)
  have "sw_inv orig ?t' (overlay_restore (single_step_request t = None) m')"
    using m'(2) by (rule sw_inv_cong) (simp_all add: overlay_restore_def Let_def)
  then have "target_inv orig base ?t' (overlay_restore (single_step_request t = None) m')"
    using inv paused sched by (simp add: target_inv_def hw_target_inv_def pending_keys_def)
  then show thesis
    using that [OF leave refl] m'(2,3) mm(1) slots_state_enable [of False "breaks t"]
    by (simp add: sw_inv_def maintains_def)
qed

lemma request_single_step_spec:
  assumes inv: "target_inv orig base t m" and paused: "breaks_paused t"
    and al: "unat (program_counter (exception_ctx t)) mod instr_align (ps_thumb (cpsr (exception_ctx t))) = 0"
  obtains t' where "request_single_step t = Inr (Inr (), t')" and "target_inv orig base t' m"
    and "breaks_paused t'" and "single_step_request t' \<noteq> None" and "exception_ctx t' = exception_ctx t"
    and "breaks t' = breaks t" and "interrupt_pending t' = interrupt_pending t"
    and "match_keys (target_hw t') = match_keys (target_hw t)"
    and "single_step_request t = None \<Longrightarrow> step_keys (target_hw t') =
      {hw_store_key (program_counter (exception_ctx t), Mismatch, if ps_thumb (cpsr (exception_ctx t)) then KThumb16 else KArm32)}"
proof (cases "single_step_request t")
  case (Some r)
  then show thesis using that [of t] inv paused by (simp add: request_single_step_def)
next
  case None
  let ?pc = "program_counter (exception_ctx t)" and ?kind = "if ps_thumb (cpsr (exception_ctx t)) then KThumb16 else KArm32"
  have al': "unat ?pc mod kind_size ?kind = 0"
    using al by (simp add: kind_size_def instr_align_def split: if_splits)
  have hw: "hw_inv (target_hw t)" "\<not> locked (target_hw t)" "step_keys (target_hw t) = {}"
    "card (match_keys (target_hw t)) < num (target_hw t)"
    using inv paused None by (auto simp: target_inv_def hw_target_inv_def pending_keys_def)
  obtain h' where h': "add_breakpoint_at ?pc Mismatch ?kind (target_hw t) = Inr (Inr (), h')" "hw_inv h'"
    "locked h' = locked (target_hw t)" "num h' = num (target_hw t)" "match_keys h' = match_keys (target_hw t)"
    "step_keys h' = {hw_store_key (?pc, Mismatch, ?kind)}"
    by (rule add_mismatch [OF hw(1,2) al' hw(3,4)])
  let ?t' = "t\<lparr>target_hw := h', single_step_request := Some \<lparr>target_addr = ?pc, step_kind = ?kind\<rparr>\<rparr>"
  have "request_single_step t = Inr (Inr (), ?t')"
    using None h'(1) by (simp add: request_single_step_def Let_def)
  moreover have "target_inv orig base ?t' m"
    using inv paused h' hw al' by (simp add: target_inv_def hw_target_inv_def sched_inv_def pending_keys_def
        step_key_def step_aligned_def sw_inv_def)
  ultimately show thesis using that [of ?t'] paused h'(5,6) by simp
qed

lemma request_interrupt_spec:
  assumes inv: "target_inv orig base t m" and run: "\<not> breaks_paused t"
  obtains t' where "request_interrupt t = Inr t'" and "target_inv orig base t' m" and "interrupt_pending t'"
    and "\<not> breaks_paused t'" and "step_keys (target_hw t') = {sentinel_key}"
    and "single_step_request t' = single_step_request t" and "locked (target_hw t') = locked (target_hw t)"
    and "match_keys (target_hw t') = match_keys (target_hw t)"
    and "last_break_reason (target_hw t') = last_break_reason (target_hw t)"
proof (cases "interrupt_pending t")
  case True
  then show thesis
    using that [of t] inv run by (simp add: request_interrupt_def target_inv_def hw_target_inv_def pending_keys_def)
next
  case False
  let ?h = "target_hw t"
  have hw: "hw_inv ?h" "card (match_keys ?h) < num ?h" "step_keys ?h = pending_keys t"
    "\<forall>r. single_step_request t = Some r \<longrightarrow> step_aligned r"
    using inv by (auto simp: target_inv_def hw_target_inv_def)
  let ?free = "case single_step_request t of None \<Rightarrow> ok (relocked False ?h) | Some r \<Rightarrow>
      and_then (remove_breakpoint_at (target_addr r) Mismatch (step_kind r) (relocked False ?h)) (\<lambda>(_, h). ok h)"
  have "\<exists>h1. ?free = Inr h1 \<and> hw_inv h1 \<and> \<not> locked h1 \<and> num h1 = num ?h \<and> match_keys h1 = match_keys ?h \<and> step_keys h1 = {} \<and>
      last_break_reason h1 = last_break_reason ?h"
  proof (cases "single_step_request t")
    case None
    then show ?thesis using hw False by (simp add: pending_keys_def)
  next
    case (Some r)
    then have al: "unat (target_addr r) mod kind_size (step_kind r) = 0" using hw(4) by (simp add: step_aligned_def)
    have u: "hw_inv (relocked False ?h)" "\<not> locked (relocked False ?h)" using hw by simp_all
    show ?thesis
      by (rule remove_mismatch [OF u al])
        (use Some hw(3) False in \<open>simp add: pending_keys_def step_key_def\<close>)
  qed
  then obtain h1 where h1: "?free = Inr h1" "hw_inv h1" "\<not> locked h1" "num h1 = num ?h"
    "match_keys h1 = match_keys ?h" "step_keys h1 = {}" "last_break_reason h1 = last_break_reason ?h" by blast
  have c: "card (match_keys h1) < num h1" using hw(2) h1(4,5) by simp
  obtain h2 where h2: "add_breakpoint_at ASYNC_HALT_SENTINEL Mismatch KArm32 h1 = Inr (Inr (), h2)" "hw_inv h2"
    "locked h2 = locked h1" "num h2 = num h1" "match_keys h2 = match_keys h1" "step_keys h2 = {sentinel_key}"
    "last_break_reason h2 = last_break_reason h1"
    by (rule add_mismatch [OF h1(2,3) sentinel_aligned h1(6) c]) (simp add: sentinel_key_def)
  let ?t' = "t\<lparr>target_hw := relocked (locked ?h) h2, interrupt_pending := True\<rparr>"
  have "request_interrupt t = Inr ?t'"
    using False h1(1) h2(1) by (simp add: request_interrupt_def set_locked_eq Let_def)
  moreover have "target_inv orig base ?t' m"
    using inv run h1 h2 c by (simp add: target_inv_def hw_target_inv_def sched_inv_def pending_keys_def sw_inv_def)
  ultimately show thesis using that [of ?t'] run h1(5,7) h2(5-7) by simp
qed

lemma disarm: "slots_state True slots \<Longrightarrow> map (enable_slot False) (map (enable_slot True) slots) = slots"
  by (induction slots) (auto simp: slots_state_def enable_slot_def split: option.splits)

lemma rearm: "slots_state False slots \<Longrightarrow> map (enable_slot True) (map (enable_slot False) slots) = slots"
  by (induction slots) (auto simp: slots_state_def enable_slot_def split: option.splits)

section \<open>A target for the witnesses\<close>

text \<open>
  The demonstration table and comparators, with the status register saying why the processor
  stopped, on a FreeRTOS machine whose program is the all-zero one.
\<close>

definition demo_hw_at :: "u32 \<Rightarrow> bool \<Rightarrow> hw_manager" where
  "demo_hw_at status l = relocked l (demo_hw\<lparr>mmio := demo_logic\<lparr>status_control_ext := status\<rparr>\<rparr>)"

definition demo_target :: "u32 \<Rightarrow> bool \<Rightarrow> v5_target" where
  "demo_target status paused =
     \<lparr>breaks_paused = paused, breaks = demo_slots (\<not> paused), exception_ctx = context_default,
      monitor_status = ResumingProgram, stop_reason = Other, target_hw = demo_hw_at status (\<not> paused),
      original_hw_lock_state = True, single_step_request = None, interrupt_pending = False,
      stop_motors_on_break = False\<rparr>"

definition demo_system :: "bool \<Rightarrow> machine" where
  "demo_system paused =
     \<lparr>dview = overlay demo_mem (demo_slots (\<not> paused)), pou = demo_mem, iview = demo_mem, ttbcr = 0, ttbr0 = 0x4000,
      ttbr1 = 0, dacr = 0, freertos = True, suspend_depth = (if paused then 1 else 0), irq_enabled = paused,
      current_task = 7\<rparr>"

definition demo_ctx :: "u32 \<Rightarrow> debug_event_context" where
  "demo_ctx pc = context_default\<lparr>program_counter := pc\<rparr>"

lemma demo_hw_at_ok [simp]:
  "hw_inv (demo_hw_at s l)" "locked (demo_hw_at s l) = l" "num (demo_hw_at s l) = 6"
  "hw_keys (demo_hw_at s l) = {}" "match_keys (demo_hw_at s l) = {}" "step_keys (demo_hw_at s l) = {}"
  "last_break_reason (demo_hw_at s l) = method_of_entry s"
proof -
  let ?h = "demo_hw\<lparr>mmio := demo_logic\<lparr>status_control_ext := s\<rparr>\<rparr>"
  have h: "held ?h i = held demo_hw i" for i by (simp add: held_def demo_hw_def Let_def)
  have n: "num ?h = 6" by (simp add: num_def demo_hw_def)
  have k: "hw_keys ?h = {}" using demo_hw_ok(3,4) by (simp add: hw_keys_def h n)
  have i: "hw_inv ?h"
    using demo_hw_ok(1,3) by (simp add: hw_inv_def hw_wf_def books_ok_def hw_distinct_def h n)
      (simp add: demo_hw_def demo_logic_def)
  show "hw_inv (demo_hw_at s l)" "locked (demo_hw_at s l) = l" "num (demo_hw_at s l) = 6"
    "hw_keys (demo_hw_at s l) = {}" "match_keys (demo_hw_at s l) = {}" "step_keys (demo_hw_at s l) = {}"
    "last_break_reason (demo_hw_at s l) = method_of_entry s"
    using i n k by (simp_all add: demo_hw_at_def match_keys_def step_keys_def) (simp add: last_break_reason_def)
qed

lemma demo_target_inv: "target_inv demo_mem 0 (demo_target s p) (demo_system p)"
proof -
  have "sw_inv demo_mem (demo_target s p) (demo_system p)"
    using sw_inv_demo [of p] by (simp add: sw_inv_def demo_target_def demo_system_def demo_table_def demo_machine_def)
  moreover have "hw_target_inv (demo_target s p)"
    by (simp add: hw_target_inv_def demo_target_def pending_keys_def)
  ultimately show ?thesis
    by (simp add: target_inv_def sched_inv_def demo_target_def demo_system_def wf_context_def context_default_def)
qed

lemma demo_ctx_ok [simp]:
  "wf_context (demo_ctx pc)" "program_counter (demo_ctx pc) = pc"
  "fetchable (demo_ctx pc) \<longleftrightarrow> pc \<noteq> 0 \<and> unat pc mod 4 = 0 \<and> unat pc + 4 < 2 ^ 32"
  by (simp_all add: demo_ctx_def wf_context_def context_default_def fetchable_def ps_thumb_def instr_align_def)

section \<open>Properties\<close>

text \<open>
  C15: Entering the monitor always succeeds, from every state the debugger can be in and for every
  context the processor can stop in: the program's memory is unpatched, the comparator of a pending
  step or interrupt is gone, interrupts are on, the scheduler is suspended exactly once more than
  the program itself had it, and the stop is classified by the cause the debug registers report. The
  saved context is the program's, except that a \<open>bkpt\<close> of the program itself is stepped over.
\<close>
theorem enter_breakpoint_correct:
  assumes "target_inv orig base t m" and "\<not> breaks_paused t" and "wf_context ctx" and "fetchable ctx"
  shows "\<exists>t' m' pc. enter_breakpoint ctx t m = Inr (stop_class (program_counter ctx) t, t', m') \<and>
           target_inv orig base t' m' \<and> breaks_paused t' \<and> monitor_status t' = Active \<and>
           dview m' = orig \<and> irq_enabled m' \<and> freertos m' = freertos m \<and> hw_keys (target_hw t') = match_keys (target_hw t) \<and>
           exception_ctx t' = ctx\<lparr>program_counter := pc\<rparr> \<and>
           unat pc = unat (program_counter ctx) +
             (if stop_class (program_counter ctx) t = UntrackedSoftwareBreak
              then instr_size (projr (read_instr orig ctx)) else 0)"
proof (rule enter_breakpoint_spec [OF assms])
  fix r t' m' pc
  assume r: "enter_breakpoint ctx t m = Inr (r, t', m')" "target_inv orig base t' m'" "breaks_paused t'"
    "single_step_request t' = None" "monitor_status t' = Active" "irq_enabled m'" "dview m' = orig"
    "r = stop_class (program_counter ctx) t" "exception_ctx t' = ctx\<lparr>program_counter := pc\<rparr>"
    "if r = UntrackedSoftwareBreak
     then unat pc = unat (program_counter ctx) + instr_size (projr (read_instr orig ctx))
     else pc = program_counter ctx"
    "match_keys (target_hw t') = match_keys (target_hw t)" "freertos m' = freertos m"
  have "step_keys (target_hw t') = {}"
    using r(2-4) by (simp add: target_inv_def hw_target_inv_def pending_keys_def)
  then have "hw_keys (target_hw t') = match_keys (target_hw t)"
    using hw_keys_parts(1) [of "target_hw t'"] r(11) by simp
  then show ?thesis using r by (intro exI [of _ t'] exI [of _ m'] exI [of _ pc]) (auto split: if_splits)
qed

theorem enter_breakpoint_correct_witness:
  "\<exists>t' m'. enter_breakpoint (demo_ctx 0x03800000) (demo_target 12 False) (demo_system False) =
             Inr (TrackedSoftwareBreak 0, t', m') \<and> dview m' = demo_mem \<and> suspend_depth m' = 1"
proof -
  have "stop_class 0x03800000 (demo_target 12 False) = TrackedSoftwareBreak 0"
    by (simp add: stop_class_def demo_target_def method_of_entry_def field_def mask_eq_exp_minus_1 drop_bit_eq_div
        debug_event_reason_of_def query_sw_breakpoint_def demo_slots_def demo_bkpt_def)
  moreover have "\<not> breaks_paused (demo_target 12 False)" by (simp add: demo_target_def)
  ultimately obtain t' m' where r: "enter_breakpoint (demo_ctx 0x03800000) (demo_target 12 False) (demo_system False) =
             Inr (TrackedSoftwareBreak 0, t', m')" "target_inv demo_mem 0 t' m'" "breaks_paused t'" "dview m' = demo_mem"
    "freertos m' = freertos (demo_system False)"
    using enter_breakpoint_correct [OF demo_target_inv [of 12 False], of "demo_ctx 0x03800000"] by auto
  then have "freertos m'" by (simp add: demo_system_def)
  then show ?thesis using r by (auto simp: target_inv_def sched_inv_def)
qed

text \<open>
  C16: Leaving the monitor hands the program back as the user left it: the context restored is the
  saved one, with whatever was written to it; every breakpoint in the table is armed and nothing
  else differs from the program; the comparators keep what was requested and their lock is as the
  program had it. The scheduler is resumed unless a step is pending, so that after the exception
  return the debugger holds exactly the suspension a pending step needs.
\<close>
theorem leave_breakpoint_correct:
  assumes "target_inv orig base t m" and "breaks_paused t"
  shows "\<exists>t' m'. leave_breakpoint t m = Inr (single_step_request t = None, exception_ctx t, t', m') \<and>
           target_inv orig base t' (overlay_restore (single_step_request t = None) m') \<and>
           \<not> breaks_paused t' \<and> slots_state False (breaks t') \<and> dview m' = overlay orig (breaks t') \<and>
           (\<forall>x. coherent_at m x \<longrightarrow> coherent_at m' x) \<and>
           hw_keys (target_hw t') = hw_keys (target_hw t) \<and>
           locked (target_hw t') = original_hw_lock_state t"
proof (rule leave_breakpoint_spec [OF assms])
  fix b t' m'
  assume "leave_breakpoint t m = Inr (b, exception_ctx t, t', m')" "b = (single_step_request t = None)"
    "target_inv orig base t' (overlay_restore b m')" "\<not> breaks_paused t'"
    "locked (target_hw t') = original_hw_lock_state t" "dview m' = overlay orig (breaks t')"
    "\<forall>x. coherent_at m x \<longrightarrow> coherent_at m' x" "slots_state False (breaks t')"
    "hw_keys (target_hw t') = hw_keys (target_hw t)"
  then show ?thesis by (intro exI [of _ t'] exI [of _ m']) simp
qed

theorem leave_breakpoint_correct_witness:
  "\<exists>t' m'. leave_breakpoint (demo_target 12 True) (demo_system True) = Inr (True, context_default, t', m') \<and>
     dview m' = overlay demo_mem (breaks t') \<and> \<not> breaks_paused t'"
  using leave_breakpoint_correct [OF demo_target_inv [of 12 True]]
  by (auto simp: demo_target_def)

text \<open>
  C17: A stop that the user simply continues from is transparent. When no step or interrupt is
  pending and the stop is not a \<open>bkpt\<close> of the program's own, entering and leaving give back the
  same context, the same memory and breakpoint table, the same comparators and lock, and the same
  number of scheduler suspensions; only the interrupt mask is left to the exception return.
\<close>
theorem stop_and_continue_transparent:
  assumes "target_inv orig base t m" and "\<not> breaks_paused t" and "wf_context ctx" and "fetchable ctx"
    and "single_step_request t = None" and "\<not> interrupt_pending t"
    and "stop_class (program_counter ctx) t \<noteq> UntrackedSoftwareBreak"
  shows "\<exists>r t1 m1 t2 m2. enter_breakpoint ctx t m = Inr (r, t1, m1) \<and> leave_breakpoint t1 m1 = Inr (True, ctx, t2, m2) \<and>
           dview (overlay_restore True m2) = dview m \<and> breaks t2 = breaks t \<and>
           hw_keys (target_hw t2) = hw_keys (target_hw t) \<and> locked (target_hw t2) = locked (target_hw t) \<and>
           (freertos m \<longrightarrow> suspend_depth (overlay_restore True m2) = suspend_depth m)"
proof -
  let ?pc = "program_counter ctx"
  obtain t1 m1 pc where e: "enter_breakpoint ctx t m = Inr (stop_class ?pc t, t1, m1)"
    "target_inv orig base t1 m1" "breaks_paused t1" "single_step_request t1 = None"
    "exception_ctx t1 = ctx\<lparr>program_counter := pc\<rparr>" "pc = ?pc"
    "original_hw_lock_state t1 = locked (target_hw t)" "match_keys (target_hw t1) = match_keys (target_hw t)"
    "freertos m1 = freertos m" "breaks t1 = map (enable_slot False) (breaks t)"
    by (rule enter_breakpoint_spec [OF assms(1-4)]) (use assms(7) in auto)
  obtain t2 m2 where l: "leave_breakpoint t1 m1 = Inr (True, ctx, t2, m2)"
    "target_inv orig base t2 (overlay_restore True m2)" "\<not> breaks_paused t2"
    "locked (target_hw t2) = locked (target_hw t)" "dview m2 = overlay orig (breaks t2)"
    "breaks t2 = map (enable_slot True) (breaks t1)" "freertos m2 = freertos m1"
    "hw_keys (target_hw t2) = hw_keys (target_hw t1)" "single_step_request t2 = None"
    by (rule leave_breakpoint_spec [OF e(2,3)]) (use e in auto)
  have sw: "slots_state False (breaks t)" "dview m = overlay orig (breaks t)" "sched_inv base t m"
    and hw: "step_keys (target_hw t) = {}"
    using assms(1,2,5,6) by (simp_all add: target_inv_def sw_inv_def hw_target_inv_def pending_keys_def)
  have b: "breaks t2 = breaks t" unfolding l(6) e(10) using sw(1) by (rule rearm)
  have "step_keys (target_hw t1) = {}"
    using e(2-4) by (simp add: target_inv_def hw_target_inv_def pending_keys_def)
  then have k: "hw_keys (target_hw t2) = hw_keys (target_hw t)"
    using hw hw_keys_parts(1) [of "target_hw t1"] hw_keys_parts(1) [of "target_hw t"] e(8) l(8) by simp
  have "freertos m \<longrightarrow> suspend_depth (overlay_restore True m2) = suspend_depth m"
    using l(2,3,7,9) e(9) sw(3) assms(2,5) by (auto simp: target_inv_def sched_inv_def overlay_restore_def Let_def)
  then show ?thesis
    using e(1) l(1,4,5) b k sw(2) by (auto simp: overlay_restore_def Let_def)
qed

theorem stop_and_continue_transparent_witness:
  "\<exists>r t1 m1 t2 m2. enter_breakpoint (demo_ctx 0x03800000) (demo_target 12 False) (demo_system False) = Inr (r, t1, m1) \<and>
     leave_breakpoint t1 m1 = Inr (True, demo_ctx 0x03800000, t2, m2) \<and> breaks t2 = demo_slots True"
proof -
  have "stop_class 0x03800000 (demo_target 12 False) = TrackedSoftwareBreak 0"
    by (simp add: stop_class_def demo_target_def method_of_entry_def field_def mask_eq_exp_minus_1 drop_bit_eq_div
        debug_event_reason_of_def query_sw_breakpoint_def demo_slots_def demo_bkpt_def)
  then show ?thesis
    using stop_and_continue_transparent [OF demo_target_inv [of 12 False], of "demo_ctx 0x03800000"]
    by (auto simp: demo_target_def)
qed

text \<open>
  A single step can always be set up in the monitor: whatever hardware breakpoints GDB holds,
  a comparator is free, and for a program counter aligned for its instruction set the request
  succeeds, keeps the invariant, and arms a comparator that stops the processor on every instruction
  except those of the one to be stepped.
\<close>
lemma single_step_always_possible:
  assumes "target_inv orig base t m" and "breaks_paused t" and "single_step_request t = None"
    and "unat (program_counter (exception_ctx t)) mod instr_align (ps_thumb (cpsr (exception_ctx t))) = 0"
  shows "\<exists>t' w bas. step t = Inr t' \<and> target_inv orig base t' m \<and> monitor_status t' = ResumingProgram \<and>
           single_step_request t' \<noteq> None \<and> breaks_paused t' \<and> \<not> interrupt_pending t' \<and> breaks t' = breaks t \<and>
           exception_ctx t' = exception_ctx t \<and> match_keys (target_hw t') = match_keys (target_hw t) \<and>
           step_keys (target_hw t') = {(Some UnlinkedInstrAddressMismatch, w, bas)} \<and>
           (\<forall>pc. hw_hit w bas pc \<longleftrightarrow>
              in_range (program_counter (exception_ctx t)) (instr_align (ps_thumb (cpsr (exception_ctx t)))) pc)"
proof (rule request_single_step_spec [OF assms(1,2,4)])
  let ?pc = "program_counter (exception_ctx t)" and ?kind = "if ps_thumb (cpsr (exception_ctx t)) then KThumb16 else KArm32"
  fix t'
  assume r: "request_single_step t = Inr (Inr (), t')" "target_inv orig base t' m" "breaks_paused t'"
    "single_step_request t' \<noteq> None" "exception_ctx t' = exception_ctx t" "breaks t' = breaks t"
    "interrupt_pending t' = interrupt_pending t" "match_keys (target_hw t') = match_keys (target_hw t)"
    "single_step_request t = None \<Longrightarrow> step_keys (target_hw t') = {hw_store_key (?pc, Mismatch, ?kind)}"
  have k: "kind_size ?kind = instr_align (ps_thumb (cpsr (exception_ctx t)))"
    by (simp add: kind_size_def instr_align_def)
  have i: "\<not> interrupt_pending t" using assms(1,2) by (simp add: target_inv_def hw_target_inv_def)
  obtain w bas where s: "split_addr ?pc ?kind = Inr (w, bas)" "\<forall>pc. hw_hit w bas pc \<longleftrightarrow> in_range ?pc (kind_size ?kind) pc"
    using split_addr_hit [of ?pc ?kind] assms(4) k by auto
  have "target_inv orig base (resume t') m"
    using r(2) by (simp add: target_inv_def hw_target_inv_def sched_inv_def pending_keys_def sw_inv_def resume_def)
  moreover have "step_keys (target_hw (resume t')) = {(Some UnlinkedInstrAddressMismatch, w, bas)}"
    using r(9) [OF assms(3)] s(1) by (simp add: hw_store_key_def hw_key_def resume_def)
  ultimately show ?thesis
    using r(1,3-8) s(2) k i by (intro exI [of _ "resume t'"] exI [of _ w] exI [of _ bas]) (simp add: step_def, simp add: resume_def)
qed

lemma single_step_always_possible_witness:
  "\<exists>t'. step (write_registers (demo_ctx 0x03800000) (demo_target 12 True)) = Inr t' \<and> single_step_request t' \<noteq> None"
proof -
  let ?t = "write_registers (demo_ctx 0x03800000) (demo_target 12 True)"
  have "target_inv demo_mem 0 ?t (demo_system True)"
    using demo_target_inv [of 12 True]
    by (simp add: write_registers_def target_inv_def hw_target_inv_def sched_inv_def pending_keys_def sw_inv_def)
  then show ?thesis
    using single_step_always_possible [of demo_mem 0 ?t "demo_system True"]
    by (auto simp: write_registers_def demo_target_def demo_ctx_def context_default_def ps_thumb_def instr_align_def)
qed

text \<open>
  C33: A step from a program counter that is not aligned for its instruction set panics the
  debugger. GDB may write any value to the register first, so a request of the user, not a state of
  the program, ends the debug session and the program with it.
\<close>
theorem misaligned_step_panics:
  assumes "\<not> locked (target_hw t)" and "single_step_request t = None"
    and "unat (pc :: u32) mod instr_align (ps_thumb (cpsr (exception_ctx t))) \<noteq> 0" and "length val = 4" and "le_word val = pc"
  shows "\<exists>ctx. write_register (exception_ctx t) Pc val = Inr ctx \<and>
           step (write_registers ctx t) = panic ''Couldn't set up single step''"
proof -
  let ?ctx = "(exception_ctx t)\<lparr>program_counter := pc\<rparr>"
  have "split_addr pc (if ps_thumb (cpsr (exception_ctx t)) then KThumb16 else KArm32) = Inl NotAlignedCorrectly"
    using assms(3) by (cases "ps_thumb (cpsr (exception_ctx t))") (simp_all add: split_addr_def instr_align_def Let_def)
  then have "step (write_registers ?ctx t) = panic ''Couldn't set up single step''"
    using assms(1,2) by (simp add: step_def request_single_step_def write_registers_def add_breakpoint_at_def Let_def)
  moreover have "write_register (exception_ctx t) Pc val = Inr ?ctx"
    using assms(4,5) by (simp add: write_reg_def)
  ultimately show ?thesis by blast
qed

theorem misaligned_step_panics_witness:
  "\<exists>ctx. write_register (exception_ctx (demo_target 12 True)) Pc [2, 0, 0x80, 3] = Inr ctx \<and>
     step (write_registers ctx (demo_target 12 True)) = panic ''Couldn't set up single step''"
proof (rule misaligned_step_panics)
  show "\<not> locked (target_hw (demo_target 12 True))" by (simp add: demo_target_def)
  show "single_step_request (demo_target 12 True) = None" by (simp add: demo_target_def)
  show "unat (0x03800002 :: u32) mod instr_align (ps_thumb (cpsr (exception_ctx (demo_target 12 True)))) \<noteq> 0"
    by (simp add: demo_target_def context_default_def ps_thumb_def instr_align_def)
  show "le_word [2, 0, 0x80, 3] = (0x03800002 :: u32)" by (simp add: push_bit_eq_mult)
qed simp



end
