(* ===== verification/Saved_Context.thy ===== *)
theory Saved_Context
  imports Gdb_Target
begin

text \<open>
  \<open>src/src/sys/freertos/api.rs\<close>: the status FreeRTOS reports of a task, its control block and
  the register context it pushes on the task's stack when it is switched out. The control block
  and the context live in program memory; the context is laid out as the C structures are, and is
  read and written there.
\<close>

section \<open>The structures\<close>

text \<open>\<open>eTaskState\<close> is a number, of which five have a name.\<close>

definition RUNNING :: u32 where "RUNNING = 0"
definition READY :: u32 where "READY = 1"
definition BLOCKED :: u32 where "BLOCKED = 2"
definition SUSPENDED :: u32 where "SUSPENDED = 3"
definition DELETED :: u32 where "DELETED = 4"

record task_status =
  x_handle :: u32
  pc_task_name :: u32
  x_task_number :: u32
  e_current_state :: u32
  ux_current_priority :: u32
  ux_base_priority :: u32
  ul_run_time_counter :: u32
  px_stack_base :: u32
  us_stack_high_water_mark :: u16

text \<open>A pair of words of the source is the doubleword it is cast to and from.\<close>

record fpu_context =
  ctx_fpscr :: u32
  d16_d31 :: "u64 list"
  d0_d15 :: "u64 list"

record base_context =
  ul_critical_nesting :: u32
  gp_registers :: "u32 list"
  ctx_lr :: u32
  ctx_pc :: u32
  ctx_spsr :: u32

record saved_task_context =
  has_fpu_context :: u32
  fpu :: fpu_context
  base :: base_context

definition saved_context_new :: "fpu_context \<Rightarrow> base_context \<Rightarrow> saved_task_context" where
  "saved_context_new f b = \<lparr>has_fpu_context = 1, fpu = f, base = b\<rparr>"

definition wf_saved :: "saved_task_context \<Rightarrow> bool" where
  "wf_saved c \<longleftrightarrow> length (d16_d31 (fpu c)) = 16 \<and> length (d0_d15 (fpu c)) = 16 \<and> length (gp_registers (base c)) = 13"

section \<open>Layout\<close>

fun word_list :: "nat \<Rightarrow> nat \<Rightarrow> u8 list \<Rightarrow> 'a::len word list" where
  "word_list n 0 bs = []"
| "word_list n (Suc k) bs = le_word (take n bs) # word_list n k (drop n bs)"

definition CONTEXT_SIZE :: nat where
  "CONTEXT_SIZE = 332"

definition fpu_bytes :: "fpu_context \<Rightarrow> u8 list" where
  "fpu_bytes f = le_bytes 4 (ctx_fpscr f) @ concat (map (le_bytes 8) (d16_d31 f)) @ concat (map (le_bytes 8) (d0_d15 f))"

definition base_bytes :: "base_context \<Rightarrow> u8 list" where
  "base_bytes b = le_bytes 4 (ul_critical_nesting b) @ concat (map (le_bytes 4) (gp_registers b)) @
     le_bytes 4 (ctx_lr b) @ le_bytes 4 (ctx_pc b) @ le_bytes 4 (ctx_spsr b)"

definition ctx_bytes :: "saved_task_context \<Rightarrow> u8 list" where
  "ctx_bytes c = le_bytes 4 (has_fpu_context c) @ fpu_bytes (fpu c) @ base_bytes (base c)"

definition fpu_of :: "u8 list \<Rightarrow> fpu_context" where
  "fpu_of bs = \<lparr>ctx_fpscr = le_word (take 4 bs), d16_d31 = word_list 8 16 (drop 4 bs), d0_d15 = word_list 8 16 (drop 132 bs)\<rparr>"

definition base_of :: "u8 list \<Rightarrow> base_context" where
  "base_of bs = \<lparr>ul_critical_nesting = le_word (take 4 bs), gp_registers = word_list 4 13 (drop 4 bs),
     ctx_lr = le_word (take 4 (drop 56 bs)), ctx_pc = le_word (take 4 (drop 60 bs)), ctx_spsr = le_word (take 4 (drop 64 bs))\<rparr>"

definition ctx_of :: "u8 list \<Rightarrow> saved_task_context" where
  "ctx_of bs = \<lparr>has_fpu_context = le_word (take 4 bs), fpu = fpu_of (drop 4 bs), base = base_of (drop 264 bs)\<rparr>"

definition get_ctx :: "u32 \<Rightarrow> memory \<Rightarrow> saved_task_context" where
  "get_ctx p mem = ctx_of (load mem p CONTEXT_SIZE)"

text \<open>
  A write through the pointer. Assigning one field writes the others back as they are, which
  changes no byte (\<open>put_get\<close> below).
\<close>

definition put_ctx :: "u32 \<Rightarrow> saved_task_context \<Rightarrow> 'm caches_scheme \<Rightarrow> 'm caches_scheme" where
  "put_ctx p c m = write_data p (ctx_bytes c) m"

section \<open>Access to a switched-out task\<close>

text \<open>A dereference of a pointer to words: null and misaligned pointers are trapped.\<close>

definition deref_ok :: "u32 \<Rightarrow> string \<Rightarrow> unit outcome" where
  "deref_ok p site = assert_that (p \<noteq> 0 \<and> unat p mod 4 = 0) site"

definition tcb_stack_ptr :: "task_status \<Rightarrow> memory \<Rightarrow> u32 outcome" where
  "tcb_stack_ptr task mem =
     and_then (deref_ok (x_handle task) ''tcb_ptr'') (\<lambda>_. ok (read_word mem (x_handle task)))"

definition task_sp :: "task_status \<Rightarrow> memory \<Rightarrow> u32 outcome" where
  "task_sp task mem =
     and_then (tcb_stack_ptr task mem) (\<lambda>stack_ptr.
     and_then (assert_that (unat stack_ptr + CONTEXT_SIZE < 2 ^ 32) ''sp: overflow'') (\<lambda>_.
       ok (stack_ptr + of_nat CONTEXT_SIZE)))"

definition saved_context :: "task_status \<Rightarrow> memory \<Rightarrow> u32 outcome" where
  "saved_context task mem =
     and_then (tcb_stack_ptr task mem) (\<lambda>ctx.
     and_then (deref_ok ctx ''saved_context'') (\<lambda>_.
       let is_fpu = (read_word mem ctx \<noteq> 0) in
       if is_fpu then ok ctx else panic ''not implemented: tasks without fpu contexts''))"

definition set_sp :: "task_status \<Rightarrow> u32 \<Rightarrow> bool \<Rightarrow> 'm caches_scheme \<Rightarrow> 'm caches_scheme outcome" where
  "set_sp task sp update_ctx m =
     and_then (assert_that (CONTEXT_SIZE \<le> unat sp) ''set_sp: underflow'') (\<lambda>_.
       let sp = sp - of_nat CONTEXT_SIZE in
       and_then (saved_context task (dview m)) (\<lambda>old_ctx.
         let m = write_data (x_handle task) (le_bytes 4 sp) m in
         if update_ctx then
           and_then (deref_ok sp ''ptr::copy'') (\<lambda>_. ok (write_data sp (load (dview m) old_ctx CONTEXT_SIZE) m))
         else ok m))"

section \<open>Facts\<close>

lemma length_word_list [simp]: "length (word_list n k bs) = k"
  by (induction k arbitrary: bs) simp_all

lemma word_list_bytes:
  assumes "\<And>w :: 'a::len word. le_word (le_bytes n w) = w"
  shows "word_list n (length ws) (concat (map (le_bytes n) ws) @ rest) = (ws :: 'a word list)"
  by (induction ws) (simp_all add: assms)

lemma bytes_word_list:
  assumes "\<And>bs. length bs = n \<Longrightarrow> le_bytes n (le_word bs :: 'a::len word) = bs" and "n * k \<le> length bs"
  shows "concat (map (le_bytes n) (word_list n k bs :: 'a word list)) = take (n * k) bs"
  using assms(2)
proof (induction k arbitrary: bs)
  case (Suc k)
  then have "concat (map (le_bytes n) (word_list n k (drop n bs) :: 'a word list)) = take (n * k) (drop n bs)" by simp
  then show ?case using Suc.prems by (simp add: assms(1) take_add [symmetric])
qed simp

lemma length_ctx_bytes: "wf_saved c \<Longrightarrow> length (ctx_bytes c) = CONTEXT_SIZE"
  by (simp add: ctx_bytes_def fpu_bytes_def base_bytes_def wf_saved_def CONTEXT_SIZE_def)

lemma wf_ctx_of [simp]: "wf_saved (ctx_of bs)"
  by (simp add: wf_saved_def ctx_of_def fpu_of_def base_of_def)

lemma wf_get_ctx [simp]: "wf_saved (get_ctx p mem)"
  by (simp add: get_ctx_def)

lemma drop_bytes:
  "length as = n \<Longrightarrow> drop n (as @ bs) = bs" "length as = n \<Longrightarrow> take n (as @ bs) = as"
  by auto

lemma ctx_of_bytes:
  assumes "wf_saved c"
  shows "ctx_of (ctx_bytes c) = c"
proof -
  have l: "length (fpu_bytes (fpu c)) = 260" "length (d16_d31 (fpu c)) = 16" "length (d0_d15 (fpu c)) = 16"
    "length (gp_registers (base c)) = 13"
    using assms by (simp_all add: wf_saved_def fpu_bytes_def)
  have f: "fpu_of (fpu_bytes f @ rest) = f" if "length (d16_d31 f) = 16" "length (d0_d15 f) = 16" for f rest
  proof -
    have "drop 132 (fpu_bytes f @ rest) = concat (map (le_bytes 8) (d0_d15 f)) @ rest"
      using that by (simp add: fpu_bytes_def)
    moreover have "drop 4 (fpu_bytes f @ rest) = concat (map (le_bytes 8) (d16_d31 f)) @ concat (map (le_bytes 8) (d0_d15 f)) @ rest"
      by (simp add: fpu_bytes_def)
    ultimately show ?thesis
      using word_list_bytes [of 8 "d16_d31 f"] word_list_bytes [of 8 "d0_d15 f"] that
      by (simp add: fpu_of_def) (simp add: fpu_bytes_def)
  qed
  have b: "base_of (base_bytes b) = b" if "length (gp_registers b) = 13" for b
    using word_list_bytes [of 4 "gp_registers b"] that by (simp add: base_of_def base_bytes_def)
  show ?thesis using l f [of "fpu c" "base_bytes (base c)"] b [of "base c"] by (simp add: ctx_of_def ctx_bytes_def)
qed

lemma take_split: "a \<le> n \<Longrightarrow> take n xs = take a xs @ take (n - a) (drop a xs)"
  using take_add [of a "n - a" xs] by simp

lemma ctx_bytes_of:
  assumes "length bs = CONTEXT_SIZE"
  shows "ctx_bytes (ctx_of bs) = bs"
proof -
  have w: "le_bytes 4 (le_word bs :: u32) = bs" if "length bs = 4" for bs using that by (rule le_bytes_le_word_u32)
  have d: "le_bytes 8 (le_word bs :: u64) = bs" if "length bs = 8" for bs using that by (rule le_bytes_le_word_u64)
  have "fpu_bytes (fpu_of (drop 4 bs)) = take 260 (drop 4 bs)"
    using assms bytes_word_list [OF d, of 16 "drop 8 bs"] bytes_word_list [OF d, of 16 "drop 136 bs"]
      take_split [of 4 260 "drop 4 bs"] take_split [of 128 256 "drop 8 bs"]
    by (simp add: fpu_bytes_def fpu_of_def CONTEXT_SIZE_def w)
  moreover have "base_bytes (base_of (drop 264 bs)) = drop 264 bs"
    using assms bytes_word_list [OF w, of 13 "drop 268 bs"]
      take_split [of 4 68 "drop 264 bs"] take_split [of 52 64 "drop 268 bs"]
      take_split [of 4 12 "drop 320 bs"] take_split [of 4 8 "drop 324 bs"]
    by (simp add: base_bytes_def base_of_def CONTEXT_SIZE_def w)
  moreover have "bs = take 4 bs @ take 260 (drop 4 bs) @ drop 264 bs"
    using take_add [of 4 260 bs] append_take_drop_id [of 264 bs] by simp
  ultimately show ?thesis using assms by (simp add: ctx_bytes_def ctx_of_def CONTEXT_SIZE_def w)
qed

lemma get_put [simp]: "wf_saved c \<Longrightarrow> get_ctx p (dview (put_ctx p c m)) = c"
  by (simp add: get_ctx_def put_ctx_def load_store_same length_ctx_bytes ctx_of_bytes CONTEXT_SIZE_def)

lemma put_get: "put_ctx p (get_ctx p (dview m)) m = m"
  by (simp add: put_ctx_def get_ctx_def ctx_bytes_of write_data_def store_load CONTEXT_SIZE_def)

lemma put_ctx_outside: "wf_saved c \<Longrightarrow> \<not> in_range p CONTEXT_SIZE x \<Longrightarrow> dview (put_ctx p c m) x = dview m x"
  by (simp add: put_ctx_def store_out length_ctx_bytes)

lemma get_ctx_apart: "apart p CONTEXT_SIZE a (length bs) \<Longrightarrow> get_ctx p (store mem a bs) = get_ctx p mem"
  by (simp add: get_ctx_def load_store_apart CONTEXT_SIZE_def)

lemma take_load: "k \<le> n \<Longrightarrow> take k (load mem a n) = load mem a k"
  by (simp add: load_def take_map)

lemma has_fpu_word: "has_fpu_context (get_ctx p mem) = read_word mem p"
  by (simp add: get_ctx_def ctx_of_def read_word_def take_load CONTEXT_SIZE_def)

text \<open>
  A task that can be inspected: its control block can be read, its context lies below the end of
  memory, is the one of a task with floating point state, and does not overlap the control block.
\<close>

definition task_at :: "task_status \<Rightarrow> u32 \<Rightarrow> memory \<Rightarrow> bool" where
  "task_at task p mem \<longleftrightarrow>
     x_handle task \<noteq> 0 \<and> unat (x_handle task) mod 4 = 0 \<and> read_word mem (x_handle task) = p \<and>
     p \<noteq> 0 \<and> unat p mod 4 = 0 \<and> unat p + CONTEXT_SIZE < 2 ^ 32 \<and>
     apart (x_handle task) 4 p CONTEXT_SIZE \<and> has_fpu_context (get_ctx p mem) \<noteq> 0"

lemma task_atD:
  assumes "task_at task p mem"
  shows "tcb_stack_ptr task mem = Inr p" "saved_context task mem = Inr p" "task_sp task mem = Inr (p + of_nat CONTEXT_SIZE)"
    "deref_ok p site = Inr ()"
  using assms by (simp_all add: task_at_def tcb_stack_ptr_def saved_context_def task_sp_def deref_ok_def has_fpu_word Let_def)

text \<open>Writing the context of a task leaves it in place; moving its stack needs a context there.\<close>

lemma task_at_put:
  assumes "task_at task p (dview m)" and "wf_saved c" and "has_fpu_context c \<noteq> 0"
  shows "task_at task p (dview (put_ctx p c m))"
proof -
  have "read_word (dview (put_ctx p c m)) (x_handle task) = read_word (dview m) (x_handle task)"
    using assms(1,2) by (simp add: read_word_def put_ctx_def load_store_apart task_at_def length_ctx_bytes)
  then show ?thesis using assms by (simp add: task_at_def)
qed

lemma read_word_store: "read_word (store mem a (le_bytes 4 w)) a = w"
  by (simp add: read_word_def load_store_same)

lemma set_sp_spec:
  assumes "task_at task p (dview m)" and "CONTEXT_SIZE \<le> unat sp"
  shows "set_sp task sp False m = Inr (write_data (x_handle task) (le_bytes 4 (sp - of_nat CONTEXT_SIZE)) m)"
  using assms by (simp add: set_sp_def task_atD Let_def)

end
