(* ===== verification/Sys_Threads.thy ===== *)
theory Sys_Threads
  imports Saved_Context
begin

text \<open>
  \<open>src/src/sys/mod.rs\<close>, \<open>bare.rs\<close>, \<open>freertos/mod.rs\<close> and \<open>src/src/gdb_target/thread.rs\<close>: what the
  debugger asks of the operating system about its threads, the two systems that answer, and the
  multi-threaded callbacks of \<open>gdbstub\<close> that choose between the stopped context and a saved one.
  FreeRTOS itself is a parameter: the statuses \<open>uxTaskGetSystemState\<close> writes into an array of a
  given length.
\<close>

type_synonym rtos = "nat \<Rightarrow> task_status list"

datatype system_error = NoSuchTid

definition EINVAL :: u8 where "EINVAL = 22"

fun target_error_from :: "system_error \<Rightarrow> target_error" where
  "target_error_from NoSuchTid = Errno EINVAL"

section \<open>The bare system\<close>

definition bare_current_thread :: nat where "bare_current_thread = 1"

definition bare_thread_exists :: "nat \<Rightarrow> bool" where
  "bare_thread_exists tid \<longleftrightarrow> tid = bare_current_thread"

definition bare_all_threads :: "nat list" where
  "bare_all_threads = [bare_current_thread]"

definition bare_read_registers :: "nat \<Rightarrow> (system_error + debug_event_context) outcome" where
  "bare_read_registers tid = ok (Inl NoSuchTid)"

definition bare_write_registers :: "nat \<Rightarrow> debug_event_context \<Rightarrow> 'm \<Rightarrow> (system_error + 'm) outcome" where
  "bare_write_registers tid regs m = ok (Inl NoSuchTid)"

definition bare_read_single_register :: "nat \<Rightarrow> arm_register_id \<Rightarrow> (system_error + saved_register) outcome" where
  "bare_read_single_register tid r = ok (Inl NoSuchTid)"

definition bare_write_single_register :: "nat \<Rightarrow> arm_register_id \<Rightarrow> saved_register \<Rightarrow> 'm \<Rightarrow> (system_error + 'm) outcome" where
  "bare_write_single_register tid r v m = ok (Inl NoSuchTid)"

section \<open>FreeRTOS\<close>

definition TASK_ARRAY_LEN :: nat where "TASK_ARRAY_LEN = 128"

definition scan_tasks :: "rtos \<Rightarrow> task_status list" where
  "scan_tasks os = os TASK_ARRAY_LEN"

text \<open>The thread ids passed to the callback, in order.\<close>

fun all_tids :: "task_status list \<Rightarrow> nat list outcome" where
  "all_tids [] = ok []"
| "all_tids (task # tasks) =
     (if e_current_state task \<noteq> DELETED then
        and_then (assert_that (x_task_number task \<noteq> 0) ''Thread IDs should be nonzero'') (\<lambda>_.
        and_then (all_tids tasks) (\<lambda>tids. ok (unat (x_task_number task) # tids)))
      else all_tids tasks)"

definition frtos_all_threads :: "rtos \<Rightarrow> nat list outcome" where
  "frtos_all_threads os = all_tids (scan_tasks os)"

definition frtos_thread_exists :: "rtos \<Rightarrow> nat \<Rightarrow> bool" where
  "frtos_thread_exists os tid =
     (case find (\<lambda>task. unat (x_task_number task) = tid) (scan_tasks os) of
        None \<Rightarrow> False
      | Some task \<Rightarrow> e_current_state task \<noteq> DELETED)"

definition lookup_saved_task :: "rtos \<Rightarrow> nat \<Rightarrow> (system_error + task_status) outcome" where
  "lookup_saved_task os tid =
     (case find (\<lambda>task. unat (x_task_number task) = tid \<and> e_current_state task \<noteq> DELETED) (scan_tasks os) of
        None \<Rightarrow> ok (Inl NoSuchTid)
      | Some task \<Rightarrow>
          and_then (assert_that (e_current_state task \<noteq> RUNNING) ''lookup_saved_task: running'') (\<lambda>_. ok (Inr task)))"

definition event_context :: "saved_task_context \<Rightarrow> u32 \<Rightarrow> debug_event_context" where
  "event_context c sp =
     \<lparr>cpsr = ctx_spsr (base c), stack_pointer = sp, link_register = ctx_lr (base c), fpscr = ctx_fpscr (fpu c),
      vfp_registers = d0_d15 (fpu c) @ d16_d31 (fpu c), registers = gp_registers (base c),
      program_counter = ctx_pc (base c)\<rparr>"

definition frtos_read_registers ::
  "rtos \<Rightarrow> nat \<Rightarrow> memory \<Rightarrow> (system_error + debug_event_context) outcome" where
  "frtos_read_registers os tid mem =
     try_then (lookup_saved_task os tid) (\<lambda>task.
     and_then (saved_context task mem) (\<lambda>p.
     let ctx = get_ctx p mem in
     and_then (task_sp task mem) (\<lambda>sp. ok (Inr (event_context ctx sp)))))"

definition to_saved :: "debug_event_context \<Rightarrow> u32 \<Rightarrow> saved_task_context" where
  "to_saved regs critical_nesting =
     saved_context_new
       \<lparr>ctx_fpscr = fpscr regs, d16_d31 = drop 16 (vfp_registers regs), d0_d15 = take 16 (vfp_registers regs)\<rparr>
       \<lparr>ul_critical_nesting = critical_nesting, gp_registers = registers regs, ctx_lr = link_register regs,
        ctx_pc = program_counter regs, ctx_spsr = cpsr regs\<rparr>"

definition frtos_write_registers ::
  "rtos \<Rightarrow> nat \<Rightarrow> debug_event_context \<Rightarrow> 'm caches_scheme \<Rightarrow> (system_error + 'm caches_scheme) outcome" where
  "frtos_write_registers os tid regs m =
     try_then (lookup_saved_task os tid) (\<lambda>task.
     and_then (saved_context task (dview m)) (\<lambda>p.
     let critical_nesting = ul_critical_nesting (base (get_ctx p (dview m))) in
     and_then (set_sp task (stack_pointer regs) False m) (\<lambda>m.
     and_then (saved_context task (dview m)) (\<lambda>ctx.
       ok (Inr (put_ctx ctx (to_saved regs critical_nesting) m))))))"

text \<open>An array element by index; the index is checked.\<close>

definition nth_checked :: "'a list \<Rightarrow> nat \<Rightarrow> 'a outcome" where
  "nth_checked xs i = and_then (assert_that (i < length xs) ''index out of bounds'') (\<lambda>_. ok (xs ! i))"

definition set_nth_checked :: "'a list \<Rightarrow> nat \<Rightarrow> 'a \<Rightarrow> 'a list outcome" where
  "set_nth_checked xs i x = and_then (assert_that (i < length xs) ''index out of bounds'') (\<lambda>_. ok (xs[i := x]))"

fun read_saved :: "saved_task_context \<Rightarrow> arm_register_id \<Rightarrow> u32 outcome \<Rightarrow> saved_register outcome" where
  "read_saved c (Gpr i) sp = and_then (nth_checked (gp_registers (base c)) (unat i)) (\<lambda>w. ok (SavedU32 w))"
| "read_saved c Lr sp = ok (SavedU32 (ctx_lr (base c)))"
| "read_saved c Pc sp = ok (SavedU32 (ctx_pc (base c)))"
| "read_saved c Cpsr sp = ok (SavedU32 (ctx_spsr (base c)))"
| "read_saved c (Fpr i) sp =
     and_then (if 16 \<le> unat i then nth_checked (d16_d31 (fpu c)) (unat i - 16)
               else nth_checked (d0_d15 (fpu c)) (unat i)) (\<lambda>d. ok (SavedU64 d))"
| "read_saved c Fpscr sp = ok (SavedU32 (ctx_fpscr (fpu c)))"
| "read_saved c Sp sp = and_then sp (\<lambda>w. ok (SavedU32 w))"

definition frtos_read_single_register ::
  "rtos \<Rightarrow> nat \<Rightarrow> arm_register_id \<Rightarrow> memory \<Rightarrow> (system_error + saved_register) outcome" where
  "frtos_read_single_register os tid r mem =
     try_then (lookup_saved_task os tid) (\<lambda>task.
     and_then (saved_context task mem) (\<lambda>ctx.
     and_then (read_saved (get_ctx ctx mem) r (task_sp task mem)) (\<lambda>v. ok (Inr v))))"

text \<open>The assignments of \<open>write_single_register\<close> other than the stack pointer's.\<close>

fun write_saved :: "saved_task_context \<Rightarrow> arm_register_id \<Rightarrow> saved_register \<Rightarrow> saved_task_context outcome" where
  "write_saved c (Gpr i) v =
     and_then (unwrap_u32 v) (\<lambda>w. and_then (set_nth_checked (gp_registers (base c)) (unat i) w) (\<lambda>ws.
       ok (c\<lparr>base := (base c)\<lparr>gp_registers := ws\<rparr>\<rparr>)))"
| "write_saved c Lr v = and_then (unwrap_u32 v) (\<lambda>w. ok (c\<lparr>base := (base c)\<lparr>ctx_lr := w\<rparr>\<rparr>))"
| "write_saved c Pc v = and_then (unwrap_u32 v) (\<lambda>w. ok (c\<lparr>base := (base c)\<lparr>ctx_pc := w\<rparr>\<rparr>))"
| "write_saved c Cpsr v = and_then (unwrap_u32 v) (\<lambda>w. ok (c\<lparr>base := (base c)\<lparr>ctx_spsr := w\<rparr>\<rparr>))"
| "write_saved c (Fpr i) v =
     and_then (unwrap_u64 v) (\<lambda>d.
       if 16 \<le> unat i then
         and_then (set_nth_checked (d16_d31 (fpu c)) (unat i - 16) d) (\<lambda>ds. ok (c\<lparr>fpu := (fpu c)\<lparr>d16_d31 := ds\<rparr>\<rparr>))
       else
         and_then (set_nth_checked (d0_d15 (fpu c)) (unat i) d) (\<lambda>ds. ok (c\<lparr>fpu := (fpu c)\<lparr>d0_d15 := ds\<rparr>\<rparr>)))"
| "write_saved c Fpscr v = and_then (unwrap_u32 v) (\<lambda>w. ok (c\<lparr>fpu := (fpu c)\<lparr>ctx_fpscr := w\<rparr>\<rparr>))"
| "write_saved c Sp v = ok c"

definition frtos_write_single_register ::
  "rtos \<Rightarrow> nat \<Rightarrow> arm_register_id \<Rightarrow> saved_register \<Rightarrow> 'm caches_scheme \<Rightarrow> (system_error + 'm caches_scheme) outcome" where
  "frtos_write_single_register os tid r v m =
     try_then (lookup_saved_task os tid) (\<lambda>task.
     and_then (saved_context task (dview m)) (\<lambda>ctx.
       if r = Sp then and_then (unwrap_u32 v) (\<lambda>w. and_then (set_sp task w True m) (\<lambda>m. ok (Inr m)))
       else and_then (write_saved (get_ctx ctx (dview m)) r v) (\<lambda>c. ok (Inr (put_ctx ctx c m)))))"

text \<open>
  \<open>CStr::from_ptr\<close> with fuel: None when there is no terminator among the first \<open>n\<close> bytes.
\<close>

fun c_str :: "nat \<Rightarrow> memory \<Rightarrow> u32 \<Rightarrow> u8 list option" where
  "c_str 0 mem p = None"
| "c_str (Suc n) mem p = (if mem p = 0 then Some [] else map_option (\<lambda>bs. mem p # bs) (c_str n mem (p + 1)))"

definition frtos_read_thread_name ::
  "nat \<Rightarrow> rtos \<Rightarrow> nat \<Rightarrow> u8 list \<Rightarrow> memory \<Rightarrow> ((system_error + nat) \<times> u8 list) option" where
  "frtos_read_thread_name fuel os tid buf mem =
     (case find (\<lambda>task. unat (x_task_number task) = tid) (scan_tasks os) of
        None \<Rightarrow> Some (Inl NoSuchTid, buf)
      | Some task \<Rightarrow>
          map_option (\<lambda>name_bytes.
            let copy_len = min (length name_bytes) (length buf) in
            (Inr copy_len, take copy_len name_bytes @ drop copy_len buf)) (c_str fuel mem (pc_task_name task)))"

section \<open>The configured system\<close>

definition sys_all_threads :: "rtos \<Rightarrow> 'm machine_scheme \<Rightarrow> nat list outcome" where
  "sys_all_threads os m = (if freertos m then frtos_all_threads os else ok bare_all_threads)"

definition sys_thread_exists :: "rtos \<Rightarrow> nat \<Rightarrow> 'm machine_scheme \<Rightarrow> bool" where
  "sys_thread_exists os tid m = (if freertos m then frtos_thread_exists os tid else bare_thread_exists tid)"

definition sys_read_registers :: "rtos \<Rightarrow> nat \<Rightarrow> 'm machine_scheme \<Rightarrow> (system_error + debug_event_context) outcome" where
  "sys_read_registers os tid m = (if freertos m then frtos_read_registers os tid (dview m) else bare_read_registers tid)"

definition sys_write_registers ::
  "rtos \<Rightarrow> nat \<Rightarrow> debug_event_context \<Rightarrow> 'm machine_scheme \<Rightarrow> (system_error + 'm machine_scheme) outcome" where
  "sys_write_registers os tid regs m =
     (if freertos m then frtos_write_registers os tid regs m else bare_write_registers tid regs m)"

definition sys_read_single_register ::
  "rtos \<Rightarrow> nat \<Rightarrow> arm_register_id \<Rightarrow> 'm machine_scheme \<Rightarrow> (system_error + saved_register) outcome" where
  "sys_read_single_register os tid r m =
     (if freertos m then frtos_read_single_register os tid r (dview m) else bare_read_single_register tid r)"

definition sys_write_single_register ::
  "rtos \<Rightarrow> nat \<Rightarrow> arm_register_id \<Rightarrow> saved_register \<Rightarrow> 'm machine_scheme \<Rightarrow> (system_error + 'm machine_scheme) outcome" where
  "sys_write_single_register os tid r v m =
     (if freertos m then frtos_write_single_register os tid r v m else bare_write_single_register tid r v m)"

section \<open>The callbacks of gdbstub\<close>

definition is_thread_alive :: "rtos \<Rightarrow> nat \<Rightarrow> 'm machine_scheme \<Rightarrow> bool" where
  "is_thread_alive os tid m = sys_thread_exists os tid m"

definition list_active_threads :: "rtos \<Rightarrow> 'm machine_scheme \<Rightarrow> nat list outcome" where
  "list_active_threads os m = sys_all_threads os m"

text \<open>A system error on its way through \<open>?\<close> in a callback.\<close>

definition from_system :: "(system_error + 'a) outcome \<Rightarrow> (target_error + 'a) outcome" where
  "from_system r = and_then r (\<lambda>x. ok (case x of Inl e \<Rightarrow> Inl (target_error_from e) | Inr y \<Rightarrow> Inr y))"

text \<open>Memory is the same for all threads; resuming continues all of them.\<close>

definition mt_read_addrs :: "u32 \<Rightarrow> u8 list \<Rightarrow> nat \<Rightarrow> 'm vmsa_scheme \<Rightarrow> ((target_error + nat) \<times> u8 list) outcome" where
  "mt_read_addrs start_addr data tid m = read_addrs start_addr data m"

definition mt_write_addrs :: "u32 \<Rightarrow> u8 list \<Rightarrow> nat \<Rightarrow> 'm vmsa_scheme \<Rightarrow> ((target_error + unit) \<times> 'm vmsa_scheme) outcome" where
  "mt_write_addrs start_addr data tid m = write_addrs start_addr data m"

definition clear_resume_actions :: "'t v5_target_scheme \<Rightarrow> 't v5_target_scheme" where
  "clear_resume_actions t = t"

definition set_resume_action_continue :: "nat \<Rightarrow> 't v5_target_scheme \<Rightarrow> 't v5_target_scheme" where
  "set_resume_action_continue tid t = t"

definition mt_resume :: "'t v5_target_scheme \<Rightarrow> 't v5_target_scheme" where
  "mt_resume t = t\<lparr>monitor_status := ResumingProgram\<rparr>"

datatype base_ops = MultiThread | SingleThread

definition target_base_ops :: "'m machine_scheme \<Rightarrow> base_ops" where
  "target_base_ops m = (if freertos m then MultiThread else SingleThread)"

text \<open>A \<open>vCont\<close> packet: the actions of the threads it names (True for a step), then all go on.\<close>

fun vcont :: "(nat \<times> bool) list \<Rightarrow> 'm machine_scheme \<Rightarrow> 't v5_target_scheme \<Rightarrow> 't v5_target_scheme outcome" where
  "vcont [] m t = ok (mt_resume t)"
| "vcont ((tid, stepping) # acts) m t =
     and_then (if stepping then set_resume_action_step tid m t else ok (set_resume_action_continue tid t)) (vcont acts m)"

text \<open>Stepping the stopped thread and continuing the others is the single-threaded step.\<close>

lemma vcont_continues: "\<forall>(tid, stepping) \<in> set acts. \<not> stepping \<Longrightarrow> vcont acts m t = ok (resume t)"
  by (induction acts) (auto simp: mt_resume_def resume_def set_resume_action_continue_def)

lemma vcont_step_is_step:
  fixes t :: "'t v5_target_scheme"
  assumes "current_thread m = Inr tid" and "\<forall>(tid, stepping) \<in> set acts. \<not> stepping"
  shows "vcont ((tid, True) # acts) m (clear_resume_actions t) = step t"
proof -
  have "vcont acts m = (\<lambda>t :: 't v5_target_scheme. ok (resume t))" using vcont_continues [OF assms(2)] by (intro ext) blast
  then show ?thesis
    by (simp add: assms(1) set_resume_action_step_def step_def clear_resume_actions_def and_then_assoc case_prod_unfold)
qed

definition mt_read_registers ::
  "rtos \<Rightarrow> nat \<Rightarrow> 't v5_target_scheme \<Rightarrow> 'm machine_scheme \<Rightarrow> (target_error + debug_event_context) outcome" where
  "mt_read_registers os tid t m =
     and_then (current_thread m) (\<lambda>current.
       if tid = current then ok (Inr (read_registers t)) else from_system (sys_read_registers os tid m))"

definition mt_write_registers ::
  "rtos \<Rightarrow> debug_event_context \<Rightarrow> nat \<Rightarrow> 't v5_target_scheme \<Rightarrow> 'm machine_scheme \<Rightarrow>
   (target_error + 't v5_target_scheme \<times> 'm machine_scheme) outcome" where
  "mt_write_registers os regs tid t m =
     and_then (current_thread m) (\<lambda>current.
       if tid = current then ok (Inr (write_registers regs t, m))
       else try_then (from_system (sys_write_registers os tid regs m)) (\<lambda>m. ok (Inr (t, m))))"

definition thread_extra_info ::
  "nat \<Rightarrow> rtos \<Rightarrow> nat \<Rightarrow> u8 list \<Rightarrow> 'm machine_scheme \<Rightarrow> (nat \<times> u8 list) option" where
  "thread_extra_info fuel os tid buf m =
     map_option (\<lambda>(r, buf). (case r of Inl _ \<Rightarrow> 0 | Inr n \<Rightarrow> n, buf))
       (if freertos m then frtos_read_thread_name fuel os tid buf (dview m) else Some (Inl NoSuchTid, buf))"

definition tid_read_register ::
  "rtos \<Rightarrow> nat \<Rightarrow> arm_register_id \<Rightarrow> u8 list \<Rightarrow> 't v5_target_scheme \<Rightarrow> 'm machine_scheme \<Rightarrow>
   ((target_error + nat) \<times> u8 list) outcome" where
  "tid_read_register os tid reg_id buf t m =
     and_then (current_thread m) (\<lambda>current.
       if tid = current then read_register (exception_ctx t) reg_id buf
       else and_then (from_system (sys_read_single_register os tid reg_id m)) (\<lambda>r.
         case r of
           Inl e \<Rightarrow> ok (Inl e, buf)
         | Inr reg \<Rightarrow> and_then (saved_write_to_buffer reg buf) (\<lambda>buf. ok (Inr (saved_bytes reg), buf))))"

definition tid_write_register ::
  "rtos \<Rightarrow> nat \<Rightarrow> arm_register_id \<Rightarrow> u8 list \<Rightarrow> 't v5_target_scheme \<Rightarrow> 'm machine_scheme \<Rightarrow>
   (target_error + 't v5_target_scheme \<times> 'm machine_scheme) outcome" where
  "tid_write_register os tid reg_id val t m =
     and_then (current_thread m) (\<lambda>current.
       if tid = current then
         ok (case write_register (exception_ctx t) reg_id val of
               Inl e \<Rightarrow> Inl e
             | Inr ctx \<Rightarrow> Inr (t\<lparr>exception_ctx := ctx\<rparr>, m))
       else case saved_from_le_bytes val of
           None \<Rightarrow> ok (Inl NonFatal)
         | Some reg \<Rightarrow> try_then (from_system (sys_write_single_register os tid reg_id reg m)) (\<lambda>m. ok (Inr (t, m))))"

end
