(* ===== verification/Thread_Properties.thy ===== *)
theory Thread_Properties
  imports Sys_Threads Target_Properties
begin

text \<open>
  What the debugger may rely on when it reads and writes the registers of a thread that is not
  running: the contract of a system's register operations as a locale, FreeRTOS as its instance,
  and the callbacks of \<open>gdbstub\<close> on top.
\<close>

section \<open>A register file\<close>

fun reg_of :: "debug_event_context \<Rightarrow> arm_register_id \<Rightarrow> saved_register" where
  "reg_of c (Gpr i) = SavedU32 (registers c ! unat i)"
| "reg_of c Sp = SavedU32 (stack_pointer c)"
| "reg_of c Lr = SavedU32 (link_register c)"
| "reg_of c Pc = SavedU32 (program_counter c)"
| "reg_of c Cpsr = SavedU32 (cpsr c)"
| "reg_of c (Fpr i) = SavedU64 (vfp_registers c ! unat i)"
| "reg_of c Fpscr = SavedU32 (fpscr c)"

fun set_reg :: "debug_event_context \<Rightarrow> arm_register_id \<Rightarrow> saved_register \<Rightarrow> debug_event_context" where
  "set_reg c (Gpr i) (SavedU32 w) = c\<lparr>registers := (registers c)[unat i := w]\<rparr>"
| "set_reg c Sp (SavedU32 w) = c\<lparr>stack_pointer := w\<rparr>"
| "set_reg c Lr (SavedU32 w) = c\<lparr>link_register := w\<rparr>"
| "set_reg c Pc (SavedU32 w) = c\<lparr>program_counter := w\<rparr>"
| "set_reg c Cpsr (SavedU32 w) = c\<lparr>cpsr := w\<rparr>"
| "set_reg c (Fpr i) (SavedU64 d) = c\<lparr>vfp_registers := (vfp_registers c)[unat i := d]\<rparr>"
| "set_reg c Fpscr (SavedU32 w) = c\<lparr>fpscr := w\<rparr>"
| "set_reg c _ _ = c"

fun valid_reg :: "arm_register_id \<Rightarrow> bool" where
  "valid_reg (Gpr i) = (unat i < 13)"
| "valid_reg (Fpr i) = (unat i < 32)"
| "valid_reg _ = True"

definition width_ok :: "arm_register_id \<Rightarrow> saved_register \<Rightarrow> bool" where
  "width_ok r v \<longleftrightarrow> saved_bytes v = register_size r"

lemma width_okE:
  assumes "width_ok r v"
  obtains (word) w where "v = SavedU32 w" "\<And>i. r \<noteq> Fpr i" | (double) i d where "r = Fpr i" "v = SavedU64 d"
  using assms by (cases r; cases v) (auto simp: width_ok_def)

lemma valid_raw_id: "from_raw_id rid = Some (r, n) \<Longrightarrow> valid_reg r \<and> n = register_size r"
  by (auto simp: from_raw_id_def unat_of_nat simp del: of_nat_diff split: if_splits)

lemma reg_of_set_same: "wf_context c \<Longrightarrow> valid_reg r \<Longrightarrow> width_ok r v \<Longrightarrow> reg_of (set_reg c r v) r = v"
  by (cases r; cases v) (auto simp: width_ok_def wf_context_def)

lemma reg_of_set_other: "width_ok r v \<Longrightarrow> q \<noteq> r \<Longrightarrow> reg_of (set_reg c r v) q = reg_of c q"
  by (cases r; cases v; cases q) (auto simp: width_ok_def word_unat_eq_iff nth_list_update)

lemma wf_set_reg: "wf_context c \<Longrightarrow> wf_context (set_reg c r v)"
  by (cases r; cases v) (auto simp: wf_context_def)

section \<open>The contract\<close>

locale thread_registers =
  fixes present :: "nat \<Rightarrow> 's \<Rightarrow> bool"
    and may_move :: "nat \<Rightarrow> saved_register \<Rightarrow> 's \<Rightarrow> bool"
    and rd :: "nat \<Rightarrow> 's \<Rightarrow> (system_error + debug_event_context) outcome"
    and rd1 :: "nat \<Rightarrow> arm_register_id \<Rightarrow> 's \<Rightarrow> (system_error + saved_register) outcome"
    and wr1 :: "nat \<Rightarrow> arm_register_id \<Rightarrow> saved_register \<Rightarrow> 's \<Rightarrow> (system_error + 's) outcome"
  assumes rd_total: "present tid s \<Longrightarrow> \<exists>c. rd tid s = Inr (Inr c) \<and> wf_context c"
    and rd1_rd: "present tid s \<Longrightarrow> rd tid s = Inr (Inr c) \<Longrightarrow> valid_reg r \<Longrightarrow> rd1 tid r s = Inr (Inr (reg_of c r))"
    and wr1_rd: "present tid s \<Longrightarrow> rd tid s = Inr (Inr c) \<Longrightarrow> valid_reg r \<Longrightarrow> width_ok r v \<Longrightarrow>
      (r = Sp \<Longrightarrow> may_move tid v s) \<Longrightarrow>
      \<exists>s'. wr1 tid r v s = Inr (Inr s') \<and> present tid s' \<and> rd tid s' = Inr (Inr (set_reg c r v))"
begin

lemma write_one:
  assumes "present tid s" and "valid_reg r" and "width_ok r v" and "r = Sp \<Longrightarrow> may_move tid v s"
  obtains s' c where "rd tid s = Inr (Inr c)" "wr1 tid r v s = Inr (Inr s')" "present tid s'"
    "rd tid s' = Inr (Inr (set_reg c r v))" "rd1 tid r s' = Inr (Inr v)"
    "\<And>q. valid_reg q \<Longrightarrow> q \<noteq> r \<Longrightarrow> rd1 tid q s' = rd1 tid q s"
proof -
  obtain c where c: "rd tid s = Inr (Inr c)" "wf_context c" using rd_total [OF assms(1)] by blast
  obtain s' where s': "wr1 tid r v s = Inr (Inr s')" "present tid s'" "rd tid s' = Inr (Inr (set_reg c r v))"
    using wr1_rd [OF assms(1) c(1) assms(2-4)] by blast
  have "rd1 tid r s' = Inr (Inr v)"
    using rd1_rd [OF s'(2,3) assms(2)] reg_of_set_same [OF c(2) assms(2,3)] by simp
  moreover have "rd1 tid q s' = rd1 tid q s" if "valid_reg q" "q \<noteq> r" for q
    using rd1_rd [OF s'(2,3) that(1)] rd1_rd [OF assms(1) c(1) that(1)] reg_of_set_other [OF assms(3) that(2)] by simp
  ultimately show ?thesis using that c(1) s' by blast
qed

end

section \<open>FreeRTOS keeps it\<close>

definition frtos_present :: "rtos \<Rightarrow> nat \<Rightarrow> 'm caches_scheme \<Rightarrow> bool" where
  "frtos_present os tid m \<longleftrightarrow>
     (case lookup_saved_task os tid of
        Inr (Inr task) \<Rightarrow> task_at task (read_word (dview m) (x_handle task)) (dview m)
      | _ \<Rightarrow> False)"

text \<open>Where a context for the stack pointer \<open>sp\<close> would be put, clear of the control block.\<close>

definition landing :: "task_status \<Rightarrow> u32 \<Rightarrow> bool" where
  "landing task sp \<longleftrightarrow>
     CONTEXT_SIZE < unat sp \<and> unat sp mod 4 = 0 \<and> apart (x_handle task) 4 (sp - of_nat CONTEXT_SIZE) CONTEXT_SIZE"

definition frtos_may_move :: "rtos \<Rightarrow> nat \<Rightarrow> saved_register \<Rightarrow> 'm caches_scheme \<Rightarrow> bool" where
  "frtos_may_move os tid v m \<longleftrightarrow>
     (case (lookup_saved_task os tid, v) of
        (Inr (Inr task), SavedU32 sp) \<Rightarrow> landing task sp
      | _ \<Rightarrow> False)"

lemma frtos_presentE:
  assumes "frtos_present os tid m"
  obtains task p where "lookup_saved_task os tid = Inr (Inr task)" "task_at task p (dview m)"
  using assms by (auto simp: frtos_present_def split: sum.splits)

lemma frtos_presentI:
  "lookup_saved_task os tid = Inr (Inr task) \<Longrightarrow> task_at task p (dview m) \<Longrightarrow> frtos_present os tid m"
  by (auto simp: frtos_present_def task_at_def)

lemma frtos_read_eq:
  "lookup_saved_task os tid = Inr (Inr task) \<Longrightarrow> task_at task p mem \<Longrightarrow>
   frtos_read_registers os tid mem = Inr (Inr (event_context (get_ctx p mem) (p + of_nat CONTEXT_SIZE)))"
  by (simp add: frtos_read_registers_def task_atD Let_def)

lemma wf_event_context: "wf_saved c \<Longrightarrow> wf_context (event_context c sp)"
  by (simp add: wf_saved_def wf_context_def event_context_def)

lemma nth_checked_ok [simp]: "i < length xs \<Longrightarrow> nth_checked xs i = Inr (xs ! i)"
  by (simp add: nth_checked_def)

lemma set_nth_checked_ok [simp]: "i < length xs \<Longrightarrow> set_nth_checked xs i x = Inr (xs[i := x])"
  by (simp add: set_nth_checked_def)

lemma read_saved_eq:
  "wf_saved c \<Longrightarrow> valid_reg r \<Longrightarrow> read_saved c r (Inr sp) = Inr (reg_of (event_context c sp) r)"
  by (cases r) (auto simp: event_context_def wf_saved_def nth_append less_diff_conv2)

lemma write_saved_eq:
  assumes "wf_saved c" and "valid_reg r" and "width_ok r v" and "r \<noteq> Sp"
  shows "\<exists>c'. write_saved c r v = Inr c' \<and> wf_saved c' \<and> has_fpu_context c' = has_fpu_context c \<and>
           (\<forall>sp. event_context c' sp = set_reg (event_context c sp) r v)"
  using assms
  by (cases rule: width_okE [OF assms(3)]; cases r)
    (auto simp: event_context_def wf_saved_def list_update_append less_diff_conv2)

lemma landingD:
  assumes "landing task sp"
  shows "unat (sp - of_nat CONTEXT_SIZE) = unat sp - CONTEXT_SIZE" "sp - of_nat CONTEXT_SIZE \<noteq> 0"
    "unat (sp - of_nat CONTEXT_SIZE) mod 4 = 0" "unat (sp - of_nat CONTEXT_SIZE) + CONTEXT_SIZE < 2 ^ 32"
    "CONTEXT_SIZE \<le> unat sp" "apart (x_handle task) 4 (sp - of_nat CONTEXT_SIZE) CONTEXT_SIZE"
proof -
  have sp: "332 < unat sp" "unat sp mod 4 = 0" using assms by (simp_all add: landing_def CONTEXT_SIZE_def)
  show u: "unat (sp - of_nat CONTEXT_SIZE) = unat sp - CONTEXT_SIZE"
    using sp by (simp add: CONTEXT_SIZE_def unat_sub word_le_nat_alt)
  show "sp - of_nat CONTEXT_SIZE \<noteq> 0" using sp(1) u by (auto simp: CONTEXT_SIZE_def)
  show "unat (sp - of_nat CONTEXT_SIZE) mod 4 = 0" unfolding u using sp by (simp add: CONTEXT_SIZE_def) presburger
  show "unat (sp - of_nat CONTEXT_SIZE) + CONTEXT_SIZE < 2 ^ 32"
    unfolding u using sp(1) unat_u32_less [of sp] by (simp add: CONTEXT_SIZE_def)
  show "CONTEXT_SIZE \<le> unat sp" "apart (x_handle task) 4 (sp - of_nat CONTEXT_SIZE) CONTEXT_SIZE"
    using assms by (simp_all add: landing_def)
qed

lemma move_stack:
  assumes "task_at task p (dview m)" and "landing task sp"
  shows "\<exists>m'. set_sp task sp True m = Inr m' \<and> task_at task (sp - of_nat CONTEXT_SIZE) (dview m') \<and>
           get_ctx (sp - of_nat CONTEXT_SIZE) (dview m') = get_ctx p (dview m)"
proof -
  let ?p' = "sp - of_nat CONTEXT_SIZE"
  define m1 where "m1 = write_data (x_handle task) (le_bytes 4 ?p') m"
  define m2 where "m2 = write_data ?p' (load (dview m1) p CONTEXT_SIZE) m1"
  note l = landingD [OF assms(2)]
  have "apart p CONTEXT_SIZE (x_handle task) 4" using assms(1) by (simp add: task_at_def apart_sym)
  then have g1: "get_ctx p (dview m1) = get_ctx p (dview m)" by (simp add: m1_def get_ctx_apart)
  have g2: "get_ctx ?p' (dview m2) = get_ctx p (dview m1)"
    by (simp add: m2_def get_ctx_def load_store_same CONTEXT_SIZE_def)
  have "read_word (dview m2) (x_handle task) = ?p'"
    using l(6) by (simp add: m2_def read_word_def load_store_apart) (simp add: m1_def read_word_store [unfolded read_word_def])
  then have "task_at task ?p' (dview m2)"
    using assms(1) l g1 g2 by (simp add: task_at_def)
  moreover have "set_sp task sp True m = Inr m2"
    using assms(1) l(2,3,5) by (simp add: set_sp_def task_atD m2_def m1_def deref_ok_def Let_def)
  ultimately show ?thesis using g1 g2 by auto
qed

lemma event_context_sp: "event_context c sp' = (event_context c sp)\<lparr>stack_pointer := sp'\<rparr>"
  by (simp add: event_context_def)

lemma frtos_write_one:
  assumes "frtos_present os tid m" and "frtos_read_registers os tid (dview m) = Inr (Inr c)"
    and "valid_reg r" and "width_ok r v" and "r = Sp \<Longrightarrow> frtos_may_move os tid v m"
  shows "\<exists>m'. frtos_write_single_register os tid r v m = Inr (Inr m') \<and> frtos_present os tid m' \<and>
           frtos_read_registers os tid (dview m') = Inr (Inr (set_reg c r v))"
proof -
  obtain task p where l: "lookup_saved_task os tid = Inr (Inr task)" and t: "task_at task p (dview m)"
    using assms(1) by (rule frtos_presentE)
  let ?s = "get_ctx p (dview m)"
  have c: "c = event_context ?s (p + of_nat CONTEXT_SIZE)" using assms(2) frtos_read_eq [OF l t] by simp
  show ?thesis
  proof (cases "r = Sp")
    case True
    then obtain sp where v: "v = SavedU32 sp" "landing task sp"
      using assms(5) l by (auto simp: frtos_may_move_def split: saved_register.splits)
    obtain m' where m': "set_sp task sp True m = Inr m'" "task_at task (sp - of_nat CONTEXT_SIZE) (dview m')"
      "get_ctx (sp - of_nat CONTEXT_SIZE) (dview m') = ?s"
      using move_stack [OF t v(2)] by blast
    have "frtos_read_registers os tid (dview m') = Inr (Inr (set_reg c r v))"
      using frtos_read_eq [OF l m'(2)] True v(1) m'(3) by (simp add: c event_context_sp [of ?s sp "p + of_nat CONTEXT_SIZE"])
    then show ?thesis
      using True l t m'(1) v(1) frtos_presentI [OF l m'(2)] by (simp add: frtos_write_single_register_def task_atD)
  next
    case False
    obtain s' where s': "write_saved ?s r v = Inr s'" "wf_saved s'" "has_fpu_context s' = has_fpu_context ?s"
      "\<forall>sp. event_context s' sp = set_reg (event_context ?s sp) r v"
      using write_saved_eq [OF wf_get_ctx assms(3,4) False] by blast
    have "has_fpu_context s' \<noteq> 0" using t s'(3) by (simp add: task_at_def)
    then have t': "task_at task p (dview (put_ctx p s' m))" by (rule task_at_put [OF t s'(2)])
    show ?thesis
      using False l t s' frtos_read_eq [OF l t'] frtos_presentI [OF l t']
      by (simp add: frtos_write_single_register_def task_atD c)
  qed
qed

interpretation frtos: thread_registers "frtos_present os" "frtos_may_move os"
  "\<lambda>tid m. frtos_read_registers os tid (dview m)" "\<lambda>tid r m. frtos_read_single_register os tid r (dview m)"
  "frtos_write_single_register os" for os
proof (unfold_locales, goal_cases)
  case (1 tid s)
  then show ?case by (auto elim!: frtos_presentE simp: frtos_read_eq wf_event_context)
next
  case (2 tid s c r)
  then show ?case
    by (auto elim!: frtos_presentE simp: frtos_read_eq frtos_read_single_register_def task_atD read_saved_eq)
next
  case (3 tid s c r v)
  then show ?case by (rule frtos_write_one)
qed

section \<open>Memory outside the task\<close>

lemma put_ctx_more [simp]: "caches.more (put_ctx p c m) = caches.more m"
  by (simp add: put_ctx_def)

lemma set_sp_more: "set_sp task sp u m = Inr m' \<Longrightarrow> caches.more m' = caches.more m"
  by (auto simp: set_sp_def and_then_Inr_iff Let_def split: if_splits)

lemma frtos_write_one_more: "frtos_write_single_register os tid r v m = Inr (Inr m') \<Longrightarrow> caches.more m' = caches.more m"
  by (auto simp: frtos_write_single_register_def try_then_Inr_iff and_then_Inr_iff dest!: set_sp_more split: if_splits)

section \<open>The callbacks\<close>

definition inspectable :: "rtos \<Rightarrow> nat \<Rightarrow> 't v5_target_scheme \<Rightarrow> 'm machine_scheme \<Rightarrow> bool" where
  "inspectable os tid t m \<longleftrightarrow>
     freertos m \<and> current_task m \<noteq> 0 \<and>
     (if tid = current_task m then wf_context (exception_ctx t) else frtos_present os tid m)"

text \<open>The stopped thread may be given any stack pointer, a saved one only where its context fits.\<close>

definition may_set :: "rtos \<Rightarrow> nat \<Rightarrow> arm_register_id \<Rightarrow> u8 list \<Rightarrow> 'm machine_scheme \<Rightarrow> bool" where
  "may_set os tid r val m \<longleftrightarrow>
     length val = register_size r \<and> valid_reg r \<and>
     (r = Sp \<and> tid \<noteq> current_task m \<longrightarrow> frtos_may_move os tid (SavedU32 (le_word val)) m)"

lemma saved_bytes_spec:
  assumes "length val = register_size r"
  obtains v where "saved_from_le_bytes val = Some v" "width_ok r v" "\<And>buf. length buf = length val \<Longrightarrow> saved_write_to_buffer v buf = Inr val"
    "saved_bytes v = length val" "r = Sp \<Longrightarrow> v = SavedU32 (le_word val)"
    "\<And>c. write_register c r val = (if valid_reg r \<and> wf_context c then Inr (set_reg c r v) else write_register c r val)"
proof (cases "\<exists>i. r = Fpr i")
  case True
  then have "length val = 8" using assms by auto
  then show ?thesis
    using that [of "SavedU64 (le_word val)"] True
    by (auto simp: saved_from_le_bytes_def width_ok_def copy_from_slice_def le_bytes_le_word_u64 write_reg_def wf_context_def)
next
  case False
  then have "length val = 4" using assms by (cases r) auto
  then show ?thesis
    using that [of "SavedU32 (le_word val)"] False
    by (cases r) (auto simp: saved_from_le_bytes_def width_ok_def copy_from_slice_def le_bytes_le_word_u32 write_reg_def wf_context_def)
qed

lemma read_register_saved:
  assumes "wf_context c" and "valid_reg r" and "length buf = register_size r"
  shows "read_register c r buf = and_then (saved_write_to_buffer (reg_of c r) buf) (\<lambda>b. Inr (Inr (saved_bytes (reg_of c r)), b))"
  using assms by (cases r) (auto simp: read_reg_def copy_from_slice_def wf_context_def)

section \<open>A thread for the witnesses\<close>

text \<open>Task 7 runs; task 3 is switched out, with its context at \<open>0x8000\<close>.\<close>

definition demo_task :: "u32 \<Rightarrow> u32 \<Rightarrow> u32 \<Rightarrow> task_status" where
  "demo_task handle number state = \<lparr>x_handle = handle, pc_task_name = 0, x_task_number = number, e_current_state = state,
     ux_current_priority = 8, ux_base_priority = 8, ul_run_time_counter = 0, px_stack_base = 0,
     us_stack_high_water_mark = 100\<rparr>"

definition demo_rtos :: rtos where
  "demo_rtos n = (if 2 \<le> n then [demo_task 0x6000 7 RUNNING, demo_task 0x7000 3 READY] else [])"

definition demo_threads :: machine where
  "demo_threads = (demo_system True)\<lparr>dview :=
     store (store (\<lambda>_. 0) 0x7000 (le_bytes 4 (0x8000 :: u32))) 0x8000 (ctx_bytes (to_saved context_default 0))\<rparr>"

lemma demo_lookup: "lookup_saved_task demo_rtos 3 = Inr (Inr (demo_task 0x7000 3 READY))"
  by (simp add: lookup_saved_task_def scan_tasks_def demo_rtos_def TASK_ARRAY_LEN_def demo_task_def READY_def DELETED_def RUNNING_def)

lemma wf_to_saved: "wf_context c \<Longrightarrow> wf_saved (to_saved c n)"
  by (simp add: wf_saved_def wf_context_def to_saved_def saved_context_new_def)

lemma wf_default [simp]: "wf_context context_default"
  by (simp add: wf_context_def context_default_def)

lemma demo_threads_ok:
  "task_at (demo_task 0x7000 3 READY) 0x8000 (dview demo_threads)" "freertos demo_threads" "current_task demo_threads = 7"
proof -
  let ?c = "to_saved context_default 0"
  have l: "length (ctx_bytes ?c) = 332"
    using length_ctx_bytes [OF wf_to_saved [OF wf_default]] by (simp add: CONTEXT_SIZE_def)
  have a: "apart 0x7000 4 0x8000 332" by (simp add: apart_def)
  have "read_word (dview demo_threads) 0x7000 = 0x8000"
    using a l by (simp add: demo_threads_def read_word_def load_store_apart) (simp add: read_word_store [unfolded read_word_def])
  moreover have "get_ctx 0x8000 (dview demo_threads) = ?c"
    using l ctx_of_bytes [OF wf_to_saved [OF wf_default]] by (simp add: demo_threads_def get_ctx_def CONTEXT_SIZE_def load_store_same)
  ultimately show "task_at (demo_task 0x7000 3 READY) 0x8000 (dview demo_threads)"
    using a by (simp add: task_at_def demo_task_def CONTEXT_SIZE_def to_saved_def saved_context_new_def)
  show "freertos demo_threads" "current_task demo_threads = 7"
    by (simp_all add: demo_threads_def demo_system_def)
qed

lemma demo_inspectable: "inspectable demo_rtos 3 t demo_threads"
  using frtos_presentI [OF demo_lookup demo_threads_ok(1)] demo_threads_ok(2,3) by (simp add: inspectable_def)

text \<open>
  C34: To GDB every thread is a register file, whether it is the stopped one, whose registers are in
  the debugger, or a switched-out one, whose registers are in the context FreeRTOS pushed on its
  stack. Writing any register (a stack pointer where a context fits) succeeds, reading it gives the
  bytes written, every other register of the thread reads as before, and the thread stays inspectable.
\<close>
theorem thread_register_file:
  assumes "inspectable os tid t m" and "may_set os tid r val m"
  shows "\<exists>t' m'. tid_write_register os tid r val t m = Inr (Inr (t', m')) \<and> inspectable os tid t' m' \<and>
           (\<forall>buf. length buf = register_size r \<longrightarrow> tid_read_register os tid r buf t' m' = Inr (Inr (length val), val)) \<and>
           (\<forall>q buf. valid_reg q \<and> q \<noteq> r \<and> length buf = register_size q \<longrightarrow>
              tid_read_register os tid q buf t' m' = tid_read_register os tid q buf t m)"
proof -
  have val: "length val = register_size r" "valid_reg r" using assms(2) by (simp_all add: may_set_def)
  obtain v where v: "saved_from_le_bytes val = Some v" "width_ok r v"
    "\<And>buf. length buf = length val \<Longrightarrow> saved_write_to_buffer v buf = Inr val" "saved_bytes v = length val"
    "r = Sp \<Longrightarrow> v = SavedU32 (le_word val)"
    "\<And>c. write_register c r val = (if valid_reg r \<and> wf_context c then Inr (set_reg c r v) else write_register c r val)"
    by (rule saved_bytes_spec [OF val(1)]) blast
  have cur: "freertos m" "current_thread m = Inr (current_task m)"
    using assms(1) by (simp_all add: inspectable_def current_thread_def)
  show ?thesis
  proof (cases "tid = current_task m")
    case True
    let ?c = "exception_ctx t" and ?t' = "t\<lparr>exception_ctx := set_reg (exception_ctx t) r v\<rparr>"
    have wf: "wf_context ?c" using assms(1) True by (simp add: inspectable_def)
    have w: "tid_write_register os tid r val t m = Inr (Inr (?t', m))"
      using True cur v(6) [of ?c] wf val by (simp add: tid_write_register_def)
    have rd: "tid_read_register os tid q buf u m =
        and_then (saved_write_to_buffer (reg_of (exception_ctx u) q) buf) (\<lambda>b. Inr (Inr (saved_bytes (reg_of (exception_ctx u) q)), b))"
      if "wf_context (exception_ctx u)" "valid_reg q" "length buf = register_size q" for q buf and u :: "'a v5_target_scheme"
      using True cur read_register_saved [OF that] by (simp add: tid_read_register_def)
    have "inspectable os tid ?t' m" using assms(1) True by (simp add: inspectable_def wf_set_reg)
    then show ?thesis
      using w rd [of ?t' r] rd [of ?t'] rd [of t] wf wf_set_reg [OF wf] val v(3,4) reg_of_set_same [OF wf val(2) v(2)] reg_of_set_other [OF v(2)]
      by (intro exI [of _ ?t'] exI [of _ m]) simp
  next
    case False
    then have pres: "frtos_present os tid m" and mv: "r = Sp \<Longrightarrow> frtos_may_move os tid v m"
      using assms v(5) by (simp_all add: inspectable_def may_set_def)
    obtain m' c where m': "frtos_write_single_register os tid r v m = Inr (Inr m')" "frtos_present os tid m'"
      "frtos_read_single_register os tid r (dview m') = Inr (Inr v)"
      "\<And>q. valid_reg q \<Longrightarrow> q \<noteq> r \<Longrightarrow> frtos_read_single_register os tid q (dview m') = frtos_read_single_register os tid q (dview m)"
      by (rule frtos.write_one [OF pres val(2) v(2) mv]) auto
    have mm: "freertos m' = freertos m" "current_task m' = current_task m"
      using machine_more [OF frtos_write_one_more [OF m'(1)]] by simp_all
    have w: "tid_write_register os tid r val t m = Inr (Inr (t, m'))"
      using False cur v(1) m'(1) by (simp add: tid_write_register_def sys_write_single_register_def from_system_def)
    have "inspectable os tid t m'" using assms(1) False mm m'(2) by (simp add: inspectable_def)
    moreover have "tid_read_register os tid q buf t m' = tid_read_register os tid q buf t m" if "valid_reg q" "q \<noteq> r" for q buf
      using False cur mm m'(4) [OF that] by (simp add: tid_read_register_def sys_read_single_register_def current_thread_def)
    ultimately show ?thesis
      using w False cur mm m'(3) v(3,4) val
      by (intro exI [of _ t] exI [of _ m']) (simp add: tid_read_register_def sys_read_single_register_def from_system_def current_thread_def)
  qed
qed

theorem thread_register_file_witness:
  "\<exists>t' m'. tid_write_register demo_rtos 3 Pc [0, 0, 0x80, 3] (demo_target 12 True) demo_threads = Inr (Inr (t', m')) \<and>
     tid_read_register demo_rtos 3 Pc [0, 0, 0, 0] t' m' = Inr (Inr 4, [0, 0, 0x80, 3])"
proof -
  have "may_set demo_rtos 3 Pc [0, 0, 0x80, 3] demo_threads" by (simp add: may_set_def)
  then show ?thesis
    using thread_register_file [OF demo_inspectable [of "demo_target 12 True"], of Pc "[0, 0, 0x80, 3]"] by fastforce
qed

lemma frtos_write_eq:
  assumes "lookup_saved_task os tid = Inr (Inr task)" and "task_at task p (dview m)" and "landing task (stack_pointer regs)"
    and "wf_context regs"
  defines "p' \<equiv> stack_pointer regs - of_nat CONTEXT_SIZE"
  defines "m1 \<equiv> write_data (x_handle task) (le_bytes 4 p') m"
  defines "c \<equiv> to_saved regs (ul_critical_nesting (base (get_ctx p (dview m))))"
  shows "frtos_write_registers os tid regs m =
           (if read_word (dview m) p' = 0 then panic ''not implemented: tasks without fpu contexts''
            else Inr (Inr (put_ctx p' c m1)))"
    and "read_word (dview m) p' \<noteq> 0 \<Longrightarrow> task_at task p' (dview (put_ctx p' c m1))"
proof -
  note l = landingD [OF assms(3), folded p'_def]
  have h: "tcb_stack_ptr task (dview m1) = Inr p'" "read_word (dview m1) (x_handle task) = p'"
    using assms(2) by (simp_all add: m1_def tcb_stack_ptr_def task_at_def deref_ok_def read_word_store)
  have "apart p' 4 (x_handle task) 4"
    using l(6) by (auto simp: apart_sym [of _ _ p'] apart_def CONTEXT_SIZE_def)
  then have w: "read_word (dview m1) p' = read_word (dview m) p'"
    by (simp add: m1_def read_word_def load_store_apart)
  have d: "deref_ok p' site = Inr ()" for site using l(2,3) by (simp add: deref_ok_def)
  show "frtos_write_registers os tid regs m =
           (if read_word (dview m) p' = 0 then panic ''not implemented: tasks without fpu contexts''
            else Inr (Inr (put_ctx p' c m1)))"
    using assms(1,2) l(5) h w d set_sp_spec [OF assms(2) l(5)]
    by (simp add: frtos_write_registers_def task_atD saved_context_def [of task "dview m1"] Let_def
        flip: p'_def m1_def c_def)
  assume nz: "read_word (dview m) p' \<noteq> 0"
  have "task_at task p' (dview m1)"
    using assms(2) l h(2) w nz by (simp add: task_at_def has_fpu_word)
  then show "task_at task p' (dview (put_ctx p' c m1))"
    by (rule task_at_put) (simp_all add: c_def wf_to_saved assms(4), simp add: to_saved_def saved_context_new_def)
qed

lemma event_to_saved: "wf_context regs \<Longrightarrow> event_context (to_saved regs n) (stack_pointer regs) = regs"
  by (simp add: event_context_def to_saved_def saved_context_new_def wf_context_def)

text \<open>
  Writing all registers of a switched-out thread and reading them back gives what was written,
  the critical nesting the task had is kept, and apart from the control block's stack pointer and the
  context at its new place no byte of memory changes. It needs a nonzero word where the context goes,
  as there is when the stack pointer stays.
\<close>
lemma thread_context_roundtrip:
  assumes "lookup_saved_task os tid = Inr (Inr task)" and "task_at task p (dview m)" and "wf_context regs"
    and "landing task (stack_pointer regs)" and "read_word (dview m) (stack_pointer regs - of_nat CONTEXT_SIZE) \<noteq> 0"
    and "freertos m" and "current_task m \<noteq> 0" and "tid \<noteq> current_task m"
  shows "\<exists>m'. mt_write_registers os regs tid t m = Inr (Inr (t, m')) \<and> mt_read_registers os tid t m' = Inr (Inr regs) \<and>
           ul_critical_nesting (base (get_ctx (stack_pointer regs - of_nat CONTEXT_SIZE) (dview m'))) =
             ul_critical_nesting (base (get_ctx p (dview m))) \<and>
           (\<forall>x. \<not> in_range (x_handle task) 4 x \<and> \<not> in_range (stack_pointer regs - of_nat CONTEXT_SIZE) CONTEXT_SIZE x
              \<longrightarrow> dview m' x = dview m x)"
proof -
  let ?p' = "stack_pointer regs - of_nat CONTEXT_SIZE"
  let ?m1 = "write_data (x_handle task) (le_bytes 4 ?p') m"
  let ?c = "to_saved regs (ul_critical_nesting (base (get_ctx p (dview m))))"
  let ?m' = "put_ctx ?p' ?c ?m1"
  note eq = frtos_write_eq [OF assms(1,2,4,3)]
  have t': "task_at task ?p' (dview ?m')" using eq(2) assms(5) by blast
  have g: "get_ctx ?p' (dview ?m') = ?c" by (simp add: wf_to_saved assms(3))
  have mm: "freertos ?m' = freertos m" "current_task ?m' = current_task m"
    using machine_more [of ?m' m] by simp_all
  have "mt_write_registers os regs tid t m = Inr (Inr (t, ?m'))"
    using eq(1) assms by (simp add: mt_write_registers_def current_thread_def sys_write_registers_def from_system_def)
  moreover have "mt_read_registers os tid t ?m' = Inr (Inr regs)"
    using frtos_read_eq [OF assms(1) t'] g mm assms(6-8) event_to_saved [OF assms(3)]
    by (simp add: mt_read_registers_def current_thread_def sys_read_registers_def from_system_def)
  moreover have "dview ?m' x = dview m x" if "\<not> in_range (x_handle task) 4 x" "\<not> in_range ?p' CONTEXT_SIZE x" for x
    using put_ctx_outside [OF wf_to_saved [OF assms(3)] that(2), of _ ?m1] that(1) by (simp add: store_out)
  ultimately show ?thesis using g by (intro exI [of _ ?m']) (simp add: to_saved_def saved_context_new_def)
qed

lemma thread_context_roundtrip_witness:
  "\<exists>m'. mt_write_registers demo_rtos (context_default\<lparr>stack_pointer := 0x814c, program_counter := 4\<rparr>) 3 (demo_target 12 True)
       demo_threads = Inr (Inr (demo_target 12 True, m')) \<and>
     mt_read_registers demo_rtos 3 (demo_target 12 True) m' = Inr (Inr (context_default\<lparr>stack_pointer := 0x814c, program_counter := 4\<rparr>))"
proof -
  let ?regs = "context_default\<lparr>stack_pointer := 0x814c, program_counter := 4\<rparr>"
  have wf: "wf_context ?regs" by (simp add: wf_context_def context_default_def)
  have lnd: "landing (demo_task 0x7000 3 READY) (stack_pointer ?regs)"
    by (simp add: landing_def CONTEXT_SIZE_def demo_task_def apart_def)
  have nz: "read_word (dview demo_threads) (stack_pointer ?regs - of_nat CONTEXT_SIZE) \<noteq> 0"
    using demo_threads_ok(1) by (simp add: task_at_def has_fpu_word CONTEXT_SIZE_def)
  show ?thesis
    using thread_context_roundtrip [OF demo_lookup demo_threads_ok(1) wf lnd nz] demo_threads_ok(2,3) by fastforce
qed



text \<open>
  An eight-byte value for a 32-bit register is refused as a non-fatal error when the thread is
  the stopped one, and panics when it is a switched-out one.
\<close>
lemma wide_value_panics:
  assumes "inspectable os tid t m" and "length val = 8" and "valid_reg r" and "register_size r = 4"
  shows "tid_write_register os tid r val t m =
           (if tid = current_task m then Inr (Inl NonFatal) else panic ''Expected u32'')"
proof -
  have cur: "freertos m" "current_thread m = Inr (current_task m)"
    using assms(1) by (simp_all add: inspectable_def current_thread_def)
  show ?thesis
  proof (cases "tid = current_task m")
    case True
    then show ?thesis
      using assms cur by (cases r) (auto simp: tid_write_register_def write_reg_def inspectable_def wf_context_def)
  next
    case False
    then obtain task p where "lookup_saved_task os tid = Inr (Inr task)" "task_at task p (dview m)"
      using assms(1) by (auto simp: inspectable_def elim: frtos_presentE)
    then show ?thesis
      using False assms(2-4) cur
      by (cases r) (auto simp: tid_write_register_def sys_write_single_register_def from_system_def saved_from_le_bytes_def
          frtos_write_single_register_def task_atD)
  qed
qed

lemma wide_value_panics_witness:
  "tid_write_register demo_rtos 3 Lr [0, 0, 0, 0, 0, 0, 0, 0] (demo_target 12 True) demo_threads = panic ''Expected u32''"
  using wide_value_panics [OF demo_inspectable [of "demo_target 12 True"], of "[0, 0, 0, 0, 0, 0, 0, 0]" Lr] demo_threads_ok(3)
  by simp

section \<open>Listing the threads\<close>

text \<open>
  What FreeRTOS documents of its reports: all tasks or, if the array is too short, none; a task
  number is nonzero and used once; the running task is the current one.
\<close>

definition rtos_reports :: "task_status list \<Rightarrow> rtos \<Rightarrow> bool" where
  "rtos_reports ts os \<longleftrightarrow> (\<forall>n. os n = (if length ts \<le> n then ts else []))"

definition tasks_ok :: "nat \<Rightarrow> task_status list \<Rightarrow> bool" where
  "tasks_ok current ts \<longleftrightarrow>
     distinct (map x_task_number ts) \<and> (\<forall>t \<in> set ts. x_task_number t \<noteq> 0) \<and>
     (\<forall>t \<in> set ts. (e_current_state t = RUNNING) = (unat (x_task_number t) = current))"

definition live :: "task_status list \<Rightarrow> task_status list" where
  "live ts = filter (\<lambda>t. e_current_state t \<noteq> DELETED) ts"

lemma all_tids_eq:
  "\<forall>t \<in> set ts. x_task_number t \<noteq> 0 \<Longrightarrow> all_tids ts = Inr (map (\<lambda>t. unat (x_task_number t)) (live ts))"
  by (induction ts) (simp_all add: live_def)

lemma find_unique:
  assumes "distinct (map f xs)" and "x \<in> set xs" and "P x" and "\<And>y. P y \<Longrightarrow> f y = f x"
  shows "find P xs = Some x"
  using assms(1,2)
proof (induction xs)
  case (Cons a xs)
  show ?case
  proof (cases "P a")
    case True
    then have "f a = f x" by (rule assms(4))
    then show ?thesis using Cons.prems True by (auto dest: imageI [of x "set xs" f])
  next
    case False
    then show ?thesis using Cons assms(3) by auto
  qed
qed simp

text \<open>
  With at most 128 tasks GDB is told exactly the tasks that are not deleted; the threads reported
  alive are the listed ones, and looking up the saved context of any thread but the current one never
  panics: it finds the listed task, or reports that there is none.
\<close>
lemma listed_threads_are_alive:
  assumes "rtos_reports ts os" and "tasks_ok (current_task m) ts" and "length ts \<le> 128" and "freertos m"
  shows "list_active_threads os m = Inr (map (\<lambda>t. unat (x_task_number t)) (live ts)) \<and>
         (\<forall>tid. is_thread_alive os tid m = (tid \<in> (\<lambda>t. unat (x_task_number t)) ` set (live ts))) \<and>
         (\<forall>tid. tid \<noteq> current_task m \<longrightarrow>
            (case lookup_saved_task os tid of
               Inr (Inr t) \<Rightarrow> t \<in> set (live ts) \<and> unat (x_task_number t) = tid
             | Inr (Inl NoSuchTid) \<Rightarrow> tid \<notin> (\<lambda>t. unat (x_task_number t)) ` set (live ts)
             | Inl _ \<Rightarrow> False))"
proof -
  have scan: "scan_tasks os = ts" using assms(1,3) by (simp add: scan_tasks_def rtos_reports_def TASK_ARRAY_LEN_def)
  have dist: "distinct (map x_task_number ts)" using assms(2) by (simp add: tasks_ok_def)
  have f1: "find (\<lambda>u. unat (x_task_number u) = unat (x_task_number t)) ts = Some t" if "t \<in> set ts" for t
    by (rule find_unique [OF dist that]) (simp_all add: word_unat_eq_iff)
  have alive: "frtos_thread_exists os tid = (tid \<in> (\<lambda>t. unat (x_task_number t)) ` set (live ts))" for tid
  proof (cases "tid \<in> (\<lambda>t. unat (x_task_number t)) ` set ts")
    case True
    then obtain t where t: "t \<in> set ts" "tid = unat (x_task_number t)" by auto
    have "u = t" if "u \<in> set ts" "unat (x_task_number u) = unat (x_task_number t)" for u
      using f1 [OF t(1)] f1 [OF that(1)] that(2) by simp
    then show ?thesis using t f1 [OF t(1)] by (auto simp: frtos_thread_exists_def scan live_def)
  next
    case False
    then have "find (\<lambda>u. unat (x_task_number u) = tid) ts = None" by (auto simp: find_None_iff)
    then show ?thesis using False by (auto simp: frtos_thread_exists_def scan live_def)
  qed
  have look: "case lookup_saved_task os tid of
               Inr (Inr t) \<Rightarrow> t \<in> set (live ts) \<and> unat (x_task_number t) = tid
             | Inr (Inl NoSuchTid) \<Rightarrow> tid \<notin> (\<lambda>t. unat (x_task_number t)) ` set (live ts)
             | Inl _ \<Rightarrow> False" if other: "tid \<noteq> current_task m" for tid
  proof (cases "find (\<lambda>u. unat (x_task_number u) = tid \<and> e_current_state u \<noteq> DELETED) ts")
    case None
    moreover have "tid \<notin> (\<lambda>t. unat (x_task_number t)) ` set (live ts)"
      using None by (auto simp: find_None_iff live_def)
    ultimately show ?thesis by (simp add: lookup_saved_task_def scan)
  next
    case (Some t)
    then have t: "t \<in> set ts" "unat (x_task_number t) = tid" "e_current_state t \<noteq> DELETED"
      by (auto simp: find_Some_iff)
    then have "e_current_state t \<noteq> RUNNING" using assms(2) other by (auto simp: tasks_ok_def)
    then show ?thesis using Some t by (simp add: lookup_saved_task_def scan live_def)
  qed
  have "all_tids ts = Inr (map (\<lambda>t. unat (x_task_number t)) (live ts))"
    using assms(2) by (intro all_tids_eq) (simp add: tasks_ok_def)
  then have "list_active_threads os m = Inr (map (\<lambda>t. unat (x_task_number t)) (live ts))"
    using assms(4) by (simp add: list_active_threads_def sys_all_threads_def frtos_all_threads_def scan)
  then show ?thesis using alive look assms(4) by (simp add: is_thread_alive_def sys_thread_exists_def)
qed

lemma listed_threads_are_alive_witness:
  "list_active_threads demo_rtos demo_threads = Inr [7, 3] \<and> is_thread_alive demo_rtos 3 demo_threads"
proof -
  let ?ts = "[demo_task 0x6000 7 RUNNING, demo_task 0x7000 3 READY]"
  have r: "rtos_reports ?ts demo_rtos" by (simp add: rtos_reports_def demo_rtos_def)
  have o: "tasks_ok (current_task demo_threads) ?ts"
    by (simp add: tasks_ok_def demo_task_def RUNNING_def READY_def demo_threads_ok(3))
  have l: "live ?ts = ?ts" by (simp add: live_def demo_task_def RUNNING_def READY_def DELETED_def)
  have n: "map (\<lambda>t. unat (x_task_number t)) (live ?ts) = [7, 3]" unfolding l by (simp add: demo_task_def)
  have s: "3 \<in> (\<lambda>t. unat (x_task_number t)) ` set (live ?ts)" unfolding l by (simp add: demo_task_def)
  note result = listed_threads_are_alive [OF r o _ demo_threads_ok(2)]
  have "list_active_threads demo_rtos demo_threads = Inr (map (\<lambda>t. unat (x_task_number t)) (live ?ts))"
    using result by simp
  moreover have "is_thread_alive demo_rtos 3 demo_threads"
    using result s by simp
  ultimately show ?thesis unfolding n by simp
qed

end
