(* ===== verification/Serial.thy ===== *)
theory Serial
  imports Prelude
begin

text \<open>
  Module \<open>serial\<close> of \<open>src/src/sdk/mod.rs\<close>: the bytes the debugger exchanges with VEXos. The
  operating system's side is a parameter, the functions of the jump table on a device state; the
  wrappers, their error codes and the loops that wait for the device are modelled. A loop that
  waits takes fuel, and is None when the fuel does not suffice.
\<close>

record 'p sdk_serial =
  sys_write_char :: "u32 \<Rightarrow> u8 \<Rightarrow> 'p \<Rightarrow> int \<times> 'p"
  sys_write_buf :: "u32 \<Rightarrow> u8 list \<Rightarrow> 'p \<Rightarrow> int \<times> 'p"
  sys_read :: "u32 \<Rightarrow> 'p \<Rightarrow> int \<times> 'p"
  sys_peek :: "u32 \<Rightarrow> 'p \<Rightarrow> int \<times> 'p"
  sys_write_free :: "u32 \<Rightarrow> 'p \<Rightarrow> int"
  vex_tasks_run :: "'p \<Rightarrow> 'p"

definition OUT_BUF_SIZE :: nat where "OUT_BUF_SIZE = 2048"

definition CH_USER :: u32 where "CH_USER = 1"

text \<open>\<open>as usize\<close> of an \<open>i32\<close>, and \<open>as u8\<close>.\<close>

definition as_usize_i32 :: "int \<Rightarrow> nat" where
  "as_usize_i32 i = unat (word_of_int i :: u32)"

definition serial_write_byte :: "'p sdk_serial \<Rightarrow> u32 \<Rightarrow> u8 \<Rightarrow> 'p \<Rightarrow> bool \<times> 'p" where
  "serial_write_byte sdk channel byte p = (let (r, p) = sys_write_char sdk channel byte p in (r \<noteq> 0, p))"

definition serial_write_buf :: "'p sdk_serial \<Rightarrow> u32 \<Rightarrow> u8 list \<Rightarrow> 'p \<Rightarrow> (unit + nat) \<times> 'p" where
  "serial_write_buf sdk channel buf p =
     (let (written, p) = sys_write_buf sdk channel buf p in
      (if written = -1 then Inl () else Inr (as_usize_i32 written), p))"

fun serial_write_all ::
  "nat \<Rightarrow> 'p sdk_serial \<Rightarrow> u32 \<Rightarrow> u8 list \<Rightarrow> 'p \<Rightarrow> ((unit + unit) \<times> 'p) option" where
  "serial_write_all 0 sdk channel data p = None"
| "serial_write_all (Suc fuel) sdk channel data p =
     (case serial_write_buf sdk channel data p of
        (Inl e, p) \<Rightarrow> Some (Inl e, p)
      | (Inr written, p) \<Rightarrow>
          let data = drop (min written (length data)) data in
          if data = [] then Some (Inr (), p)
          else serial_write_all fuel sdk channel data (vex_tasks_run sdk p))"

definition serial_read_byte :: "'p sdk_serial \<Rightarrow> u32 \<Rightarrow> 'p \<Rightarrow> u8 option \<times> 'p" where
  "serial_read_byte sdk channel p =
     (let (r, p) = sys_read sdk channel p in (if r = -1 then None else Some (word_of_int r), p))"

definition serial_peek_byte :: "'p sdk_serial \<Rightarrow> u32 \<Rightarrow> 'p \<Rightarrow> u8 option \<times> 'p" where
  "serial_peek_byte sdk channel p =
     (let (r, p) = sys_peek sdk channel p in (if r = -1 then None else Some (word_of_int r), p))"

definition serial_write_buf_capacity :: "'p sdk_serial \<Rightarrow> u32 \<Rightarrow> 'p \<Rightarrow> nat option" where
  "serial_write_buf_capacity sdk channel p =
     (let len = sys_write_free sdk channel p in if len = -1 then None else Some (as_usize_i32 len))"

section \<open>Writing everything\<close>

text \<open>
  What VEXos documents of a valid channel: a write takes a prefix of the buffer, appends it to what
  the channel has sent, and returns its length; other channels are not touched. Its background
  processing frees the ring buffer: only finitely many writes in a row take nothing, as the
  decreasing count \<open>stalls\<close> says.
\<close>

definition drains :: "'p sdk_serial \<Rightarrow> (u32 \<Rightarrow> 'p \<Rightarrow> u8 list) \<Rightarrow> ('p \<Rightarrow> nat) \<Rightarrow> u32 \<Rightarrow> bool" where
  "drains sdk sent stalls channel \<longleftrightarrow>
     (\<forall>buf p. \<exists>n p'. sys_write_buf sdk channel buf p = (int n, p') \<and> n \<le> length buf \<and> n < 2 ^ 31 \<and>
        sent channel p' = sent channel p @ take n buf \<and> (\<forall>c. c \<noteq> channel \<longrightarrow> sent c p' = sent c p) \<and>
        (n = 0 \<and> buf \<noteq> [] \<longrightarrow> stalls (vex_tasks_run sdk p') < stalls p)) \<and>
     (\<forall>c p. sent c (vex_tasks_run sdk p) = sent c p)"

lemma as_usize_i32_nat [simp]: "n < 2 ^ 31 \<Longrightarrow> as_usize_i32 (int n) = n"
  by (simp add: as_usize_i32_def unat_of_nat)

lemma serial_write_all_mono:
  "serial_write_all fuel sdk ch data p = Some r \<Longrightarrow> fuel \<le> fuel' \<Longrightarrow> serial_write_all fuel' sdk ch data p = Some r"
proof (induction fuel arbitrary: fuel' data p)
  case (Suc fuel)
  then obtain k where "fuel' = Suc k" "fuel \<le> k" by (cases fuel') auto
  then show ?case using Suc by (auto simp: Let_def split: prod.splits sum.splits if_splits)
qed simp

lemma serial_write_all_drains:
  assumes "drains sdk sent stalls ch"
  shows "\<exists>fuel p'. serial_write_all fuel sdk ch data p = Some (Inr (), p') \<and> sent ch p' = sent ch p @ data \<and>
           (\<forall>c. c \<noteq> ch \<longrightarrow> sent c p' = sent c p)"
proof (induction "(length data, stalls p)" arbitrary: data p rule: wf_induct_rule [OF wf_lex_prod [OF wf_less_than wf_less_than]])
  case 1
  note IH = "1"
  obtain n p1 where w: "sys_write_buf sdk ch data p = (int n, p1)" "n \<le> length data" "n < 2 ^ 31"
    "sent ch p1 = sent ch p @ take n data" "\<forall>c. c \<noteq> ch \<longrightarrow> sent c p1 = sent c p"
    "n = 0 \<and> data \<noteq> [] \<longrightarrow> stalls (vex_tasks_run sdk p1) < stalls p"
    using assms [unfolded drains_def, THEN conjunct1, THEN spec [of _ data], THEN spec [of _ p]] by (elim exE conjE) (rule that)
  have run: "sent c (vex_tasks_run sdk q) = sent c q" for c q using assms by (simp add: drains_def)
  have buf: "serial_write_buf sdk ch data p = (Inr n, p1)" using w(1,3) by (simp add: serial_write_buf_def)
  show ?case
  proof (cases "n = length data")
    case True
    then have "serial_write_all (Suc 0) sdk ch data p = Some (Inr (), p1)" using buf by simp
    then show ?thesis using w(4,5) True by (intro exI [of _ "Suc 0"] exI [of _ p1]) simp
  next
    case False
    let ?s = "drop n data" and ?p = "vex_tasks_run sdk p1"
    have "((length ?s, stalls ?p), length data, stalls p) \<in> less_than <*lex*> less_than"
      using w(2,6) False by (cases "n = 0") auto
    from IH [OF this] obtain fuel p' where r: "serial_write_all fuel sdk ch ?s ?p = Some (Inr (), p')"
      "sent ch p' = sent ch ?p @ ?s" "\<forall>c. c \<noteq> ch \<longrightarrow> sent c p' = sent c ?p" by blast
    have "serial_write_all (Suc fuel) sdk ch data p = Some (Inr (), p')"
      using buf r(1) w(2) False by (simp add: Let_def)
    then show ?thesis
      using r(2,3) w(4,5) run by (intro exI [of _ "Suc fuel"] exI [of _ p']) simp
  qed
qed

end
