(* ===== verification/Transport_Mux.thy ===== *)
theory Transport_Mux
  imports Serial
begin

text \<open>
  \<open>src/src/transport/mux.rs\<close> and \<open>transport/mod.rs\<close>: the debugger and the program share one serial
  line. What either of them writes is cut into packets, each led by the id of its channel, encoded
  without zero bytes and ended by a zero. The COBS encoder is a third-party crate and a parameter.
\<close>

section \<open>The code\<close>

text \<open>
  \<open>CobsEncoder\<close>: made for a buffer of some length; a push of one byte is refused when the buffer
  is full; finishing yields the encoded length and the contents of the buffer.
\<close>

record 'e cobs =
  cobs_new :: "nat \<Rightarrow> 'e"
  cobs_push :: "u8 \<Rightarrow> 'e \<Rightarrow> bool \<times> 'e"
  cobs_finalize :: "'e \<Rightarrow> nat \<times> u8 list"

datatype channel_id = User | Debug

fun channel_byte :: "channel_id \<Rightarrow> u8" where
  "channel_byte User = 0x75"
| "channel_byte Debug = 0x64"

fun fill_packet :: "'e cobs \<Rightarrow> 'e \<Rightarrow> u8 list \<Rightarrow> 'e \<times> u8 list" where
  "fill_packet cobs e [] = (e, [])"
| "fill_packet cobs e (byte # buf) =
     (case cobs_push cobs byte e of
        (True, e) \<Rightarrow> fill_packet cobs e buf
      | (False, e) \<Rightarrow> (e, byte # buf))"

definition finish_packet :: "'e cobs \<Rightarrow> 'e \<Rightarrow> u8 list outcome" where
  "finish_packet cobs e =
     (let (len, out_buf) = cobs_finalize cobs e; out_buf = out_buf @ [0] in
      and_then (assert_that (len < length out_buf) ''write_all: index out of bounds'') (\<lambda>_.
        let out_buf = out_buf[len := 0] in ok (take (len + 1) out_buf)))"

text \<open>One round of the loop: the packet and what is left of the buffer.\<close>

definition next_packet :: "'e cobs \<Rightarrow> channel_id \<Rightarrow> u8 list \<Rightarrow> (u8 list \<times> u8 list) outcome" where
  "next_packet cobs channel buf =
     (let max_len = OUT_BUF_SIZE - 1;
          (pushed, e) = cobs_push cobs (channel_byte channel) (cobs_new cobs max_len) in
      and_then (assert_that pushed ''write_all: push'') (\<lambda>_.
      let (e, buf) = fill_packet cobs e buf in
      and_then (finish_packet cobs e) (\<lambda>packet. ok (packet, buf))))"

text \<open>The loop, with fuel for its rounds and for the waiting in each: None when it does not suffice.\<close>

fun mux_write_all ::
  "nat \<Rightarrow> nat \<Rightarrow> 'e cobs \<Rightarrow> 'p sdk_serial \<Rightarrow> channel_id \<Rightarrow> u8 list \<Rightarrow> 'p \<Rightarrow> 'p outcome option" where
  "mux_write_all rounds fuel cobs sdk channel [] p = Some (ok p)"
| "mux_write_all 0 fuel cobs sdk channel (b # buf) p = None"
| "mux_write_all (Suc rounds) fuel cobs sdk channel (b # buf) p =
     (case next_packet cobs channel (b # buf) of
        Inl e \<Rightarrow> Some (Inl e)
      | Inr (packet, rest) \<Rightarrow>
          (case serial_write_all fuel sdk CH_USER packet p of
             None \<Rightarrow> None
           | Some (Inl _, p) \<Rightarrow> Some (panic ''write_all: serial'')
           | Some (Inr _, p) \<Rightarrow> mux_write_all rounds fuel cobs sdk channel rest p))"

fun flush_serial :: "nat \<Rightarrow> 'p sdk_serial \<Rightarrow> 'p \<Rightarrow> 'p outcome option" where
  "flush_serial 0 sdk p = None"
| "flush_serial (Suc fuel) sdk p =
     (case serial_write_buf_capacity sdk CH_USER p of
        None \<Rightarrow> Some (panic ''flush_serial: unwrap'')
      | Some n \<Rightarrow> if n \<noteq> OUT_BUF_SIZE then flush_serial fuel sdk (vex_tasks_run sdk p) else Some (ok p))"

subsection \<open>The program's serial functions\<close>

text \<open>What the program's calls are redirected to; the results are the values returned.\<close>

definition user_write_char ::
  "nat \<Rightarrow> 'e cobs \<Rightarrow> 'p sdk_serial \<Rightarrow> u32 \<Rightarrow> u8 \<Rightarrow> 'p \<Rightarrow> (int \<times> 'p) outcome option" where
  "user_write_char fuel cobs sdk channel c p =
     (if channel = CH_USER then
        map_option (\<lambda>r. and_then r (\<lambda>p. ok (1, p))) (mux_write_all 1 fuel cobs sdk User [c] p)
      else let (r, p) = serial_write_byte sdk channel c p in Some (ok (of_bool r, p)))"

definition user_write_buffer ::
  "nat \<Rightarrow> 'e cobs \<Rightarrow> 'p sdk_serial \<Rightarrow> u32 \<Rightarrow> u8 list \<Rightarrow> 'p \<Rightarrow> (int \<times> 'p) outcome option" where
  "user_write_buffer fuel cobs sdk channel user_data p =
     (if channel = CH_USER then
        map_option (\<lambda>r. and_then r (\<lambda>p. ok (sint (of_nat (length user_data) :: u32), p)))
          (mux_write_all (length user_data) fuel cobs sdk User user_data p)
      else
        let (r, p) = serial_write_buf sdk channel user_data p in
        Some (ok (case r of Inl _ \<Rightarrow> -1 | Inr n \<Rightarrow> sint (of_nat n :: u32), p)))"

definition user_read_char :: "'p sdk_serial \<Rightarrow> u32 \<Rightarrow> 'p \<Rightarrow> int \<times> 'p" where
  "user_read_char sdk channel p =
     (if channel = CH_USER then (-1, p)
      else let (r, p) = serial_read_byte sdk channel p in (case r of None \<Rightarrow> -1 | Some n \<Rightarrow> int (unat n), p))"

definition user_peek_char :: "'p sdk_serial \<Rightarrow> u32 \<Rightarrow> 'p \<Rightarrow> int \<times> 'p" where
  "user_peek_char sdk channel p =
     (if channel = CH_USER then (-1, p)
      else let (r, p) = serial_peek_byte sdk channel p in (case r of None \<Rightarrow> -1 | Some n \<Rightarrow> int (unat n), p))"

subsection \<open>The connection gdbstub uses\<close>

definition stdio_write :: "nat \<Rightarrow> 'e cobs \<Rightarrow> 'p sdk_serial \<Rightarrow> u8 \<Rightarrow> 'p \<Rightarrow> 'p outcome option" where
  "stdio_write fuel cobs sdk byte p = mux_write_all 1 fuel cobs sdk Debug [byte] p"

definition stdio_write_all :: "nat \<Rightarrow> 'e cobs \<Rightarrow> 'p sdk_serial \<Rightarrow> u8 list \<Rightarrow> 'p \<Rightarrow> 'p outcome option" where
  "stdio_write_all fuel cobs sdk buf p = mux_write_all (length buf) fuel cobs sdk Debug buf p"

definition stdio_try_read :: "'p sdk_serial \<Rightarrow> 'p \<Rightarrow> u8 option \<times> 'p" where
  "stdio_try_read sdk p = serial_read_byte sdk CH_USER p"

definition stdio_peek :: "'p sdk_serial \<Rightarrow> 'p \<Rightarrow> u8 option \<times> 'p" where
  "stdio_peek sdk p = serial_peek_byte sdk CH_USER p"

fun stdio_read :: "nat \<Rightarrow> 'p sdk_serial \<Rightarrow> 'p \<Rightarrow> (u8 \<times> 'p) option" where
  "stdio_read 0 sdk p = None"
| "stdio_read (Suc fuel) sdk p =
     (case serial_read_byte sdk CH_USER p of
        (Some byte, p) \<Rightarrow> Some (byte, p)
      | (None, p) \<Rightarrow> stdio_read fuel sdk (vex_tasks_run sdk p))"

section \<open>What the host can make of it\<close>

text \<open>
  The specification: the host cuts the line at the zero bytes and decodes every frame; the first
  byte says whose it is. \<open>complete\<close> says that the line ends with a frame.
\<close>

fun frames :: "u8 list \<Rightarrow> u8 list \<Rightarrow> u8 list list" where
  "frames cur [] = []"
| "frames cur (b # bs) = (if b = 0 then rev cur # frames [] bs else frames (b # cur) bs)"

definition frame_payload :: "(u8 list \<Rightarrow> u8 list option) \<Rightarrow> channel_id \<Rightarrow> u8 list \<Rightarrow> u8 list" where
  "frame_payload decode channel frame =
     (case decode frame of Some (b # bs) \<Rightarrow> if b = channel_byte channel then bs else [] | _ \<Rightarrow> [])"

definition demux :: "(u8 list \<Rightarrow> u8 list option) \<Rightarrow> channel_id \<Rightarrow> u8 list \<Rightarrow> u8 list" where
  "demux decode channel line = concat (map (frame_payload decode channel) (frames [] line))"

definition complete :: "u8 list \<Rightarrow> bool" where
  "complete line \<longleftrightarrow> line = [] \<or> last line = 0"

text \<open>
  What the crate documents of the encoder: without the delimiter the encoding has no zero, fits the
  buffer and decodes to the bytes pushed. The code relies on two things more: a buffer of this
  size takes at least the id and one byte, and a refused push leaves the encoder fit to be finished.
\<close>

definition encodes :: "'e cobs \<Rightarrow> (u8 list \<Rightarrow> u8 list option) \<Rightarrow> ('e \<Rightarrow> u8 list \<Rightarrow> bool) \<Rightarrow> bool" where
  "encodes cobs decode holds \<longleftrightarrow>
     holds (cobs_new cobs (OUT_BUF_SIZE - 1)) [] \<and>
     (\<forall>e bs b. holds e bs \<longrightarrow>
        (case cobs_push cobs b e of
           (True, e') \<Rightarrow> holds e' (bs @ [b])
         | (False, e') \<Rightarrow> 2 \<le> length bs \<and> holds e' bs)) \<and>
     (\<forall>e bs. holds e bs \<longrightarrow>
        (case cobs_finalize cobs e of
           (n, out) \<Rightarrow> n \<le> length out \<and> length out = OUT_BUF_SIZE - 1 \<and> 0 \<notin> set (take n out) \<and> decode (take n out) = Some bs))"

lemma channel_byte_inject [simp]: "channel_byte c = channel_byte d \<longleftrightarrow> c = d"
  by (cases c; cases d) simp_all

lemma frames_nonzero: "0 \<notin> set p \<Longrightarrow> frames cur (p @ 0 # line) = (rev cur @ p) # frames [] line"
  by (induction p arbitrary: cur) auto

lemma frames_append: "complete line \<Longrightarrow> line \<noteq> [] \<Longrightarrow> frames cur (line @ rest) = frames cur line @ frames [] rest"
proof (induction line arbitrary: cur)
  case (Cons b line)
  then show ?case by (cases "line = []") (auto simp: complete_def)
qed simp

lemma encodes_pushE:
  assumes "encodes cobs decode holds" and "holds e bs"
  obtains (pushed) e' where "cobs_push cobs b e = (True, e')" "holds e' (bs @ [b])"
  | (full) e' where "cobs_push cobs b e = (False, e')" "2 \<le> length bs" "holds e' bs"
proof -
  have "case cobs_push cobs b e of (True, e') \<Rightarrow> holds e' (bs @ [b]) | (False, e') \<Rightarrow> 2 \<le> length bs \<and> holds e' bs"
    by (rule assms(1) [unfolded encodes_def, THEN conjunct2, THEN conjunct1, rule_format, OF assms(2)])
  then show ?thesis using that by (auto split: prod.splits bool.splits)
qed

lemma fill_packet_holds:
  assumes "encodes cobs decode holds" and "holds e bs"
  shows "\<exists>e' taken rest. fill_packet cobs e buf = (e', rest) \<and> buf = taken @ rest \<and> holds e' (bs @ taken) \<and>
           (rest = [] \<or> 2 \<le> length (bs @ taken))"
  using assms(2)
proof (induction buf arbitrary: e bs)
  case Nil
  then show ?case by simp
next
  case (Cons b buf)
  from assms(1) Cons.prems show ?case
  proof (cases rule: encodes_pushE [where b = b])
    case (pushed e')
    from Cons.IH [OF pushed(2)] obtain e2 taken rest where
      "fill_packet cobs e' buf = (e2, rest)" "buf = taken @ rest" "holds e2 ((bs @ [b]) @ taken)"
      "rest = [] \<or> 2 \<le> length ((bs @ [b]) @ taken)" by blast
    then show ?thesis using pushed(1) by (intro exI [of _ e2] exI [of _ "b # taken"] exI [of _ rest]) simp
  next
    case (full e')
    then show ?thesis by (intro exI [of _ e'] exI [of _ "[]"] exI [of _ "b # buf"]) simp
  qed
qed

lemma next_packet_spec:
  assumes "encodes cobs decode holds" and "buf \<noteq> []"
  obtains p taken rest where "next_packet cobs channel buf = Inr (p @ [0], rest)" "buf = taken @ rest" "taken \<noteq> []"
    "0 \<notin> set p" "length p < OUT_BUF_SIZE" "decode p = Some (channel_byte channel # taken)"
proof -
  have start: "holds (cobs_new cobs (OUT_BUF_SIZE - 1)) []" using assms(1) by (simp add: encodes_def)
  obtain e1 where e1: "cobs_push cobs (channel_byte channel) (cobs_new cobs (OUT_BUF_SIZE - 1)) = (True, e1)"
    "holds e1 [channel_byte channel]"
    using assms(1) start by (rule encodes_pushE) auto
  obtain e2 taken rest where f: "fill_packet cobs e1 buf = (e2, rest)" "buf = taken @ rest"
    "holds e2 (channel_byte channel # taken)" "rest = [] \<or> 2 \<le> length (channel_byte channel # taken)"
    using fill_packet_holds [OF assms(1) e1(2), of buf] by auto
  obtain n out where o: "cobs_finalize cobs e2 = (n, out)" by fastforce
  have o': "n \<le> length out" "length out = OUT_BUF_SIZE - 1" "0 \<notin> set (take n out)"
    "decode (take n out) = Some (channel_byte channel # taken)"
    using assms(1) [unfolded encodes_def, THEN conjunct2, THEN conjunct2, rule_format, OF f(3)] o by simp_all
  have "finish_packet cobs e2 = Inr (take n out @ [0])"
    using o o'(1) by (simp add: finish_packet_def take_Suc_conv_app_nth list_update_append nth_append split: nat.splits)
  then have "next_packet cobs channel buf = Inr (take n out @ [0], rest)"
    using e1(1) f(1) by (simp add: next_packet_def Let_def)
  moreover have "taken \<noteq> []" using f(2,4) assms(2) by (cases taken) auto
  moreover have "length (take n out) < OUT_BUF_SIZE" using o'(1,2) by (simp add: OUT_BUF_SIZE_def)
  ultimately show ?thesis using that f(2) o'(3,4) by blast
qed

lemma mux_write_all_mono:
  "mux_write_all rounds fuel cobs sdk ch buf p = Some r \<Longrightarrow> rounds \<le> rounds' \<Longrightarrow> fuel \<le> fuel' \<Longrightarrow>
   mux_write_all rounds' fuel' cobs sdk ch buf p = Some r"
proof (induction rounds fuel cobs sdk ch buf p arbitrary: rounds' rule: mux_write_all.induct)
  case (3 rounds fuel cobs sdk ch b buf p)
  obtain k where k: "rounds' = Suc k" "rounds \<le> k" using 3(3) by (cases rounds') auto
  show ?case
  proof (cases "next_packet cobs ch (b # buf)")
    case (Inl e)
    then show ?thesis using 3(2) k by simp
  next
    case (Inr pr)
    obtain packet rest where pr: "pr = (packet, rest)" by fastforce
    obtain r1 p1 where w: "serial_write_all fuel sdk CH_USER packet p = Some (r1, p1)"
      using 3(2) Inr pr by (auto split: option.splits)
    have w': "serial_write_all fuel' sdk CH_USER packet p = Some (r1, p1)"
      using serial_write_all_mono [OF w 3(4)] .
    show ?thesis
    proof (cases r1)
      case (Inl e)
      then show ?thesis using 3(2) \<open>next_packet cobs ch (b # buf) = Inr pr\<close> pr w w' k by simp
    next
      case (Inr u)
      then have "mux_write_all rounds fuel cobs sdk ch rest p1 = Some r"
        using 3(2) \<open>next_packet cobs ch (b # buf) = Inr pr\<close> pr w by simp
      then have "mux_write_all k fuel' cobs sdk ch rest p1 = Some r"
        using "3.IH" [OF \<open>next_packet cobs ch (b # buf) = Inr pr\<close> pr [symmetric] w refl Inr _ k(2) 3(4)] by simp
      then show ?thesis using Inr \<open>next_packet cobs ch (b # buf) = Inr pr\<close> pr w' k by simp
    qed
  qed
qed auto

section \<open>The frames on the line\<close>

definition stream :: "u8 list list \<Rightarrow> u8 list" where
  "stream fs = concat (map (\<lambda>f. f @ [0]) fs)"

lemma stream_simps [simp]:
  "stream [] = []" "stream (f # fs) = f @ 0 # stream fs" "stream (fs @ gs) = stream fs @ stream gs"
  by (simp_all add: stream_def)

text \<open>A frame of a channel that the receiver can decode.\<close>

definition good_frame :: "(u8 list \<Rightarrow> u8 list option) \<Rightarrow> channel_id \<Rightarrow> u8 list \<Rightarrow> bool" where
  "good_frame decode channel f \<longleftrightarrow>
     0 \<notin> set f \<and> length f < OUT_BUF_SIZE \<and> (\<exists>bs. decode f = Some (channel_byte channel # bs))"

lemma frames_stream: "\<forall>f \<in> set fs. 0 \<notin> set f \<Longrightarrow> frames [] (stream fs) = fs"
  by (induction fs) (simp_all add: frames_nonzero)

lemma demux_stream:
  assumes "complete line" and "\<forall>f \<in> set fs. 0 \<notin> set f"
  shows "demux decode c (line @ stream fs) = demux decode c line @ concat (map (frame_payload decode c) fs)"
    and "complete (line @ stream fs)"
proof -
  show "demux decode c (line @ stream fs) = demux decode c line @ concat (map (frame_payload decode c) fs)"
    using frames_append [OF assms(1), of "[]" "stream fs"] frames_stream [OF assms(2)]
    by (cases "line = []") (simp_all add: demux_def)
  show "complete (line @ stream fs)"
    using assms(1) by (cases fs rule: rev_cases) (simp_all add: complete_def)
qed

lemma payload_good: "good_frame decode channel f \<Longrightarrow> c \<noteq> channel \<Longrightarrow> frame_payload decode c f = []"
  by (auto simp: good_frame_def frame_payload_def)

lemma payloads_good:
  "\<forall>f \<in> set fs. good_frame decode channel f \<Longrightarrow>
   concat (map (frame_payload decode c) fs) = (if c = channel then concat (map (frame_payload decode channel) fs) else [])"
  by (induction fs) (auto simp: payload_good)

lemma mux_write_all_stream:
  assumes "encodes cobs decode holds" and "drains sdk sent stalls CH_USER"
  shows "\<exists>fuel p' fs. mux_write_all (length buf) fuel cobs sdk channel buf p = Some (Inr p') \<and>
           sent CH_USER p' = sent CH_USER p @ stream fs \<and> (\<forall>f \<in> set fs. good_frame decode channel f) \<and>
           concat (map (frame_payload decode channel) fs) = buf \<and> (\<forall>c. c \<noteq> CH_USER \<longrightarrow> sent c p' = sent c p)"
proof (induction buf arbitrary: p rule: length_induct)
  case (1 buf)
  show ?case
  proof (cases buf)
    case Nil
    then show ?thesis by (intro exI [of _ 0] exI [of _ p] exI [of _ "[]"]) simp
  next
    case (Cons b bs)
    then have "buf \<noteq> []" by simp
    with assms(1) obtain q taken rest where n: "next_packet cobs channel buf = Inr (q @ [0], rest)" "buf = taken @ rest"
      "taken \<noteq> []" "0 \<notin> set q" "length q < OUT_BUF_SIZE" "decode q = Some (channel_byte channel # taken)"
      by (rule next_packet_spec)
    obtain f1 p1 where s: "serial_write_all f1 sdk CH_USER (q @ [0]) p = Some (Inr (), p1)"
      "sent CH_USER p1 = sent CH_USER p @ q @ [0]" "\<forall>c. c \<noteq> CH_USER \<longrightarrow> sent c p1 = sent c p"
      using serial_write_all_drains [OF assms(2)] by metis
    have "length rest < length buf" using n(2,3) by simp
    with 1 obtain f2 p2 fs where r: "mux_write_all (length rest) f2 cobs sdk channel rest p1 = Some (Inr p2)"
      "sent CH_USER p2 = sent CH_USER p1 @ stream fs" "\<forall>f \<in> set fs. good_frame decode channel f"
      "concat (map (frame_payload decode channel) fs) = rest" "\<forall>c. c \<noteq> CH_USER \<longrightarrow> sent c p2 = sent c p1"
      by blast
    have "mux_write_all (length bs) (max f1 f2) cobs sdk channel rest p1 = Some (Inr p2)"
      using mux_write_all_mono [OF r(1)] \<open>length rest < length buf\<close> Cons by simp
    moreover have "serial_write_all (max f1 f2) sdk CH_USER (q @ [0]) p = Some (Inr (), p1)"
      using serial_write_all_mono [OF s(1)] by simp
    ultimately have "mux_write_all (length buf) (max f1 f2) cobs sdk channel buf p = Some (Inr p2)"
      using n(1) Cons by simp
    moreover have "good_frame decode channel q" "frame_payload decode channel q = taken"
      using n(4-6) by (simp_all add: good_frame_def frame_payload_def)
    ultimately show ?thesis
      using r(2-5) s(2,3) n(2) by (intro exI [of _ "max f1 f2"] exI [of _ p2] exI [of _ "q # fs"]) simp
  qed
qed

section \<open>An encoder and a device for the witness\<close>

text \<open>Two bytes per byte, one for each half, both made nonzero; the device takes up to a mebibyte at once.\<close>

definition halves :: "u8 \<Rightarrow> u8 list" where
  "halves b = [b div 16 + 1, b mod 16 + 1]"

fun unhalve :: "u8 list \<Rightarrow> u8 list option" where
  "unhalve [] = Some []"
| "unhalve [h] = None"
| "unhalve (h # l # bs) = map_option (\<lambda>r. ((h - 1) * 16 + (l - 1)) # r) (unhalve bs)"

definition demo_cobs :: "u8 list cobs" where
  "demo_cobs = \<lparr>cobs_new = (\<lambda>_. []), cobs_push = (\<lambda>b bs. if length bs < 1000 then (True, bs @ [b]) else (False, bs)),
     cobs_finalize = (\<lambda>bs. (2 * length bs, concat (map halves bs) @ replicate (2047 - 2 * length bs) 0))\<rparr>"

definition demo_holds :: "u8 list \<Rightarrow> u8 list \<Rightarrow> bool" where
  "demo_holds e bs \<longleftrightarrow> e = bs \<and> length bs \<le> 1000"

definition demo_serial :: "u8 list sdk_serial" where
  "demo_serial = \<lparr>sys_write_char = (\<lambda>_ _ p. (1, p)),
     sys_write_buf = (\<lambda>_ buf p. let n = min (length buf) (2 ^ 20) in (int n, p @ take n buf)),
     sys_read = (\<lambda>_ p. (-1, p)), sys_peek = (\<lambda>_ p. (-1, p)), sys_write_free = (\<lambda>_ _. 2048), vex_tasks_run = (\<lambda>p. p)\<rparr>"

definition demo_sent :: "u32 \<Rightarrow> u8 list \<Rightarrow> u8 list" where
  "demo_sent c p = (if c = CH_USER then p else [])"

lemma halves_nonzero: "0 \<notin> set (halves b)"
proof -
  have "unat (b div 16) < 16" "unat (b mod 16) < 16"
    using unsigned_less [of b, where 'a = nat] by (simp_all add: unat_div unat_mod)
  then have "unat (b div 16 + 1) = unat (b div 16) + 1" "unat (b mod 16 + 1) = unat (b mod 16) + 1"
    by (simp_all add: unat_word_ariths)
  then show ?thesis by (auto simp: halves_def word_unat_eq_iff)
qed

lemma length_halves [simp]: "length (concat (map halves bs)) = 2 * length bs"
  by (induction bs) (simp_all add: halves_def)

lemma unhalve_halves: "unhalve (concat (map halves bs)) = Some bs"
  by (induction bs) (simp_all add: halves_def div_mult_mod_eq)

lemma demo_encodes: "encodes demo_cobs unhalve demo_holds"
  using halves_nonzero by (auto simp: encodes_def demo_cobs_def demo_holds_def OUT_BUF_SIZE_def unhalve_halves)

lemma demo_drains: "drains demo_serial demo_sent (\<lambda>_. 0) CH_USER"
proof -
  have "\<exists>n p'. sys_write_buf demo_serial CH_USER buf p = (int n, p') \<and> n \<le> length buf \<and> n < 2 ^ 31 \<and>
        demo_sent CH_USER p' = demo_sent CH_USER p @ take n buf \<and> (\<forall>c. c \<noteq> CH_USER \<longrightarrow> demo_sent c p' = demo_sent c p) \<and>
        (n = 0 \<and> buf \<noteq> [] \<longrightarrow> (0::nat) < 0)" for buf p
    by (rule exI [of _ "min (length buf) (2 ^ 20)"], rule exI [of _ "p @ take (2 ^ 20) buf"])
      (auto simp: demo_serial_def demo_sent_def Let_def min_def)
  then show ?thesis by (simp add: drains_def) (simp add: demo_serial_def demo_sent_def)
qed

section \<open>Writing on the shared line\<close>



end
