(* ===== verification/Sdk_Patching.thy ===== *)
theory Sdk_Patching
  imports Gdb_Target
begin

text \<open>
  \<open>src/src/sdk/mod.rs\<close> and \<open>sdk/competition.rs\<close>: rewriting the program's SDK functions to branch
  elsewhere, stopping the motors, and the competition status the program is shown. The places of the
  two trampolines are linker symbols; the devices on the ports and the status VEXos has are state of
  the brain the SDK reads and writes.
\<close>

section \<open>Redirecting a function\<close>

record linker_symbols =
  trampoline_arm :: u32
  trampoline_arm_end :: u32
  trampoline_thumb :: u32
  trampoline_thumb_end :: u32

definition THUMB_BIT :: u32 where "THUMB_BIT = 1"

text \<open>
  \<open>copy_nonoverlapping\<close> of halfwords traps null and misaligned pointers and overlapping ranges.
\<close>

definition assert_nonoverlapping :: "u32 \<Rightarrow> u32 \<Rightarrow> nat \<Rightarrow> unit outcome" where
  "assert_nonoverlapping src dst n =
     assert_that (src \<noteq> 0 \<and> dst \<noteq> 0 \<and> unat src mod 2 = 0 \<and> unat dst mod 2 = 0 \<and> apart src n dst n)
       ''copy_nonoverlapping''"

definition redirect_function ::
  "linker_symbols \<Rightarrow> u32 \<Rightarrow> u32 \<Rightarrow> 'm caches_scheme \<Rightarrow> 'm caches_scheme outcome" where
  "redirect_function syms target destination m =
     (let is_thumb = (target AND THUMB_BIT \<noteq> 0);
          (trampoline_fn, trampoline_end) =
            (if is_thumb then (trampoline_thumb syms, trampoline_thumb_end syms)
             else (trampoline_arm syms, trampoline_arm_end syms));
          trampoline_src = trampoline_fn AND NOT THUMB_BIT;
          write_addr = target AND NOT THUMB_BIT in
      and_then (assert_that (trampoline_src \<le> trampoline_end) ''redirect_function: underflow'') (\<lambda>_.
      let code_len = unat (trampoline_end - trampoline_src) div 2;
          destination_slot = write_addr + of_nat (2 * code_len) in
      and_then (assert_nonoverlapping trampoline_src write_addr (2 * code_len)) (\<lambda>_.
      let m = write_data write_addr (load (dview m) trampoline_src (2 * code_len)) m;
          m = write_data destination_slot (le_bytes 4 destination) m;
          m = sync_instruction (Address write_addr) m in
      ok (sync_instruction (Address destination_slot) m))))"

section \<open>The brain\<close>

record brain = machine +
  device_present :: "nat \<Rightarrow> bool"
  motor_mv :: "nat \<Rightarrow> int"
  comp_status_override :: u32
  real_comp_status :: u32

text \<open>\<open>V5_MAX_DEVICE_PORTS\<close> is a constant of the SDK and a parameter.\<close>

fun stop_motors :: "nat list \<Rightarrow> 'b brain_scheme \<Rightarrow> 'b brain_scheme" where
  "stop_motors [] b = b"
| "stop_motors (port_num # ports) b =
     (if \<not> device_present b port_num then stop_motors ports b
      else stop_motors ports (b\<lparr>motor_mv := (motor_mv b)(port_num := 0)\<rparr>))"

definition stop_all_motors :: "nat \<Rightarrow> 'b brain_scheme \<Rightarrow> 'b brain_scheme" where
  "stop_all_motors max_device_ports b = stop_motors [0..<max_device_ports] b"

section \<open>Competition status\<close>

definition comp_disabled :: "u32 \<Rightarrow> bool" where "comp_disabled s = bit s 0"
definition comp_autonomous :: "u32 \<Rightarrow> bool" where "comp_autonomous s = bit s 1"
definition comp_connected :: "u32 \<Rightarrow> bool" where "comp_connected s = bit s 2"
definition comp_system :: "u32 \<Rightarrow> bool" where "comp_system s = bit s 3"
definition comp_gdb_override :: "u32 \<Rightarrow> bool" where "comp_gdb_override s = bit s 31"

definition with_disabled :: "bool \<Rightarrow> u32 \<Rightarrow> u32" where "with_disabled v s = with_bit 0 v s"
definition with_autonomous :: "bool \<Rightarrow> u32 \<Rightarrow> u32" where "with_autonomous v s = with_bit 1 v s"
definition with_connected :: "bool \<Rightarrow> u32 \<Rightarrow> u32" where "with_connected v s = with_bit 2 v s"
definition with_system :: "bool \<Rightarrow> u32 \<Rightarrow> u32" where "with_system v s = with_bit 3 v s"
definition with_gdb_override :: "bool \<Rightarrow> u32 \<Rightarrow> u32" where "with_gdb_override v s = with_bit 31 v s"

definition comp_debug :: "u32 \<Rightarrow> string" where
  "comp_debug s =
     (let mode = (if comp_disabled s then ''disabled'' else if comp_autonomous s then ''autonomous'' else ''opcontrol'');
          system = (if comp_connected s then (if comp_system s then ''field-control'' else ''competition-switch'')
                    else ''disconnected'')
      in mode @ ''/'' @ system)"

definition set_override :: "u32 option \<Rightarrow> 'b brain_scheme \<Rightarrow> 'b brain_scheme" where
  "set_override value b =
     (let status = (case value of Some status \<Rightarrow> with_gdb_override True status | None \<Rightarrow> 0) in
      b\<lparr>comp_status_override := status\<rparr>)"

definition read_override :: "'b brain_scheme \<Rightarrow> u32 option" where
  "read_override b =
     (let status_override = comp_status_override b in
      if \<not> comp_gdb_override status_override then None
      else Some (with_gdb_override False status_override))"

definition read_real_status :: "'b brain_scheme \<Rightarrow> u32" where
  "read_real_status b = real_comp_status b"

definition read_status :: "'b brain_scheme \<Rightarrow> u32" where
  "read_status b = (case read_override b of Some status_override \<Rightarrow> status_override | None \<Rightarrow> read_real_status b)"

definition install_override ::
  "linker_symbols \<Rightarrow> u32 \<Rightarrow> u32 \<Rightarrow> 'm caches_scheme \<Rightarrow> 'm caches_scheme outcome" where
  "install_override syms vex_competition_status read_status_fn m =
     redirect_function syms vex_competition_status read_status_fn m"

section \<open>Facts\<close>

lemma stop_motors_eq:
  "stop_motors ports b = b\<lparr>motor_mv := (\<lambda>i. if i \<in> set ports \<and> device_present b i then 0 else motor_mv b i)\<rparr>"
proof (induction ports arbitrary: b)
  case Nil
  then show ?case by simp
next
  case (Cons i ports)
  then show ?case by (auto simp: fun_eq_iff intro!: brain.equality)
qed

text \<open>
  Stopping the motors sets the voltage of every port that has a device to zero, whatever ports
  are empty in between, and touches nothing else.
\<close>
lemma stop_all_motors_exact:
  "stop_all_motors n b = b\<lparr>motor_mv := (\<lambda>i. if i < n \<and> device_present b i then 0 else motor_mv b i)\<rparr>"
  by (simp add: stop_all_motors_def stop_motors_eq)

lemma override_reads:
  "read_override (set_override (Some s) b) = Some (with_gdb_override False s)" "read_override (set_override None b) = None"
  "read_status (set_override (Some s) b) = with_gdb_override False s" "read_status (set_override None b) = real_comp_status b"
proof -
  have "with_gdb_override False (with_gdb_override True s) = with_gdb_override False s"
    by (rule bit_eqI) (auto simp: with_gdb_override_def bit_with_bit)
  then show "read_override (set_override (Some s) b) = Some (with_gdb_override False s)"
    by (simp add: read_override_def set_override_def comp_gdb_override_def with_gdb_override_def bit_with_bit)
  then show "read_status (set_override (Some s) b) = with_gdb_override False s" by (simp add: read_status_def)
  show "read_override (set_override None b) = None"
    by (simp add: read_override_def set_override_def comp_gdb_override_def)
  then show "read_status (set_override None b) = real_comp_status b"
    by (simp add: read_status_def read_real_status_def) (simp add: set_override_def)
qed

text \<open>
  The program sees the status the user set, all but the marker bit, from when it is set until it
  is taken back; then it sees the one VEXos has. A status of all zeros is an override like any other.
\<close>
lemma override_shown:
  "read_override (set_override (Some s) b) = Some (with_gdb_override False s) \<and>
   read_status (set_override (Some s) b) = with_gdb_override False s \<and>
   comp_debug (read_status (set_override (Some s) b)) = comp_debug s \<and>
   read_override (set_override None b) = None \<and> read_status (set_override None b) = real_comp_status b"
  by (simp add: override_reads comp_debug_def comp_disabled_def comp_autonomous_def comp_connected_def comp_system_def
      with_gdb_override_def bit_with_bit)

lemma div_between:
  fixes e i :: nat
  assumes "i < 8"
  shows "(e + i) div 32 = e div 32 \<or> (e + i) div 32 = (e + 8) div 32"
proof -
  have "e div 32 \<le> (e + i) div 32" "(e + i) div 32 \<le> (e + 8) div 32" "(e + 8) div 32 \<le> (e + 32) div 32"
    using assms by (simp_all only: div_le_mono le_add1 nat_add_left_cancel_le less_imp_le numeral_le_iff semiring_norm)
  moreover have "(e + 32) div 32 = e div 32 + 1" by simp
  ultimately show ?thesis by linarith
qed

lemma line_cover:
  assumes "unat a + 8 < 2 ^ 32" and "i < 8"
  shows "same_line a (a + of_nat i) \<or> same_line (a + 8) (a + of_nat i)"
proof -
  have u: "unat (a + of_nat i) = unat a + i" "unat (a + 8) = unat a + 8"
    using assms unat_add_u32 [of a i] unat_add_u32 [of a 8] by simp_all
  show ?thesis
    using div_between [OF assms(2), of "unat a"] u
    by (auto simp only: same_line_def word_unat_eq_iff drop_bit_eq_div unat_div u) simp_all
qed

lemma load_eqI: "(\<And>i. i < n \<Longrightarrow> f (a + of_nat i) = g (b + of_nat i)) \<Longrightarrow> load f a n = load g b n"
  by (simp add: load_def)

lemma even_masked: "unat (w AND NOT 1 :: u32) mod 2 = 0"
proof -
  have "\<not> bit (unat (w AND NOT 1)) 0" unfolding bit_unsigned_iff by (simp add: bit_simps)
  then show ?thesis by (simp only: bit_0 even_iff_mod_2_eq_zero not_not)
qed

lemma redirect_spec:
  assumes "src = (if target AND 1 \<noteq> 0 then trampoline_thumb syms else trampoline_arm syms) AND NOT 1"
    and "(if target AND 1 \<noteq> 0 then trampoline_thumb_end syms else trampoline_arm_end syms) = src + 8"
    and "entry = target AND NOT 1" and "src \<noteq> 0" and "entry \<noteq> 0" and "unat src + 8 < 2 ^ 32" and "unat entry + 12 < 2 ^ 32"
    and "apart src 8 entry 12"
  shows "\<exists>m'. redirect_function syms target destination m = Inr m' \<and>
           load (iview m') entry 8 = load (dview m) src 8 \<and> read_word (dview m') (entry + 8) = destination \<and>
           (\<forall>x. \<not> in_range entry 12 x \<longrightarrow> dview m' x = dview m x) \<and> caches.more m' = caches.more m"
proof -
  let ?m1 = "write_data entry (load (dview m) src 8) m"
  let ?m2 = "write_data (entry + 8) (le_bytes 4 destination) ?m1"
  let ?m' = "sync_instruction (Address (entry + 8)) (sync_instruction (Address entry) ?m2)"
  have stop: "src \<le> src + 8" "unat (src + 8 - src) div 2 = 4"
    using assms(6) unat_add_u32 [of src 8] by (simp_all add: word_le_nat_alt)
  have ap: "apart src 8 entry 8" using assms(8) by (simp add: apart_def)
  have even: "unat src mod 2 = 0" "unat entry mod 2 = 0" using even_masked assms(1,3) by simp_all
  have run: "redirect_function syms target destination m = Inr ?m'"
    using assms(1-5) stop ap even
    by (cases "target AND 1 = 0")
      (simp_all add: redirect_function_def THUMB_BIT_def assert_nonoverlapping_def Let_def)
  have off: "\<not> in_range (entry + 8) 4 (entry + of_nat i)" if "i < 8" for i
  proof -
    have "unat (entry + of_nat i - (entry + 8)) = 2 ^ 32 - (8 - i)"
      using that by (simp add: unat_sub_if' unat_of_nat)
    then show ?thesis using that by (simp add: in_range_def)
  qed
  have fetch: "iview ?m' (entry + of_nat i) = dview m (src + of_nat i)" if "i < 8" for i
  proof -
    have "dview ?m2 (entry + of_nat i) = load (dview m) src 8 ! unat (entry + of_nat i - entry)"
      using off [OF that] in_range_offset [of i 8 entry] that by (simp add: store_out store_in)
    also have "\<dots> = dview m (src + of_nat i)" using that by (simp add: load_def unat_of_nat)
    finally show ?thesis
      using line_cover [of entry i] that assms(7) by auto
  qed
  have "load (iview ?m') entry 8 = load (dview m) src 8"
    by (rule load_eqI) (rule fetch)
  moreover have "read_word (dview ?m') (entry + 8) = destination" by (simp add: read_word_def load_store_same)
  moreover have "dview ?m' x = dview m x" if x: "\<not> in_range entry 12 x" for x
  proof -
    have "\<not> in_range entry 8 x" using x by (simp add: in_range_def)
    moreover have "\<not> in_range (entry + 8) 4 x"
    proof
      assume "in_range (entry + 8) 4 x"
      then obtain i where "i < 4" "x = entry + 8 + of_nat i" by (rule in_rangeE)
      then have "x = entry + of_nat (8 + i)" "8 + i < 12" by simp_all
      then show False using x in_range_offset [of "8 + i" 12 entry] by simp
    qed
    ultimately show ?thesis by (simp add: store_out)
  qed
  moreover have "caches.more ?m' = caches.more m" by simp
  ultimately show ?thesis using run by blast
qed

text \<open>
  Redirecting a function makes the processor fetch the trampoline from its entry: the instruction
  stream there is the trampoline's code and the word after it is the destination, also when the entry
  lies across two cache lines, and no other byte of memory changes.
\<close>
lemma redirect_installs_trampoline:
  assumes "src = (if target AND 1 \<noteq> 0 then trampoline_thumb syms else trampoline_arm syms) AND NOT 1"
    and "(if target AND 1 \<noteq> 0 then trampoline_thumb_end syms else trampoline_arm_end syms) = src + 8"
    and "entry = target AND NOT 1" and "src \<noteq> 0" and "entry \<noteq> 0" and "unat src + 8 < 2 ^ 32" and "unat entry + 12 < 2 ^ 32"
    and "apart src 8 entry 12"
  shows "\<exists>m'. redirect_function syms target destination m = Inr m' \<and>
           load (iview m') entry 8 = load (dview m) src 8 \<and> read_word (dview m') (entry + 8) = destination \<and>
           (\<forall>x. \<not> in_range entry 12 x \<longrightarrow> dview m' x = dview m x)"
  using redirect_spec [OF assms, of destination m] by blast

lemma redirect_installs_trampoline_witness:
  "\<exists>m'. redirect_function \<lparr>trampoline_arm = 0x1000, trampoline_arm_end = 0x1008, trampoline_thumb = 0x1011, trampoline_thumb_end = 0x1018\<rparr>
       0x201b 0x3001 demo_vmsa = Inr m' \<and> load (iview m') 0x201a 8 = load (dview demo_vmsa) 0x1010 8"
proof -
  have "apart 0x1010 8 0x201a 12" by (simp add: apart_def)
  then show ?thesis
    using redirect_installs_trampoline [of "0x1010" "0x201b"
        "\<lparr>trampoline_arm = 0x1000, trampoline_arm_end = 0x1008, trampoline_thumb = 0x1011, trampoline_thumb_end = 0x1018\<rparr>"
        "0x201a" "0x3001" demo_vmsa]
    by auto
qed

end
