(* ===== verification/Monitor.thy ===== *)
theory Monitor
  imports Sdk_Patching Sys_Threads
begin

text \<open>
  \<open>src/src/gdb_target/monitor.rs\<close> and the \<open>sys\<close> command of \<open>src/src/sys/freertos/mod.rs\<close>: GDB's
  \<open>monitor\<close> commands. A command is the text GDB sends, split at white space; its result is the text
  for GDB's console and a change of the debugger's settings. What the SDK reports (controllers,
  battery, devices), the derived \<open>Debug\<close> output, terminal colours, the parser of log levels and the
  package version are parameters.
\<close>

section \<open>Text\<close>

text \<open>A \<open>str\<close> is its list of code points.\<close>

type_synonym str = "nat list"

definition lit :: "string \<Rightarrow> str" where
  "lit s = map of_char s"

definition NL :: nat where "NL = 10"

definition lines :: "string list \<Rightarrow> str" where
  "lines ls = concat (map (\<lambda>l. lit l @ [NL]) ls)"

definition cont :: "nat \<Rightarrow> bool" where
  "cont b \<longleftrightarrow> 0x80 \<le> b \<and> b < 0xC0"

text \<open>\<open>str::from_utf8\<close>\<close>

fun utf8 :: "nat list \<Rightarrow> str option" where
  "utf8 [] = Some []"
| "utf8 (b # bs) =
     (if b < 0x80 then map_option (\<lambda>s. b # s) (utf8 bs)
      else case bs of
        [] \<Rightarrow> None
      | c1 # bs1 \<Rightarrow>
          if 0xC2 \<le> b \<and> b < 0xE0 \<and> cont c1 then map_option (\<lambda>s. ((b - 0xC0) * 64 + (c1 - 0x80)) # s) (utf8 bs1)
          else (case bs1 of
            [] \<Rightarrow> None
          | c2 # bs2 \<Rightarrow>
              let v = (b - 0xE0) * 4096 + (c1 - 0x80) * 64 + (c2 - 0x80) in
              if 0xE0 \<le> b \<and> b < 0xF0 \<and> cont c1 \<and> cont c2 \<and> 0x800 \<le> v \<and> \<not> (0xD800 \<le> v \<and> v < 0xE000)
              then map_option (\<lambda>s. v # s) (utf8 bs2)
              else (case bs2 of
                [] \<Rightarrow> None
              | c3 # bs3 \<Rightarrow>
                  let v = (b - 0xF0) * 262144 + (c1 - 0x80) * 4096 + (c2 - 0x80) * 64 + (c3 - 0x80) in
                  if 0xF0 \<le> b \<and> b < 0xF8 \<and> cont c1 \<and> cont c2 \<and> cont c3 \<and> 0x10000 \<le> v \<and> v < 0x110000
                  then map_option (\<lambda>s. v # s) (utf8 bs3) else None)))"

definition from_utf8 :: "u8 list \<Rightarrow> str option" where
  "from_utf8 data = utf8 (map unat data)"

definition whitespace :: "nat \<Rightarrow> bool" where
  "whitespace c \<longleftrightarrow> (9 \<le> c \<and> c \<le> 13) \<or> c = 0x20 \<or> c = 0x85 \<or> c = 0xA0 \<or> c = 0x1680 \<or> (0x2000 \<le> c \<and> c \<le> 0x200A) \<or>
     c = 0x2028 \<or> c = 0x2029 \<or> c = 0x202F \<or> c = 0x205F \<or> c = 0x3000"

fun split_whitespace :: "str \<Rightarrow> str \<Rightarrow> str list" where
  "split_whitespace cur [] = (if cur = [] then [] else [rev cur])"
| "split_whitespace cur (c # cs) =
     (if whitespace c then (if cur = [] then split_whitespace [] cs else rev cur # split_whitespace [] cs)
      else split_whitespace (c # cur) cs)"

definition next_arg :: "str list \<Rightarrow> str option \<times> str list" where
  "next_arg args = (case args of [] \<Rightarrow> (None, []) | a # as \<Rightarrow> (Some a, as))"

definition is_one_of :: "str \<Rightarrow> string list \<Rightarrow> bool" where
  "is_one_of s ls \<longleftrightarrow> s \<in> set (map lit ls)"

fun show_nat :: "nat \<Rightarrow> str" where
  "show_nat n = (if n < 10 then [48 + n] else show_nat (n div 10) @ [48 + n mod 10])"

declare show_nat.simps [simp del]

definition show_int :: "int \<Rightarrow> str" where
  "show_int i = (if i < 0 then 45 # show_nat (nat (- i)) else show_nat (nat i))"

definition pad_left :: "nat \<Rightarrow> str \<Rightarrow> str" where
  "pad_left n s = replicate (n - length s) 32 @ s"

definition pad_right :: "nat \<Rightarrow> str \<Rightarrow> str" where
  "pad_right n s = s @ replicate (n - length s) 32"

section \<open>What the commands show\<close>

datatype device_type = UndefinedSensor | NoSensor | MotorSensor | AbsEncSensor | ImuSensor | DistanceSensor | RadioSensor | TetherSensor | BrainSensor | VisionSensor | AdiSensor | OpticalSensor | MagnetSensor | GpsSensor | AiVisionSensor | LightTowerSensor | ArmDevice | PneumaticSensor | GenericSerial | OtherSensor

datatype controller_id = Master | Partner

datatype controller_status = Tethered | VexNet | Offline

datatype controller_index =
    AnaLeftX | AnaLeftY | AnaRightX | AnaRightY | BatteryCapacity
  | ButtonL1 | ButtonL2 | ButtonR1 | ButtonR2 | ButtonUp | ButtonDown | ButtonLeft | ButtonRight | ButtonX | ButtonB | ButtonY | ButtonA | ButtonSEL

text \<open>\<open>read\<close> is what the SDK's read functions return; numbers that are not integers come as text.\<close>

record sdk_reads =
  controller_status_of :: "controller_id \<Rightarrow> controller_status"
  controller_get :: "controller_id \<Rightarrow> controller_index \<Rightarrow> int"
  device_types :: "device_type list"
  battery_millivolts :: int
  battery_milliamps :: int
  battery_temperature :: str
  battery_capacity :: str

record monitor_env =
  sdk_reads :: sdk_reads
  max_device_ports :: nat
  pkg_version :: str
  debug_slot :: "sw_breakpoint option \<Rightarrow> str"
  debug_hw_manager :: "hw_manager \<Rightarrow> str"
  level_from_str :: "str \<Rightarrow> nat option"
  styled :: "string \<Rightarrow> str \<Rightarrow> str"
  rtos_of :: rtos
  current_handle :: u32
  freertos_flavor :: str
  name_fuel :: nat

fun device_type_name :: "device_type \<Rightarrow> string" where
  "device_type_name MotorSensor = ''Motor''"
| "device_type_name AbsEncSensor = ''Rotation''"
| "device_type_name ImuSensor = ''Inertial (IMU)''"
| "device_type_name DistanceSensor = ''Distance''"
| "device_type_name RadioSensor = ''Radio''"
| "device_type_name TetherSensor = ''Controller''"
| "device_type_name BrainSensor = ''Brain''"
| "device_type_name VisionSensor = ''Vision''"
| "device_type_name AdiSensor = ''ADI (3-Wire)''"
| "device_type_name OpticalSensor = ''Optical''"
| "device_type_name MagnetSensor = ''Electromagnet''"
| "device_type_name GpsSensor = ''GPS''"
| "device_type_name AiVisionSensor = ''AI Vision''"
| "device_type_name LightTowerSensor = ''Light Tower''"
| "device_type_name ArmDevice = ''Workcell Arm''"
| "device_type_name PneumaticSensor = ''Pneumatics''"
| "device_type_name GenericSerial = ''Generic Serial''"
| "device_type_name _ = ''Unknown''"

text \<open>The loop of \<open>devices\<close>: the lines, and whether a device was found.\<close>

fun device_lines :: "nat \<Rightarrow> device_type list \<Rightarrow> str \<times> bool" where
  "device_lines i [] = ([], False)"
| "device_lines i (ty # types) =
     (if ty = UndefinedSensor then ([], False)
      else if ty = NoSensor then device_lines (i + 1) types
      else
        let (text, _) = device_lines (i + 1) types in
        (lit ''  port '' @ pad_left 2 (show_nat (i + 1)) @ lit '': '' @ lit (device_type_name ty) @ [NL] @ text, True))"

definition devices :: "sdk_reads \<Rightarrow> str" where
  "devices sdk =
     (let (text, found) = device_lines 0 (device_types sdk) in
      if \<not> found then text @ lines [''No devices connected.''] else text)"

definition battery :: "sdk_reads \<Rightarrow> str" where
  "battery sdk =
     lit ''voltage:     '' @ show_int (battery_millivolts sdk) @ lines ['' mV''] @
     lit ''current:     '' @ show_int (battery_milliamps sdk) @ lines ['' mA''] @
     lit ''temperature: '' @ battery_temperature sdk @ [32, 0xb0] @ lines [''C''] @
     lit ''capacity:    '' @ battery_capacity sdk @ lines [''%'']"

definition CONTROLLER_BUTTONS :: "(string \<times> controller_index) list" where
  "CONTROLLER_BUTTONS =
     [(''L1'', ButtonL1), (''L2'', ButtonL2), (''R1'', ButtonR1), (''R2'', ButtonR2), (''Up'', ButtonUp), (''Down'', ButtonDown), (''Left'', ButtonLeft), (''Right'', ButtonRight), (''X'', ButtonX), (''B'', ButtonB), (''Y'', ButtonY), (''A'', ButtonA), (''SEL'', ButtonSEL)]"

definition controller :: "sdk_reads \<Rightarrow> str option \<Rightarrow> str" where
  "controller sdk which =
     (let (id, label) = (if which \<in> {Some (lit ''partner''), Some (lit ''p'')} then (Partner, lit ''Partner'') else (Master, lit ''Primary''));
          stick = (\<lambda>i. pad_left 4 (show_int (controller_get sdk id i))) in
      case controller_status_of sdk id of
        Offline \<Rightarrow> label @ lines ['' controller: offline'']
      | status \<Rightarrow>
          let connection = (if status = Tethered then lit ''Tethered'' else lit ''VEXnet'');
              pressed = filter (\<lambda>(name, index). controller_get sdk id index \<noteq> 0) CONTROLLER_BUTTONS in
          label @ lit '' controller ('' @ connection @ lines [''):''] @
          lit ''  left stick:  ('' @ stick AnaLeftX @ lit '', '' @ stick AnaLeftY @ lines ['')''] @
          lit ''  right stick: ('' @ stick AnaRightX @ lit '', '' @ stick AnaRightY @ lines ['')''] @
          lit ''  battery:     '' @ show_int (controller_get sdk id BatteryCapacity) @ lines [''%''] @
          lit ''  active buttons: '' @ concat (map (\<lambda>(name, _). 32 # lit name) pressed) @
          (if pressed = [] then lit '' (none)'' else []) @ [NL])"

section \<open>The \<open>sys\<close> command\<close>

definition FREERTOS_HELP :: "string list" where
  "FREERTOS_HELP = [
       ''FreeRTOS-specific commands:'',
       ''    sys help                            Show this help message.'',
       ''    sys tasks                           Lists the following details about each running task:'',
       ''                                        * Id: The unique task ID number.'',
       ''                                        * Name: Task name'',
       ''                                        * State: The scheduling state of the task.'',
       ''                                        * Priority: The scheduling priority of the task.'',
       ''                                        * Stack Remaining: The amount of bytes in the task's stack'',
       ''                                        which have never been used.'',
       []
     ]"

definition task_state :: "monitor_env \<Rightarrow> u32 \<Rightarrow> str" where
  "task_state env s =
     (if s = BLOCKED then styled env ''yellow'' (pad_right 10 (lit ''Blocked''))
      else if s = DELETED then styled env ''red'' (pad_right 10 (lit ''Deleted''))
      else if s = READY then styled env ''green'' (pad_right 10 (lit ''Ready''))
      else if s = RUNNING then styled env ''green bold'' (pad_right 10 (lit ''Running''))
      else if s = SUSPENDED then styled env ''magenta'' (pad_right 10 (lit ''Suspend''))
      else styled env ''bright black'' (pad_right 10 (lit ''Unknown'')))"

definition task_line :: "monitor_env \<Rightarrow> memory \<Rightarrow> task_status \<Rightarrow> str option" where
  "task_line env mem task =
     map_option (\<lambda>bytes.
        let name = (case from_utf8 bytes of Some s \<Rightarrow> s | None \<Rightarrow> lit ''<Invalid UTF-8>'') in
        (if x_handle task = current_handle env then lit ''*'' else lit '' '') @ lit '' '' @
        pad_right 3 (show_nat (unat (x_task_number task))) @ lit '' '' @ pad_right 32 name @ lit '' '' @
        task_state env (e_current_state task) @ lit '' '' @
        pad_right 10 (show_nat (unat (ux_current_priority task))) @ lit '' '' @
        pad_right 10 (show_nat (unat (us_stack_high_water_mark task))) @ [NL])
       (if pc_task_name task = 0 then Some (map of_char ''<none>'') else c_str (name_fuel env) mem (pc_task_name task))"

fun task_lines :: "monitor_env \<Rightarrow> memory \<Rightarrow> task_status list \<Rightarrow> str option" where
  "task_lines env mem [] = Some []"
| "task_lines env mem (task # tasks) =
     (case task_line env mem task of
        None \<Rightarrow> None
      | Some line \<Rightarrow> map_option (\<lambda>text. line @ text) (task_lines env mem tasks))"

definition frtos_monitor_cmd :: "monitor_env \<Rightarrow> str list \<Rightarrow> memory \<Rightarrow> str option" where
  "frtos_monitor_cmd env args mem =
     (let cmd = (case fst (next_arg args) of Some c \<Rightarrow> c | None \<Rightarrow> lit ''?'') in
      if is_one_of cmd [''t'', ''task'', ''tasks''] then
        map_option (\<lambda>text.
           lit ''  '' @ pad_right 3 (lit ''Id'') @ lit '' '' @ pad_right 32 (lit ''Name'') @ lit '' '' @ pad_right 10 (lit ''State'') @ lit '' '' @
           pad_right 10 (lit ''Priority'') @ lit '' '' @ pad_right 10 (lit ''Stack Remaining'') @ [NL] @ text)
          (task_lines env mem (scan_tasks (rtos_of env)))
      else if is_one_of cmd [''?'', ''help'', ''h''] then
        Some (lit ''v5gdb is configured for FreeRTOS'' @ freertos_flavor env @ lines [''.''] @ lines FREERTOS_HELP)
      else Some (lines [''Unknown command. See 'monitor sys help' for more info.'']))"

definition sys_monitor_cmd :: "monitor_env \<Rightarrow> str list \<Rightarrow> 'b brain_scheme \<Rightarrow> str option" where
  "sys_monitor_cmd env args b =
     (if freertos b then frtos_monitor_cmd env args (dview b)
      else Some (lines [''This system doesn't support the `sys` subcommand.'']))"

section \<open>The commands\<close>

definition HELP_MSG :: "string list" where
  "HELP_MSG = [
       [],
       ''Monitor commands:'',
       ''    help                                Show this help message.'',
       ''    stop                                Immediately stop all motors right now.'',
       ''    autostop ?                          Show whether auto-stop on breakpoint is enabled.'',
       ''    autostop (true | false)             Enable or disable automatic motor stop on breakpoint.'',
       ''    dev                                 List connected smart devices.'',
       ''    batt                                View battery status.'',
       ''    ctrl [partner]                      View controller state, primary (default) or partner.'',
       ''    comp                                View competition state.'',
       ''    comp (driver | auton | disabled)    Override competition mode.'',
       ''    comp (none | fc | switch)           Override competition system.'',
       ''    comp real                           Stop overriding competition state.'',
       ''    log [level]                         Set the current log level (off/trace/debug/info/warn/error).'',
       ''    dbg break                           Show internal software breakpoint status.'',
       ''    dbg hw                              Show internal hardware debug status.'',
       []
     ]"

text \<open>The subcommands of \<open>comp\<close> that set an override: the changed status.\<close>

definition comp_change :: "str \<Rightarrow> u32 \<Rightarrow> u32 option" where
  "comp_change change status =
     (if is_one_of change [''driver'', ''op'', ''opcontrol''] then Some (with_autonomous False (with_disabled False status))
      else if is_one_of change [''auto'', ''auton'', ''autonomous''] then Some (with_autonomous True (with_disabled False status))
      else if is_one_of change [''dis'', ''disabled''] then Some (with_autonomous False (with_disabled True status))
      else if is_one_of change [''none'', ''disconnected''] then Some (with_system False (with_connected False status))
      else if is_one_of change [''fc'', ''field-control''] then Some (with_system True (with_connected True status))
      else if change = lit ''switch'' then Some (with_system False (with_connected True status))
      else None)"

definition comp_cmd :: "str option \<Rightarrow> 'b brain_scheme \<Rightarrow> str \<times> 'b brain_scheme" where
  "comp_cmd change b =
     (case change of
        Some change \<Rightarrow>
          (case comp_change change (read_status b) of
             Some status \<Rightarrow> ([], set_override (Some status) b)
           | None \<Rightarrow>
               if change = lit ''real'' then ([], set_override None b)
               else (lines [''Unknown competition state type''], b))
      | None \<Rightarrow>
          (case read_override b of
             Some overridden \<Rightarrow>
               (lit ''override: '' @ lines [comp_debug overridden] @ lit ''real: '' @ lines [comp_debug (read_real_status b)], b)
           | None \<Rightarrow> (lit ''status: '' @ lines [comp_debug (read_real_status b)], b)))"

definition autostop_cmd :: "str option \<Rightarrow> v5_target \<Rightarrow> str \<times> v5_target" where
  "autostop_cmd arg t =
     (case arg of
        Some arg \<Rightarrow>
          if arg = lit ''true'' then
            (lines [''auto motor-stop on breakpoint: ENABLED.'', ''All motors will be stopped immediately whenever a breakpoint fires.''],
             t\<lparr>stop_motors_on_break := True\<rparr>)
          else if arg = lit ''false'' then
            (lines [''Auto motor-stop on breakpoint: DISABLED.''], t\<lparr>stop_motors_on_break := False\<rparr>)
          else if arg = lit ''?'' then
            (lit ''Auto motor-stop on breakpoint: '' @ lit (if stop_motors_on_break t then ''ENABLED'' else ''DISABLED'') @
             lines [''.'', ''Use `monitor autostop true` or `monitor autostop false` to change the state.''], t)
          else
            (lit ''Unknown argument '' @ [39] @ arg @ [39] @
             lines [''. Use 'true' or 'false' or '?'.'', ''Example: `monitor autostop true`''], t)
      | None \<Rightarrow>
          (lines [''Please include valid arguments this includes: '',
             ''`autostop ?`                Show whether auto-stop on breakpoint is enabled.'',
             ''`autostop (true | false)`   Enable or disable automatic motor stop on breakpoint.''], t))"

fun slot_lines :: "monitor_env \<Rightarrow> nat \<Rightarrow> sw_breakpoint option list \<Rightarrow> str" where
  "slot_lines env i [] = []"
| "slot_lines env i (slot # slots) =
     pad_left 2 (show_nat i) @ lit '': '' @ debug_slot env slot @ [NL] @ slot_lines env (i + 1) slots"

definition dbg_cmd :: "monitor_env \<Rightarrow> str option \<Rightarrow> v5_target \<Rightarrow> str" where
  "dbg_cmd env subcommand t =
     (case subcommand of
        None \<Rightarrow> lines [''Please specify a subcommand.'']
      | Some s \<Rightarrow>
          if s = lit ''break'' then slot_lines env 0 (breaks t)
          else if s = lit ''hw'' then debug_hw_manager env (target_hw t) @ [NL]
          else lines [''Unknown subcommand. See 'monitor help' for more info.''])"

definition log_cmd :: "monitor_env \<Rightarrow> str option \<Rightarrow> nat \<Rightarrow> str \<times> nat" where
  "log_cmd env arg log_level =
     (case (case arg of Some a \<Rightarrow> level_from_str env a | None \<Rightarrow> None) of
        Some level \<Rightarrow> ([], level)
      | None \<Rightarrow> (lines [''Expected off/trace/debug/info/warn/error.''], log_level))"

definition help_cmd :: "monitor_env \<Rightarrow> brain \<Rightarrow> str option" where
  "help_cmd env b =
     map_option (\<lambda>text. lit ''v5gdb debug server, version '' @ pkg_version env @ [NL] @ lines HELP_MSG @ text)
       (sys_monitor_cmd env [lit ''help''] b)"

text \<open>The result: console text, the target, the brain and the log level.\<close>

definition handle_monitor_cmd ::
  "monitor_env \<Rightarrow> u8 list \<Rightarrow> v5_target \<Rightarrow> brain \<Rightarrow> nat \<Rightarrow> (str \<times> v5_target \<times> brain \<times> nat) option" where
  "handle_monitor_cmd env data t b log_level =
     (let cmd_str = (case from_utf8 data of Some s \<Rightarrow> s | None \<Rightarrow> []);
          (first, args) = next_arg (split_whitespace [] cmd_str);
          cmd = (case first of Some c \<Rightarrow> c | None \<Rightarrow> lit ''help'');
          arg = fst (next_arg args) in
      if cmd = lit ''stop'' then
        Some (lines [''All motors stopped.''], t, stop_all_motors (max_device_ports env) b, log_level)
      else if cmd = lit ''autostop'' then
        (let (text, t) = autostop_cmd arg t in Some (text, t, b, log_level))
      else if is_one_of cmd [''dev'', ''devices''] then Some (devices (sdk_reads env), t, b, log_level)
      else if is_one_of cmd [''batt'', ''battery''] then Some (battery (sdk_reads env), t, b, log_level)
      else if cmd = lit ''ctrl'' then Some (controller (sdk_reads env) arg, t, b, log_level)
      else if cmd = lit ''comp'' then
        (let (text, b) = comp_cmd arg b in Some (text, t, b, log_level))
      else if cmd = lit ''dbg'' then Some (dbg_cmd env arg t, t, b, log_level)
      else if cmd = lit ''log'' then
        (let (text, log_level) = log_cmd env arg log_level in Some (text, t, b, log_level))
      else if cmd = lit ''sys'' then map_option (\<lambda>text. (text, t, b, log_level)) (sys_monitor_cmd env args b)
      else if is_one_of cmd [''?'', ''h'', ''help''] then
        map_option (\<lambda>text. (text, t, b, log_level)) (help_cmd env b)
      else Some (lines [''Unknown command. See 'monitor help' for more info.''], t, b, log_level))"

end
