(* ===== verification/Monitor_Properties.thy ===== *)
theory Monitor_Properties
  imports Monitor
begin

text \<open>
  What a \<open>monitor\<close> command can do to the debugger: it returns, it changes settings and nothing else,
  and the \<open>comp\<close> subcommands show the program the status they name.
\<close>

lemmas bit_fields = comp_disabled_def comp_autonomous_def comp_connected_def comp_system_def
  with_disabled_def with_autonomous_def with_connected_def with_system_def with_gdb_override_def bit_with_bit

text \<open>Going through the branches one by one, without looking at the conditions.\<close>

lemma if_branchE: "(if c then x else y) = z \<Longrightarrow> (x = z \<Longrightarrow> P) \<Longrightarrow> (y = z \<Longrightarrow> P) \<Longrightarrow> P"
  by (cases c) simp_all

lemma comp_cmd_frame: "comp_cmd arg b = (text, b') \<Longrightarrow> b' = b\<lparr>motor_mv := motor_mv b', comp_status_override := comp_status_override b'\<rparr>"
  by (auto simp: comp_cmd_def set_override_def Let_def split: option.splits if_splits)

lemma autostop_cmd_frame:
  "autostop_cmd arg t = (text, t') \<Longrightarrow> t' = t\<lparr>stop_motors_on_break := stop_motors_on_break t'\<rparr>"
  by (auto simp: autostop_cmd_def split: option.splits if_splits)

lemma monitor_cmd_frame:
  assumes "handle_monitor_cmd env data t b level = Some (text, t', b', level')"
  shows "t' = t\<lparr>stop_motors_on_break := stop_motors_on_break t'\<rparr>"
    and "b' = b\<lparr>motor_mv := motor_mv b', comp_status_override := comp_status_override b'\<rparr>"
proof -
  obtain first args where a: "next_arg (split_whitespace [] (case from_utf8 data of Some s \<Rightarrow> s | None \<Rightarrow> [])) = (first, args)"
    by fastforce
  have "t' = t\<lparr>stop_motors_on_break := stop_motors_on_break t'\<rparr> \<and>
         b' = b\<lparr>motor_mv := motor_mv b', comp_status_override := comp_status_override b'\<rparr>"
    using assms unfolding handle_monitor_cmd_def a Let_def prod.case
    by (elim if_branchE)
      (auto simp: stop_all_motors_def stop_motors_eq dest: comp_cmd_frame autostop_cmd_frame split: prod.splits option.splits)
  then show "t' = t\<lparr>stop_motors_on_break := stop_motors_on_break t'\<rparr>"
    and "b' = b\<lparr>motor_mv := motor_mv b', comp_status_override := comp_status_override b'\<rparr>" by blast+
qed

text \<open>A command leaves a motor running or stops it; what is plugged in it cannot change.\<close>

lemma monitor_cmd_motors:
  assumes "handle_monitor_cmd env data t b level = Some (text, t', b', level')"
  shows "device_present b' = device_present b" and "motor_mv b' p \<in> {motor_mv b p, 0}"
proof -
  obtain first args where a: "next_arg (split_whitespace [] (case from_utf8 data of Some s \<Rightarrow> s | None \<Rightarrow> [])) = (first, args)"
    by fastforce
  have comp: "motor_mv c' p = motor_mv c p" if "comp_cmd arg c = (x, c')" for arg x and c c' :: brain
    using that by (auto simp: comp_cmd_def set_override_def Let_def split: option.splits if_splits)
  show "motor_mv b' p \<in> {motor_mv b p, 0}"
    using assms unfolding handle_monitor_cmd_def a Let_def prod.case
    by (elim if_branchE)
      (auto simp: stop_all_motors_def stop_motors_eq dest: comp split: prod.splits option.splits)
  have "b' = b\<lparr>motor_mv := motor_mv b', comp_status_override := comp_status_override b'\<rparr>"
    by (rule monitor_cmd_frame(2) [OF assms])
  then have "device_present b' = device_present (b\<lparr>motor_mv := motor_mv b', comp_status_override := comp_status_override b'\<rparr>)" by metis
  then show "device_present b' = device_present b" by simp
qed


definition demo_env :: monitor_env where
  "demo_env = \<lparr>sdk_reads = \<lparr>controller_status_of = (\<lambda>_. Offline), controller_get = (\<lambda>_ _. 0), device_types = [MotorSensor, NoSensor],
       battery_millivolts = 12000, battery_milliamps = 0, battery_temperature = lit ''25'', battery_capacity = lit ''90''\<rparr>,
     max_device_ports = 21, pkg_version = lit ''1'', debug_slot = (\<lambda>_. []), debug_hw_manager = (\<lambda>_. []),
     level_from_str = (\<lambda>_. None), styled = (\<lambda>_ s. s), rtos_of = (\<lambda>_. []), current_handle = 0, freertos_flavor = [], name_fuel = 32\<rparr>"

lemma stop_parse: "next_arg (split_whitespace [] (case from_utf8 [0x73, 0x74, 0x6f, 0x70] of Some s \<Rightarrow> s | None \<Rightarrow> [])) = (Some (lit ''stop''), [])"
  by (simp add: from_utf8_def lit_def whitespace_def next_arg_def)

lemma monitor_stop:
  "handle_monitor_cmd env [0x73, 0x74, 0x6f, 0x70] t b level =
     Some (lines [''All motors stopped.''], t, stop_all_motors (max_device_ports env) b, level)"
  by (simp add: handle_monitor_cmd_def stop_parse)


text \<open>
  The competition commands change what they name and keep the rest: the mode commands set the mode
  and keep how the brain is connected, the connection commands set the connection and keep the mode,
  \<open>real\<close> goes back to what VEXos reports, and anything else changes nothing.
\<close>
lemma comp_command_shows:
  "let s = read_status b; real = real_comp_status b; r = read_status (snd (comp_cmd (Some c) b)) in
   (comp_disabled r, comp_autonomous r, comp_connected r, comp_system r) =
     (if is_one_of c [''driver'', ''op'', ''opcontrol''] then (False, False, comp_connected s, comp_system s)
      else if is_one_of c [''auto'', ''auton'', ''autonomous''] then (False, True, comp_connected s, comp_system s)
      else if is_one_of c [''dis'', ''disabled''] then (True, False, comp_connected s, comp_system s)
      else if is_one_of c [''none'', ''disconnected''] then (comp_disabled s, comp_autonomous s, False, False)
      else if is_one_of c [''fc'', ''field-control''] then (comp_disabled s, comp_autonomous s, True, True)
      else if c = lit ''switch'' then (comp_disabled s, comp_autonomous s, True, False)
      else if c = lit ''real'' then (comp_disabled real, comp_autonomous real, comp_connected real, comp_system real)
      else (comp_disabled s, comp_autonomous s, comp_connected s, comp_system s))"
proof -
  have shown: "read_status (set_override (Some x) b) = with_gdb_override False x" "read_status (set_override None b) = real_comp_status b" for x
    by (rule override_reads)+
  show ?thesis by (simp add: comp_cmd_def comp_change_def shown bit_fields Let_def)
qed

end
