(* ===== verification/Debug_Session.thy ===== *)
theory Debug_Session
  imports Monitor
begin

text \<open>
  \<open>src/src/debugger/mod.rs\<close>, the interrupt hook of \<open>src/src/exceptions/mod.rs\<close> and the installation
  in \<open>src/src/lib.rs\<close>: the session that owns the target, what a stop does, the loop that serves
  GDB, and the asynchronous poll for Ctrl-C. The protocol engine \<open>gdbstub\<close> is a third-party crate and
  a parameter: its transitions, which call back into the target, and the connection it owns. The loop
  ends when GDB says so and takes fuel.
\<close>

section \<open>State\<close>

type_synonym world = "v5_target \<times> brain"

datatype 'g state_machine = Idle 'g | Running 'g | CtrlCInterrupt 'g | Disconnected 'g

text \<open>A transition ends in an error or the next state; its callbacks change the world or panic.\<close>

record 'g gdbstub =
  run_state_machine :: "'g \<Rightarrow> world \<Rightarrow> ((unit + 'g state_machine) \<times> world) outcome"
  incoming_data :: "'g \<Rightarrow> u8 \<Rightarrow> world \<Rightarrow> ((unit + 'g state_machine) \<times> world) outcome"
  report_stop :: "'g \<Rightarrow> gdb_stop \<Rightarrow> world \<Rightarrow> ((unit + 'g state_machine) \<times> world) outcome"
  interrupt_handled :: "'g \<Rightarrow> world \<Rightarrow> ((unit + 'g state_machine) \<times> world) outcome"
  return_to_idle :: "'g \<Rightarrow> 'g state_machine"
  conn_read :: "'g \<Rightarrow> u8 option \<times> 'g"
  conn_try_read :: "'g \<Rightarrow> (unit + u8 option) \<times> 'g"

datatype stop_action = Resume | EnterMonitor

datatype internal_breakpoint = SystemExitRequest

datatype 'g session_stage = Uninitialized 'g | SessionActive "'g state_machine" | Transitioning

record 'g debug_session =
  sess_target :: v5_target
  internal_breaks :: "(internal_breakpoint \<times> u32) list option"
  stage :: "'g session_stage"

text \<open>\<open>session_locked\<close>: the mutex around the session is held.\<close>

record 'g v5_debugger =
  session :: "'g debug_session"
  config_stop_motors :: bool
  session_locked :: bool

section \<open>Responding to a stop\<close>

definition has_client :: "'g debug_session \<Rightarrow> bool" where
  "has_client s =
     (case stage s of
        SessionActive (Disconnected _) \<Rightarrow> False
      | SessionActive _ \<Rightarrow> True
      | _ \<Rightarrow> False)"

definition handle_internal_breakpoint ::
  "'g debug_session \<Rightarrow> brain \<Rightarrow> (stop_action \<times> 'g debug_session \<times> brain) outcome" where
  "handle_internal_breakpoint s b =
     and_then (assert_that (breaks_paused (sess_target s)) ''handle_internal_breakpoint'') (\<lambda>_.
       let pc = program_counter (exception_ctx (sess_target s)) in
       case find (\<lambda>(id, addr). addr = pc) (case internal_breaks s of None \<Rightarrow> [] | Some l \<Rightarrow> l) of
         None \<Rightarrow> ok (Resume, s, b)
       | Some (SystemExitRequest, addr) \<Rightarrow>
           and_then (remove_sw_breakpoint addr True (sess_target s) b) (\<lambda>(_, t, b).
             if \<not> has_client s then ok (Resume, s\<lparr>sess_target := t\<rparr>, b)
             else ok (EnterMonitor, s\<lparr>sess_target := t\<lparr>monitor_status := Exiting\<rparr>\<rparr>, b)))"

definition breakpoint_slot :: "'t v5_breaks_scheme \<Rightarrow> nat \<Rightarrow> sw_breakpoint option outcome" where
  "breakpoint_slot t n = nth_checked (breaks t) n"

definition handle_stop ::
  "stop_reason \<Rightarrow> 'g debug_session \<Rightarrow> brain \<Rightarrow> (stop_action \<times> 'g debug_session \<times> brain) outcome" where
  "handle_stop reason s b =
     (case reason of
        TrackedSoftwareBreak n \<Rightarrow>
          and_then (breakpoint_slot (sess_target s) n) (\<lambda>slot.
          and_then (unwrap ''bkpt deleted before it could be handled'' slot) (\<lambda>breakpoint.
          and_then (if br_internal (sw_reason breakpoint) then handle_internal_breakpoint s b else ok (Resume, s, b))
            (\<lambda>(internal_action, s, b).
              ok (if br_user (sw_reason breakpoint) then EnterMonitor else internal_action, s, b))))
      | _ \<Rightarrow> ok (EnterMonitor, s, b))"

definition register_internal_breakpoints ::
  "u32 \<Rightarrow> 'g debug_session \<Rightarrow> brain \<Rightarrow> ('g debug_session \<times> brain) outcome" where
  "register_internal_breakpoints exit_func s b =
     and_then (assert_that (internal_breaks s = None) ''register_internal_breakpoints'') (\<lambda>_.
       let is_thumb = (exit_func AND 1 \<noteq> 0);
           internal = [(SystemExitRequest, exit_func AND NOT 1)] in
       and_then (for_each (\<lambda>(id, addr) (t, b).
           and_then (register_sw_breakpoint addr is_thumb True t b) (\<lambda>(r, t, b).
           and_then (assert_that (r = Inr ()) ''register_internal_breakpoints: unwrap'') (\<lambda>_. ok (t, b))))
         internal (sess_target s, b)) (\<lambda>(t, b).
       ok (s\<lparr>sess_target := t, internal_breaks := Some internal\<rparr>, b)))"

section \<open>The debug console\<close>

definition tick_state_machine ::
  "'g gdbstub \<Rightarrow> 'g state_machine \<Rightarrow> world \<Rightarrow> ((unit + 'g state_machine) \<times> world) outcome" where
  "tick_state_machine api sm w =
     (case sm of
        Idle g \<Rightarrow>
          (case conn_read api g of
             (Some byte, g) \<Rightarrow> incoming_data api g byte w
           | (None, g) \<Rightarrow> ok (Inr (Idle g), w))
      | Running g \<Rightarrow>
          (case w of (t, b) \<Rightarrow>
             and_then (gdb_stop_reason b t) (\<lambda>reported_reason.
               let t = (case reported_reason of Exited _ \<Rightarrow> t\<lparr>monitor_status := ResumingProgram\<rparr> | _ \<Rightarrow> t) in
               report_stop api g reported_reason (t, b)))
      | CtrlCInterrupt g \<Rightarrow> interrupt_handled api g w
      | Disconnected g \<Rightarrow>
          (case w of (t, b) \<Rightarrow>
             let t = (if monitor_status t = Exiting then t\<lparr>monitor_status := ResumingProgram\<rparr> else t) in
             ok (Inr (return_to_idle api g), (t, b))))"

fun console_loop ::
  "nat \<Rightarrow> 'g gdbstub \<Rightarrow> 'g state_machine \<Rightarrow> world \<Rightarrow> ('g state_machine \<times> world) outcome option" where
  "console_loop 0 api state w = None"
| "console_loop (Suc fuel) api state w =
     (if monitor_status (fst w) \<noteq> ResumingProgram then
        (case tick_state_machine api state w of
           Inl e \<Rightarrow> Some (Inl e)
         | Inr (Inl _, w) \<Rightarrow> Some (panic ''debugger encountered an error'')
         | Inr (Inr state, w) \<Rightarrow> console_loop fuel api state w)
      else Some (ok (state, w)))"

text \<open>The branch of \<open>run_debug_console\<close> for a session that is active.\<close>

definition run_active ::
  "nat \<Rightarrow> 'g gdbstub \<Rightarrow> 'g state_machine \<Rightarrow> 'g debug_session \<Rightarrow> brain \<Rightarrow> ('g debug_session \<times> brain) outcome option" where
  "run_active fuel api state s b =
     map_option (\<lambda>r. and_then r (\<lambda>(state, t, b). ok (s\<lparr>sess_target := t, stage := SessionActive state\<rparr>, b)))
       (console_loop fuel api state (sess_target s, b))"

definition run_debug_console ::
  "nat \<Rightarrow> 'g gdbstub \<Rightarrow> 'g debug_session \<Rightarrow> brain \<Rightarrow> ('g debug_session \<times> brain) outcome option" where
  "run_debug_console fuel api s b =
     (let old_stage = stage s; s = s\<lparr>stage := Transitioning\<rparr> in
      case old_stage of
        Uninitialized g \<Rightarrow>
          (case run_state_machine api g (sess_target s, b) of
             Inl e \<Rightarrow> Some (Inl e)
           | Inr (Inl _, _) \<Rightarrow> Some (panic ''run_debug_console: unwrap'')
           | Inr (Inr state, t, b) \<Rightarrow> run_active fuel api state (s\<lparr>sess_target := t\<rparr>) b)
      | SessionActive state \<Rightarrow> run_active fuel api state s b
      | Transitioning \<Rightarrow> Some (panic ''Cannot resume from transitioning state''))"

section \<open>The debugger\<close>

definition with_config :: "bool \<Rightarrow> 'g v5_debugger \<Rightarrow> 'g v5_debugger" where
  "with_config stop d = d\<lparr>config_stop_motors := stop\<rparr>"

definition v5_debugger_new ::
  "'g \<Rightarrow> (u32 \<Rightarrow> debug_logic) \<Rightarrow> devcfg \<Rightarrow> debug_sysregs \<Rightarrow> 'm vmsa_scheme \<Rightarrow>
   ('g v5_debugger \<times> devcfg \<times> debug_sysregs \<times> 'm vmsa_scheme) outcome" where
  "v5_debugger_new gdb logic_at dc regs m =
     and_then (target_new logic_at dc regs m) (\<lambda>(t, dc, regs, m).
       ok (\<lparr>session = \<lparr>sess_target = t, internal_breaks = None, stage = Uninitialized gdb\<rparr>,
            config_stop_motors = False, session_locked = False\<rparr>, dc, regs, m))"

text \<open>The SDK functions that are patched or broken on, by their addresses.\<close>

record sdk_symbols = linker_symbols +
  vex_system_exit_request :: u32
  vex_competition_status :: u32
  read_status_fn :: u32

definition initialize :: "sdk_symbols \<Rightarrow> 'g v5_debugger \<Rightarrow> brain \<Rightarrow> ('g v5_debugger \<times> brain) outcome" where
  "initialize syms d b =
     and_then (register_internal_breakpoints (vex_system_exit_request syms) (session d) b) (\<lambda>(s, b).
     and_then (install_override (linker_symbols.truncate syms) (vex_competition_status syms) (read_status_fn syms) b) (\<lambda>b.
       ok (d\<lparr>session := s\<lparr>sess_target := (sess_target s)\<lparr>stop_motors_on_break := config_stop_motors d\<rparr>\<rparr>\<rparr>, b)))"

text \<open>The result: whether to unpause the scheduler, the context to restore and the new state.\<close>

definition handle_debug_event ::
  "nat \<Rightarrow> 'g gdbstub \<Rightarrow> nat \<Rightarrow> debug_event_context \<Rightarrow> 'g debug_session \<Rightarrow> brain \<Rightarrow>
   (bool \<times> debug_event_context \<times> 'g debug_session \<times> brain) outcome option" where
  "handle_debug_event fuel api max_ports ctx s b =
     (case (and_then (enter_breakpoint ctx (sess_target s) b) (\<lambda>(stop_reason, t, b).
              let b = (if stop_motors_on_break t then stop_all_motors max_ports b else b) in
              handle_stop stop_reason (s\<lparr>sess_target := t\<rparr>) b)) of
        Inl e \<Rightarrow> Some (Inl e)
      | Inr (action, s, b) \<Rightarrow>
          map_option (\<lambda>r.
              and_then r (\<lambda>(s, b).
              and_then (leave_breakpoint (sess_target s) b) (\<lambda>(unpause, ctx, t, b).
                ok (unpause, ctx, s\<lparr>sess_target := t\<rparr>, b))))
            (if action = EnterMonitor then run_debug_console fuel api s b else Some (ok (s, b))))"

section \<open>Polling for Ctrl-C\<close>

definition CTRL_C :: u8 where "CTRL_C = 3"

fun poll_scan :: "nat \<Rightarrow> 'g gdbstub \<Rightarrow> 'g \<Rightarrow> v5_target \<Rightarrow> ('g \<times> v5_target) outcome option" where
  "poll_scan 0 api g t = None"
| "poll_scan (Suc fuel) api g t =
     (case conn_try_read api g of
        (Inr (Some byte), g) \<Rightarrow>
          if byte = CTRL_C then Some (and_then (request_interrupt t) (\<lambda>t. ok (g, t)))
          else poll_scan fuel api g t
      | (_, g) \<Rightarrow> Some (ok (g, t)))"

definition poll :: "nat \<Rightarrow> 'g gdbstub \<Rightarrow> 'g v5_debugger \<Rightarrow> 'g v5_debugger outcome option" where
  "poll fuel api d =
     (if session_locked d then Some (ok d)
      else case stage (session d) of
        SessionActive (Running g) \<Rightarrow>
          map_option (\<lambda>r. and_then r (\<lambda>(g, t).
              ok (d\<lparr>session := (session d)\<lparr>stage := SessionActive (Running g), sess_target := t\<rparr>\<rparr>)))
            (poll_scan fuel api g (sess_target (session d)))
      | _ \<Rightarrow> Some (ok d))"

definition IRQ_POLL_INTERVAL_MS :: u32 where "IRQ_POLL_INTERVAL_MS = 10"

text \<open>The time of the last poll, and whether this interrupt polls.\<close>

definition irq_poll :: "u32 \<Rightarrow> u32 \<Rightarrow> u32 \<times> bool" where
  "irq_poll now prev =
     (if now - prev < IRQ_POLL_INTERVAL_MS then (prev, False) else (now, True))"

section \<open>Installation\<close>

text \<open>\<open>DEBUGGER\<close>, and the vectors.\<close>

record 'g installation = vectors +
  installed :: "'g v5_debugger option"

definition install_by_ref ::
  "sdk_symbols \<Rightarrow> u32 \<Rightarrow> 'g v5_debugger \<Rightarrow> 'g installation \<Rightarrow> brain \<Rightarrow> ('g installation \<times> brain) outcome" where
  "install_by_ref syms overlay_table d i b =
     and_then (assert_that (installed i = None) ''A debugger is already installed.'') (\<lambda>_.
     and_then (install_vectors overlay_table (vectors.truncate i)) (\<lambda>v.
     and_then (initialize syms d b) (\<lambda>(d, b).
       ok (vectors.extend v \<lparr>installed = Some d\<rparr>, b))))"

end
