(* ===== verification/Session_Properties.thy ===== *)
theory Session_Properties
  imports Debug_Session Monitor_Properties Thread_Properties
begin

text \<open>
  The components together: what GDB may do to the stopped program through the callbacks, as a step
  relation that keeps the target's invariant, a whole debug event, and the states the debugger and
  the program reach.
\<close>

section \<open>What the callbacks do\<close>

text \<open>The invariant of the stopped program: its memory is the program.\<close>

definition stopped_inv :: "nat \<Rightarrow> world \<Rightarrow> bool" where
  "stopped_inv depth w \<longleftrightarrow> target_inv (dview (snd w)) depth (fst w) (snd w) \<and> breaks_paused (fst w)"

text \<open>Memory is the same at every breakpoint of the table.\<close>

definition spares_breaks :: "'t v5_breaks_scheme \<Rightarrow> memory \<Rightarrow> memory \<Rightarrow> bool" where
  "spares_breaks t mem mem' \<longleftrightarrow>
     (\<forall>b. Some b \<in> set (breaks t) \<longrightarrow>
        load mem' (instr_addr b) (instr_size (instr_backup b)) = load mem (instr_addr b) (instr_size (instr_backup b)))"

text \<open>
  The requests of GDB that change something, as \<open>gdbstub\<close> passes them on. Two are limited to what
  GDB does of itself: a software breakpoint is set on an aligned instruction that overlaps no other
  breakpoint, and writes to memory and to saved contexts spare the breakpoints that are set.
\<close>

inductive gdb_callback :: "monitor_env \<Rightarrow> world \<Rightarrow> world \<Rightarrow> bool" for env where
  add_sw: "sw_ready (dview b) addr (kind \<noteq> KArm32) t \<Longrightarrow> gdb_add_sw_breakpoint addr kind t b = Inr (r, t', b') \<Longrightarrow>
    gdb_callback env (t, b) (t', b')"
| del_sw: "gdb_remove_sw_breakpoint addr kind t b = Inr (r, t', b') \<Longrightarrow> gdb_callback env (t, b) (t', b')"
| add_hw: "add_hw_breakpoint addr kind (target_hw t) = Inr (r, h) \<Longrightarrow> gdb_callback env (t, b) (t\<lparr>target_hw := h\<rparr>, b)"
| del_hw: "remove_hw_breakpoint addr kind (target_hw t) = Inr (r, h) \<Longrightarrow> gdb_callback env (t, b) (t\<lparr>target_hw := h\<rparr>, b)"
| write_regs: "wf_context regs \<Longrightarrow> mt_write_registers (rtos_of env) regs tid t b = Inr (Inr (t', b')) \<Longrightarrow>
    spares_breaks t (dview b) (dview b') \<Longrightarrow> gdb_callback env (t, b) (t', b')"
| write_reg: "tid_write_register (rtos_of env) tid r val t b = Inr (Inr (t', b')) \<Longrightarrow>
    spares_breaks t (dview b) (dview b') \<Longrightarrow> gdb_callback env (t, b) (t', b')"
| write_mem: "write_addrs addr val b = Inr (r, b') \<Longrightarrow> spares_breaks t (dview b) (dview b') \<Longrightarrow> gdb_callback env (t, b) (t, b')"
| go_on: "gdb_callback env (t, b) (resume t, b)"
| step: "step t = Inr t' \<Longrightarrow> gdb_callback env (t, b) (t', b)"
| step_thread: "set_resume_action_step tid b t = Inr t' \<Longrightarrow> gdb_callback env (t, b) (t', b)"
| monitor: "handle_monitor_cmd env val t b level = Some (text, t', b', level') \<Longrightarrow> gdb_callback env (t, b) (t', b')"

lemma assert_that_Inr_iff [simp]: "assert_that c site = Inr u \<longleftrightarrow> c"
  by (cases c) simp_all

lemma slots_ok_spared:
  "slots_ok orig slots \<Longrightarrow>
   (\<And>b. Some b \<in> set slots \<Longrightarrow>
      load orig' (instr_addr b) (instr_size (instr_backup b)) = load orig (instr_addr b) (instr_size (instr_backup b))) \<Longrightarrow>
   slots_ok orig' slots"
proof (induction orig slots rule: slots_ok.induct)
  case (3 orig b slots)
  have "load orig' (instr_addr b) (instr_size (instr_backup b)) = load orig (instr_addr b) (instr_size (instr_backup b))"
    using "3.prems"(2) by simp
  then have "backup_ok orig' b"
    using "3.prems"(1) by (auto simp: backup_ok_def intro: instr_read_cong)
  then show ?case using 3 by auto
qed auto

lemma stopped_invD:
  assumes "stopped_inv depth (t, b)"
  shows "breaks_paused t" "length (breaks t) = 16" "slots_ok (dview b) (breaks t)" "slots_state True (breaks t)"
    "all_wanted (breaks t)" "hw_target_inv t" "sched_inv depth t b" "wf_context (exception_ctx t)" "target_inv (dview b) depth t b"
proof -
  show p: "breaks_paused t" and ti: "target_inv (dview b) depth t b" using assms by (simp_all add: stopped_inv_def)
  have sw: "sw_inv (dview b) t b" using ti by (simp add: target_inv_def)
  show "length (breaks t) = 16" "slots_ok (dview b) (breaks t)" "all_wanted (breaks t)"
    using sw by (simp_all add: sw_inv_def)
  show "slots_state True (breaks t)" using sw p by (simp add: sw_inv_def)
  show "hw_target_inv t" "sched_inv depth t b" "wf_context (exception_ctx t)" using ti by (simp_all add: target_inv_def)
qed

lemma stopped_memory:
  assumes "stopped_inv depth (t, b)" and "spares_breaks t (dview b) (dview b')" and "caches.more b' = caches.more b"
  shows "stopped_inv depth (t, b')"
proof -
  note inv = stopped_invD [OF assms(1)]
  have "slots_ok (dview b') (breaks t)"
    by (rule slots_ok_spared [OF inv(3)]) (use assms(2) in \<open>simp add: spares_breaks_def\<close>)
  moreover have "sched_inv depth t b'"
    using inv(7) machine_more [OF assms(3)] by (simp add: sched_inv_def)
  ultimately show ?thesis using inv overlay_disabled [OF inv(4)] by (simp add: stopped_inv_def target_inv_def sw_inv_def)
qed

lemma stopped_target:
  assumes "stopped_inv depth (t, b)" and "hw_target_inv t'" and "breaks_paused t'" and "breaks t' = breaks t"
    and "wf_context (exception_ctx t')"
  shows "stopped_inv depth (t', b)"
  using stopped_invD [OF assms(1)] assms(2-5) overlay_disabled [of "breaks t"]
  by (simp add: stopped_inv_def target_inv_def sw_inv_def sched_inv_def)

lemma add_hw_keeps:
  assumes "hw_target_inv t" and "breaks_paused t" and "add_hw_breakpoint addr kind (target_hw t) = Inr (r, h)"
  shows "hw_target_inv (t\<lparr>target_hw := h\<rparr>)"
proof -
  let ?h = "target_hw t" and ?k = "hw_store_key (addr, Match, kind)"
  have hw: "hw_inv ?h" "\<not> locked ?h" "card (match_keys ?h) < num ?h"
    using assms(1,2) by (simp_all add: hw_target_inv_def)
  obtain b h' where r: "add_hw_breakpoint addr kind ?h = Inr (b, h')" "hw_inv h'" "hw_frame ?h h'"
    "b \<longleftrightarrow> unat addr mod kind_size kind = 0 \<and> card (hw_keys ?h) + 1 < num ?h \<and> ?k \<notin> hw_keys ?h"
    "hw_keys h' = (if b then insert ?k (hw_keys ?h) else hw_keys ?h)"
    by (rule add_hw_breakpoint_spec [OF hw(1,2)])
  note fr = hw_frame_simps [OF r(3)]
  have h: "h = h'" "r = b" using r(1) assms(3) by simp_all
  have m: "is_match ?k" if b using key_kind [of addr kind Match] r(4) that by simp
  have "step_keys h' = step_keys ?h" using r(5) m by (auto simp: step_keys_def split: if_splits)
  moreover have "card (match_keys h') < num h'"
  proof (cases b)
    case True
    have "card (match_keys h') \<le> card (hw_keys h')" by (rule card_mono) (auto simp: match_keys_def)
    also have "\<dots> \<le> Suc (card (hw_keys ?h))" using r(5) True by (simp add: card_insert_le_m1)
    also have "\<dots> < num ?h" using r(4) True by simp
    finally show ?thesis using fr by simp
  next
    case False
    then show ?thesis using r(5) hw(3) fr by (simp add: match_keys_def)
  qed
  ultimately show ?thesis
    using assms(1,2) r(2) fr h by (simp add: hw_target_inv_def pending_keys_def)
qed

lemma del_hw_keeps:
  assumes "hw_target_inv t" and "breaks_paused t" and "remove_hw_breakpoint addr kind (target_hw t) = Inr (r, h)"
  shows "hw_target_inv (t\<lparr>target_hw := h\<rparr>)"
proof (cases "split_addr addr kind")
  case (Inl e)
  then have "h = target_hw t"
    using assms by (simp add: remove_hw_breakpoint_def remove_breakpoint_at_def hw_target_inv_def)
  then show ?thesis using assms(1) by simp
next
  case (Inr wb)
  obtain w bas where sa: "split_addr addr kind = Inr (w, bas)" using Inr by (cases wb) simp
  let ?h = "target_hw t" and ?k = "hw_key Match (w, bas)"
  have hw: "hw_inv ?h" "\<not> locked ?h" "card (match_keys ?h) < num ?h"
    using assms(1,2) by (simp_all add: hw_target_inv_def)
  obtain h' where h': "remove_breakpoint_at addr Match kind ?h = Inr (?k \<in> hw_keys ?h, h')"
    "hw_frame ?h h'" "hw_inv h'" "hw_keys h' = hw_keys ?h - {?k}"
    by (rule remove_breakpoint_spec [OF hw(1,2) sa, of Match]) blast
  note fr = hw_frame_simps [OF h'(2)]
  have "is_match ?k" by (simp add: is_match_def hw_key_def)
  then have k: "step_keys h' = step_keys ?h" "match_keys h' \<subseteq> match_keys ?h"
    by (auto simp: step_keys_def match_keys_def h'(4))
  have "card (match_keys h') \<le> card (match_keys ?h)"
    by (rule card_mono [OF _ k(2)]) (simp add: match_keys_def)
  then show ?thesis
    using assms h' k(1) hw(3) fr by (simp add: remove_hw_breakpoint_def hw_target_inv_def pending_keys_def)
qed

lemma stopped_sw:
  assumes "stopped_inv depth (t, b)" and "sw_inv (dview b) t' b'" and "breaks_paused t' = breaks_paused t"
    and "v5_breaks.more t' = v5_breaks.more t" and "maintains b b'"
  shows "stopped_inv depth (t', b')"
proof -
  note inv = stopped_invD [OF assms(1)]
  have "dview b' = dview b"
    using assms(2,3) inv(1) overlay_disabled [of "breaks t'"] by (simp add: sw_inv_def)
  then show ?thesis
    using assms(2,3) inv target_more [OF assms(4)] machine_more [OF assms(5) [unfolded maintains_def, THEN conjunct1]]
    by (simp add: stopped_inv_def target_inv_def hw_target_inv_def sched_inv_def pending_keys_def)
qed

lemma frtos_write_more: "frtos_write_registers os tid regs m = Inr (Inr m') \<Longrightarrow> caches.more m' = caches.more m"
  by (auto simp: frtos_write_registers_def try_then_Inr_iff and_then_Inr_iff Let_def dest!: set_sp_more)

lemma from_system_Inr_iff: "from_system r = Inr (Inr y) \<longleftrightarrow> r = Inr (Inr y)"
  by (auto simp: from_system_def and_then_def split: sum.splits)

lemma mt_write_cases:
  assumes "mt_write_registers os regs tid t b = Inr (Inr (t', b'))"
  shows "t' = write_registers regs t \<and> b' = b \<or> t' = t \<and> caches.more b' = caches.more b"
  using assms
  by (auto simp: mt_write_registers_def and_then_Inr_iff try_then_Inr_iff from_system_Inr_iff sys_write_registers_def
      bare_write_registers_def split: if_splits dest: frtos_write_more)

lemma tid_write_cases:
  assumes "tid_write_register os tid r val t b = Inr (Inr (t', b'))"
  shows "(\<exists>c. write_register (exception_ctx t) r val = Inr c \<and> t' = t\<lparr>exception_ctx := c\<rparr> \<and> b' = b) \<or>
         t' = t \<and> caches.more b' = caches.more b"
  using assms
  by (auto simp: tid_write_register_def and_then_Inr_iff try_then_Inr_iff from_system_Inr_iff sys_write_single_register_def
      bare_write_single_register_def split: if_splits sum.splits option.splits dest: frtos_write_one_more)

lemma wf_write_register: "wf_context c \<Longrightarrow> write_register c r val = Inr c' \<Longrightarrow> wf_context c'"
  by (cases r) (auto simp: write_reg_def wf_context_def split: if_splits)

lemma write_addrs_more: "write_addrs addr val b = Inr (r, b') \<Longrightarrow> caches.more b' = caches.more b"
  by (auto simp: write_addrs_def write_memory_def and_then_Inr_iff Let_def split: if_splits)

lemma request_single_step_keeps:
  assumes "target_inv orig depth t m" and "breaks_paused t" and "request_single_step t = Inr (Inr u, t')"
  shows "target_inv orig depth t' m \<and> breaks_paused t'"
proof (cases "unat (program_counter (exception_ctx t)) mod instr_align (ps_thumb (cpsr (exception_ctx t))) = 0")
  case True
  show ?thesis by (rule request_single_step_spec [OF assms(1,2) True]) (use assms(3) in simp)
next
  case False
  then have "split_addr (program_counter (exception_ctx t)) (if ps_thumb (cpsr (exception_ctx t)) then KThumb16 else KArm32) =
      Inl NotAlignedCorrectly"
    by (cases "ps_thumb (cpsr (exception_ctx t))") (simp_all add: split_addr_def instr_align_def Let_def)
  then have "single_step_request t = None \<Longrightarrow> False"
    using assms(3) by (cases "locked (target_hw t)") (simp_all add: request_single_step_def add_breakpoint_at_def Let_def)
  then obtain r where "single_step_request t = Some r" by (cases "single_step_request t") auto
  then show ?thesis using assms by (simp add: request_single_step_def)
qed

lemma target_inv_monitor_status:
  "target_inv orig depth (t\<lparr>monitor_status := s\<rparr>) m = target_inv orig depth t m"
  "stopped_inv depth (t\<lparr>monitor_status := s\<rparr>, b) = stopped_inv depth (t, b)"
  by (simp_all add: target_inv_def sw_inv_def hw_target_inv_def sched_inv_def pending_keys_def stopped_inv_def)

lemma callback_keeps:
  assumes "gdb_callback env w w'" and "stopped_inv depth w"
  shows "stopped_inv depth w'"
  using assms
proof (induction rule: gdb_callback.induct)
  case (add_sw b addr kind t r t' b')
  note inv = stopped_invD [OF add_sw.prems]
  have sw: "sw_inv (dview b) t b" using inv(9) by (simp add: target_inv_def)
  show ?case
    by (rule register_sw_breakpoint_total [OF sw add_sw(1), of False], rule stopped_sw [OF add_sw.prems])
      (use add_sw(2) in \<open>simp_all add: gdb_add_sw_breakpoint_def\<close>)
next
  case (del_sw addr kind t b r t' b')
  note inv = stopped_invD [OF del_sw.prems]
  have sw: "sw_inv (dview b) t b" using inv(9) by (simp add: target_inv_def)
  show ?case
    by (rule remove_sw_breakpoint_inv [OF sw, of addr False], rule stopped_sw [OF del_sw.prems])
      (use del_sw(1) in \<open>auto simp: gdb_remove_sw_breakpoint_def\<close>)
next
  case (add_hw addr kind t r h b)
  note inv = stopped_invD [OF add_hw.prems]
  show ?case
    by (rule stopped_target [OF add_hw.prems add_hw_keeps [OF inv(6,1) add_hw(1)]]) (use inv in simp_all)
next
  case (del_hw addr kind t r h b)
  note inv = stopped_invD [OF del_hw.prems]
  show ?case
    by (rule stopped_target [OF del_hw.prems del_hw_keeps [OF inv(6,1) del_hw(1)]]) (use inv in simp_all)
next
  case (write_regs regs tid t b t' b')
  note inv = stopped_invD [OF write_regs.prems]
  show ?case
    using mt_write_cases [OF write_regs(2)]
  proof
    assume "t' = write_registers regs t \<and> b' = b"
    then show ?thesis
      using stopped_target [OF write_regs.prems, of "write_registers regs t"] inv write_regs(1)
      by (simp add: write_registers_def hw_target_inv_def pending_keys_def)
  qed (use stopped_memory [OF write_regs.prems write_regs(3)] in simp)
next
  case (write_reg tid r val t b t' b')
  note inv = stopped_invD [OF write_reg.prems]
  show ?case
    using tid_write_cases [OF write_reg(1)]
  proof
    assume "\<exists>c. write_register (exception_ctx t) r val = Inr c \<and> t' = t\<lparr>exception_ctx := c\<rparr> \<and> b' = b"
    then obtain c where "write_register (exception_ctx t) r val = Inr c" "t' = t\<lparr>exception_ctx := c\<rparr>" "b' = b" by blast
    then show ?thesis
      using stopped_target [OF write_reg.prems, of "t\<lparr>exception_ctx := c\<rparr>"] inv wf_write_register
      by (simp add: hw_target_inv_def pending_keys_def)
  qed (use stopped_memory [OF write_reg.prems write_reg(2)] in simp)
next
  case (write_mem addr val b r b' t)
  then show ?case using stopped_memory write_addrs_more by blast
next
  case (go_on t b)
  then show ?case by (simp add: resume_def target_inv_monitor_status)
next
  case (step t t' b)
  note inv = stopped_invD [OF step.prems]
  obtain u where u: "request_single_step t = Inr (Inr (), u)" "t' = resume u"
    using step(1) by (auto simp: step_def and_then_Inr_iff)
  then show ?case
    using request_single_step_keeps [OF inv(9,1) u(1)] by (simp add: resume_def target_inv_monitor_status stopped_inv_def)
next
  case (step_thread tid b t t')
  note inv = stopped_invD [OF step_thread.prems]
  have "request_single_step t = Inr (Inr (), t')"
    using step_thread(1) by (auto simp: set_resume_action_step_def and_then_Inr_iff split: if_splits)
  then show ?case using request_single_step_keeps [OF inv(9,1)] by (simp add: stopped_inv_def)
next
  case (monitor val t b level out t' b' level')
  note fr = monitor_cmd_frame [OF monitor(1)] and inv = stopped_invD [OF monitor.prems]
  have "stopped_inv depth (t\<lparr>stop_motors_on_break := x\<rparr>, b\<lparr>motor_mv := y, comp_status_override := z\<rparr>)" for x y z
    using inv overlay_disabled [OF inv(4)]
    by (simp add: stopped_inv_def target_inv_def sw_inv_def hw_target_inv_def sched_inv_def pending_keys_def)
  then show ?case using fr by metis
qed

section \<open>The console\<close>

text \<open>\<open>gdbstub\<close> changes the target through its callbacks only.\<close>

definition gdb_polite :: "'g gdbstub \<Rightarrow> monitor_env \<Rightarrow> bool" where
  "gdb_polite api env \<longleftrightarrow>
     (\<forall>g w r w'. run_state_machine api g w = Inr (r, w') \<longrightarrow> (gdb_callback env)\<^sup>*\<^sup>* w w') \<and>
     (\<forall>g byte w r w'. incoming_data api g byte w = Inr (r, w') \<longrightarrow> (gdb_callback env)\<^sup>*\<^sup>* w w') \<and>
     (\<forall>g reason w r w'. report_stop api g reason w = Inr (r, w') \<longrightarrow> (gdb_callback env)\<^sup>*\<^sup>* w w') \<and>
     (\<forall>g w r w'. interrupt_handled api g w = Inr (r, w') \<longrightarrow> (gdb_callback env)\<^sup>*\<^sup>* w w')"

text \<open>
  What holds of the stopped program whatever GDB asks for: the callbacks keep it, and so do the states of the
  monitor. Then the console keeps it.
\<close>

locale monitor_invariant =
  fixes env :: monitor_env and good :: "world \<Rightarrow> bool"
  assumes callback_inv: "gdb_callback env w w' \<Longrightarrow> good w \<Longrightarrow> good w'"
    and status_inv: "good (t, b) \<Longrightarrow> good (t\<lparr>monitor_status := status\<rparr>, b)"
begin

lemma callbacks_inv: "(gdb_callback env)\<^sup>*\<^sup>* w w' \<Longrightarrow> good w \<Longrightarrow> good w'"
  by (induction rule: rtranclp_induct) (auto intro: callback_inv)

lemma polite_inv:
  assumes "gdb_polite api env" and "good w"
  shows "run_state_machine api g w = Inr (r, w') \<Longrightarrow> good w'"
    and "incoming_data api g byte w = Inr (r, w') \<Longrightarrow> good w'"
    and "report_stop api g reason w = Inr (r, w') \<Longrightarrow> good w'"
    and "interrupt_handled api g w = Inr (r, w') \<Longrightarrow> good w'"
proof -
  note keep = callbacks_inv [OF _ assms(2)] and p = assms(1) [unfolded gdb_polite_def]
  show "run_state_machine api g w = Inr (r, w') \<Longrightarrow> good w'" by (rule keep) (use p in blast)
  show "incoming_data api g byte w = Inr (r, w') \<Longrightarrow> good w'" by (rule keep) (use p in blast)
  show "report_stop api g reason w = Inr (r, w') \<Longrightarrow> good w'" by (rule keep) (use p in blast)
  show "interrupt_handled api g w = Inr (r, w') \<Longrightarrow> good w'" by (rule keep) (use p in blast)
qed

lemma tick_inv:
  assumes "gdb_polite api env" and "tick_state_machine api sm w = Inr (r, w')" and "good w"
  shows "good w'"
proof -
  obtain t b where w: "w = (t, b)" by fastforce
  have st: "good (t\<lparr>monitor_status := x\<rparr>, b)" for x
    using assms(3) by (simp add: w status_inv)
  show ?thesis
  proof (cases sm)
    case (Idle g)
    then show ?thesis
      using assms(2,3) polite_inv(2) [OF assms(1,3)] by (auto simp: tick_state_machine_def split: prod.splits option.splits)
  next
    case (Running g)
    then obtain reason where "gdb_stop_reason b t = Inr reason" "report_stop api g reason
        (case reason of Exited _ \<Rightarrow> t\<lparr>monitor_status := ResumingProgram\<rparr> | _ \<Rightarrow> t, b) = Inr (r, w')"
      using assms(2) by (auto simp: w tick_state_machine_def and_then_Inr_iff)
    moreover have "good (case reason of Exited _ \<Rightarrow> t\<lparr>monitor_status := ResumingProgram\<rparr> | _ \<Rightarrow> t, b)"
      using st [of ResumingProgram] assms(3) by (simp add: w split: gdb_stop.split)
    ultimately show ?thesis using polite_inv(3) [OF assms(1)] by blast
  next
    case (CtrlCInterrupt g)
    then show ?thesis
      using assms(2) polite_inv(4) [OF assms(1,3)] by (simp add: tick_state_machine_def)
  next
    case (Disconnected g)
    then show ?thesis
      using assms st by (auto simp: tick_state_machine_def w Let_def split: if_splits)
  qed
qed

lemma console_inv:
  assumes "gdb_polite api env"
  shows "console_loop fuel api sm w = Some (Inr (sm', w')) \<Longrightarrow> good w \<Longrightarrow>
    good w' \<and> monitor_status (fst w') = ResumingProgram"
proof (induction fuel arbitrary: sm w)
  case (Suc fuel)
  show ?case
  proof (cases "monitor_status (fst w) = ResumingProgram")
    case True
    then show ?thesis using Suc.prems by simp
  next
    case False
    obtain sm1 w1 where t: "tick_state_machine api sm w = Inr (Inr sm1, w1)" "console_loop fuel api sm1 w1 = Some (Inr (sm', w'))"
      using Suc.prems(1) False by (auto split: sum.splits prod.splits)
    show ?thesis using Suc.IH [OF t(2)] tick_inv [OF assms t(1) Suc.prems(2)] by blast
  qed
qed simp

lemma run_console_inv:
  assumes "gdb_polite api env" and "run_debug_console fuel api s b = Some (Inr (s', b'))"
    and "good (sess_target s, b)"
  shows "good (sess_target s', b') \<and> stage s' \<noteq> Transitioning \<and> internal_breaks s' = internal_breaks s"
proof -
  have act: "good (sess_target u', b') \<and> stage u' \<noteq> Transitioning \<and> internal_breaks u' = internal_breaks u"
    if "run_active fuel api sm u c = Some (Inr (u', b'))" "good (sess_target u, c)" for sm u u' c
  proof -
    note run = that
    obtain sm' t where "console_loop fuel api sm (sess_target u, c) = Some (Inr (sm', t, b'))"
      "u' = u\<lparr>sess_target := t, stage := SessionActive sm'\<rparr>"
      using run(1) by (auto simp: run_active_def and_then_Inr_iff)
    then show ?thesis using console_inv [OF assms(1) _ run(2)] by simp
  qed
  show ?thesis
  proof (cases "stage s")
    case (Uninitialized g)
    then obtain sm t c where r: "run_state_machine api g (sess_target s, b) = Inr (Inr sm, t, c)"
      "run_active fuel api sm (s\<lparr>stage := Transitioning, sess_target := t\<rparr>) c = Some (Inr (s', b'))"
      using assms(2) by (auto simp: run_debug_console_def Let_def split: sum.splits prod.splits)
    have "good (t, c)"
      using polite_inv(1) [OF assms(1)] assms(3) r(1) by blast
    then show ?thesis using act [OF r(2)] by simp
  next
    case (SessionActive sm)
    then have "run_active fuel api sm (s\<lparr>stage := Transitioning\<rparr>) b = Some (Inr (s', b'))"
      using assms(2) by (simp add: run_debug_console_def)
    then show ?thesis using act assms(3) by fastforce
  next
    case Transitioning
    then show ?thesis using assms(2) by (simp add: run_debug_console_def)
  qed
qed

end

interpretation stopped: monitor_invariant env "stopped_inv depth" for env depth
  by unfold_locales (rule callback_keeps, assumption+, simp add: target_inv_monitor_status)

lemmas run_console_keeps = stopped.run_console_inv

section \<open>A stop\<close>

lemma handle_stop_spec:
  assumes inv: "stopped_inv depth (sess_target s, b)"
    and id: "\<And>n. reason = TrackedSoftwareBreak n \<Longrightarrow> n < 16 \<and> breaks (sess_target s) ! n \<noteq> None"
  obtains action s' b' where "handle_stop reason s b = Inr (action, s', b')"
    and "stopped_inv depth (sess_target s', b')" and "stage s' = stage s" and "internal_breaks s' = internal_breaks s"
    and "caches.more b' = caches.more b"
proof -
  have internal: "\<exists>a t' b'. handle_internal_breakpoint s b = Inr (a, s\<lparr>sess_target := t'\<rparr>, b') \<and> stopped_inv depth (t', b') \<and>
      caches.more b' = caches.more b"
  proof -
    let ?t = "sess_target s"
    note i = stopped_invD [OF inv]
    have sw: "sw_inv (dview b) ?t b" using i(9) by (simp add: target_inv_def)
    show ?thesis
    proof (cases "find (\<lambda>(id, addr). addr = program_counter (exception_ctx ?t)) (case internal_breaks s of None \<Rightarrow> [] | Some l \<Rightarrow> l)")
      case None
      then show ?thesis
        using i(1) inv by (intro exI [of _ Resume] exI [of _ ?t] exI [of _ b]) (simp add: handle_internal_breakpoint_def)
    next
      case (Some x)
      obtain addr where x: "x = (SystemExitRequest, addr)" by (metis internal_breakpoint.exhaust prod.exhaust)
      obtain b' where b': "remove_sw_breakpoint addr True ?t b =
          Inr (frees addr True (breaks ?t), ?t\<lparr>breaks := map (remove_slot addr True) (breaks ?t)\<rparr>, b')"
        "sw_inv (dview b) (?t\<lparr>breaks := map (remove_slot addr True) (breaks ?t)\<rparr>) b'" "maintains b b'"
        by (rule remove_sw_breakpoint_inv [OF sw])
      have "stopped_inv depth (?t\<lparr>breaks := map (remove_slot addr True) (breaks ?t)\<rparr>, b')"
        by (rule stopped_sw [OF inv b'(2) _ _ b'(3)]) simp_all
      then show ?thesis
        using Some x i(1) b'(1) b'(3) [unfolded maintains_def, THEN conjunct1]
        by (cases "has_client s") (auto simp: handle_internal_breakpoint_def target_inv_monitor_status)
    qed
  qed
  show thesis
  proof (cases "\<exists>n. reason = TrackedSoftwareBreak n")
    case False
    then have "handle_stop reason s b = Inr (EnterMonitor, s, b)" by (cases reason) (simp_all add: handle_stop_def)
    then show thesis using that inv by blast
  next
    case True
    then obtain n where n: "reason = TrackedSoftwareBreak n" by blast
    obtain x where x: "n < 16" "breaks (sess_target s) ! n = Some x" using id [OF n] by blast
    have sl: "breakpoint_slot (sess_target s) n = Inr (Some x)"
      using x stopped_invD(2) [OF inv] by (simp add: breakpoint_slot_def)
    show thesis
    proof (cases "br_internal (sw_reason x)")
      case False
      then show thesis using that inv n sl by (simp add: handle_stop_def)
    next
      case True
      with internal n sl that show thesis by (fastforce simp: handle_stop_def)
    qed
  qed
qed

lemma stop_class_slot:
  assumes "stop_class pc t = TrackedSoftwareBreak n"
  obtains x where "n < length (breaks t)" "breaks t ! n = Some x" "instr_addr x = pc"
proof -
  have "find_index (slot_at pc) (breaks t) = Some n"
    using assms by (auto simp: stop_class_def query_sw_breakpoint_def split: option.splits debug_event_reason.splits if_splits)
  then have "n < length (breaks t) \<and> slot_at pc (breaks t ! n)" by (auto simp: find_index_Some_iff)
  then show thesis using that by (auto simp: slot_at_def split: option.splits)
qed

lemma stopped_motors: "stopped_inv depth (t, stop_all_motors n b) = stopped_inv depth (t, b)"
  by (simp add: stop_all_motors_def stop_motors_eq stopped_inv_def target_inv_def sw_inv_def sched_inv_def)

text \<open>The first half of a debug event: never a panic, and the monitor or the program goes on.\<close>

lemma event_start:
  assumes inv: "target_inv orig depth (sess_target s) b" and run: "\<not> breaks_paused (sess_target s)"
    and ctx: "wf_context ctx" "fetchable ctx"
  obtains action t1 b1 s2 b2 pc where
    "enter_breakpoint ctx (sess_target s) b = Inr (stop_class (program_counter ctx) (sess_target s), t1, b1)"
    and "handle_stop (stop_class (program_counter ctx) (sess_target s)) (s\<lparr>sess_target := t1\<rparr>)
           (if stop_motors_on_break t1 then stop_all_motors n b1 else b1) = Inr (action, s2, b2)"
    and "stopped_inv depth (t1, b1)" and "stopped_inv depth (sess_target s2, b2)"
    and "stage s2 = stage s" and "internal_breaks s2 = internal_breaks s"
    and "dview b1 = orig" and "exception_ctx t1 = ctx\<lparr>program_counter := pc\<rparr>" and "monitor_status t1 = Active"
    and "breaks t1 = map (enable_slot False) (breaks (sess_target s))" and "single_step_request t1 = None"
    and "stop_class (program_counter ctx) (sess_target s) \<noteq> UntrackedSoftwareBreak \<longrightarrow> pc = program_counter ctx"
    and "freertos b1 = freertos b" and "stop_motors_on_break t1 = stop_motors_on_break (sess_target s)"
    and "caches.more b2 = caches.more (if stop_motors_on_break t1 then stop_all_motors n b1 else b1)"
proof -
  let ?r = "stop_class (program_counter ctx) (sess_target s)"
  obtain r t1 b1 pc where e': "enter_breakpoint ctx (sess_target s) b = Inr (r, t1, b1)"
    "target_inv orig depth t1 b1" "breaks_paused t1" "dview b1 = orig" "exception_ctx t1 = ctx\<lparr>program_counter := pc\<rparr>"
    "breaks t1 = map (enable_slot False) (breaks (sess_target s))" "monitor_status t1 = Active" "single_step_request t1 = None"
    "if r = UntrackedSoftwareBreak then unat pc = unat (program_counter ctx) + instr_size (projr (read_instr orig ctx))
     else pc = program_counter ctx" "freertos b1 = freertos b" "r = ?r" "stop_motors_on_break t1 = stop_motors_on_break (sess_target s)"
    by (rule enter_breakpoint_spec [OF inv run ctx]) (rule that)
  note e = e' [unfolded e'(11)]
  have pc: "?r \<noteq> UntrackedSoftwareBreak \<longrightarrow> pc = program_counter ctx" using e(9) by (auto split: if_splits)
  let ?b = "if stop_motors_on_break t1 then stop_all_motors n b1 else b1"
  have st: "stopped_inv depth (t1, b1)" using e(2-4) by (simp add: stopped_inv_def)
  then have st1: "stopped_inv depth (sess_target (s\<lparr>sess_target := t1\<rparr>), ?b)" by (simp add: stopped_motors)
  have slot: "k < 16 \<and> breaks (sess_target (s\<lparr>sess_target := t1\<rparr>)) ! k \<noteq> None" if "?r = TrackedSoftwareBreak k" for k
  proof (rule stop_class_slot [OF that])
    fix x assume "k < length (breaks (sess_target s))" "breaks (sess_target s) ! k = Some x"
    then show ?thesis using stopped_invD(2) [OF st] e(6) by (simp add: enable_slot_def)
  qed
  obtain action s2 b2 where h: "handle_stop ?r (s\<lparr>sess_target := t1\<rparr>) ?b = Inr (action, s2, b2)"
    "stopped_inv depth (sess_target s2, b2)" "stage s2 = stage s" "internal_breaks s2 = internal_breaks s" "caches.more b2 = caches.more ?b"
    by (rule handle_stop_spec [OF st1 slot]) auto
  show thesis by (rule that [OF e(1) h(1) st h(2-4) e(4,5,7,6,8) pc e(10,12) h(5)])
qed

text \<open>An event that returned has been in the console or not, and then has left the monitor.\<close>

lemma event_split:
  assumes "enter_breakpoint ctx (sess_target s) b = Inr (r, t1, b1)"
    and "handle_stop r (s\<lparr>sess_target := t1\<rparr>) (if stop_motors_on_break t1 then stop_all_motors n b1 else b1) = Inr (action, s2, b2)"
    and "handle_debug_event fuel api n ctx s b = Some (Inr (unpause, ctx', s', b'))"
  obtains s3 b3 where "(if action = EnterMonitor then run_debug_console fuel api s2 b2 else Some (ok (s2, b2))) = Some (Inr (s3, b3))"
    and "leave_breakpoint (sess_target s3) b3 = Inr (unpause, ctx', sess_target s', b')" and "stage s' = stage s3"
proof -
  let ?console = "if action = EnterMonitor then run_debug_console fuel api s2 b2 else Some (ok (s2, b2))"
  have "handle_debug_event fuel api n ctx s b = map_option (\<lambda>r. and_then r (\<lambda>(s, b).
      and_then (leave_breakpoint (sess_target s) b) (\<lambda>(unpause, ctx, t, b). ok (unpause, ctx, s\<lparr>sess_target := t\<rparr>, b)))) ?console"
    by (simp only: handle_debug_event_def assms(1,2) and_then_simps Let_def prod.case sum.case)
  then have "map_option (\<lambda>r. and_then r (\<lambda>(s, b).
      and_then (leave_breakpoint (sess_target s) b) (\<lambda>(unpause, ctx, t, b). ok (unpause, ctx, s\<lparr>sess_target := t\<rparr>, b)))) ?console =
      Some (Inr (unpause, ctx', s', b'))" using assms(3) by (simp only:)
  then show thesis using that by (auto simp: and_then_Inr_iff)
qed

lemma debug_event_keeps:
  assumes "target_inv orig depth (sess_target s) b" and "\<not> breaks_paused (sess_target s)"
    and "wf_context ctx" and "fetchable ctx" and "gdb_polite api env" and "stage s \<noteq> Transitioning"
    and "handle_debug_event fuel api n ctx s b = Some (Inr (unpause, ctx', s', b'))"
  shows "\<exists>orig'. target_inv orig' depth (sess_target s') (overlay_restore unpause b') \<and>
           dview b' = overlay orig' (breaks (sess_target s')) \<and> slots_state False (breaks (sess_target s')) \<and>
           \<not> breaks_paused (sess_target s') \<and> wf_context ctx' \<and> stage s' \<noteq> Transitioning \<and>
           unpause = (single_step_request (sess_target s') = None)"
proof (rule event_start [OF assms(1-4), of n])
  fix action t1 b1 s2 b2 pc
  assume e: "enter_breakpoint ctx (sess_target s) b = Inr (stop_class (program_counter ctx) (sess_target s), t1, b1)"
    "handle_stop (stop_class (program_counter ctx) (sess_target s)) (s\<lparr>sess_target := t1\<rparr>)
       (if stop_motors_on_break t1 then stop_all_motors n b1 else b1) = Inr (action, s2, b2)"
    "stopped_inv depth (sess_target s2, b2)" "stage s2 = stage s"
  obtain s3 b3 where c: "(if action = EnterMonitor then run_debug_console fuel api s2 b2 else Some (ok (s2, b2))) = Some (Inr (s3, b3))"
    "leave_breakpoint (sess_target s3) b3 = Inr (unpause, ctx', sess_target s', b')" "stage s' = stage s3"
    by (rule event_split [OF e(1,2) assms(7)])
  have st: "stopped_inv depth (sess_target s3, b3)" and sg: "stage s3 \<noteq> Transitioning"
    using c(1) run_console_keeps [OF assms(5) _ e(3)] e(3,4) assms(6) by (auto split: if_splits)
  note i = stopped_invD [OF st]
  show ?thesis
    by (rule leave_breakpoint_spec [OF i(9,1)])
      (use c(2,3) sg i(8) in \<open>intro exI [of _ "dview b3"], simp\<close>)
qed

text \<open>The second half, once the console has returned.\<close>

lemma event_result:
  assumes "enter_breakpoint ctx (sess_target s) b = Inr (r, t1, b1)"
    and "handle_stop r (s\<lparr>sess_target := t1\<rparr>) (if stop_motors_on_break t1 then stop_all_motors n b1 else b1) = Inr (action, s2, b2)"
    and "(if action = EnterMonitor then run_debug_console fuel api s2 b2 else Some (ok (s2, b2))) = Some (Inr (s3, b3))"
    and "stopped_inv depth (sess_target s3, b3)"
  obtains t' b' where "handle_debug_event fuel api n ctx s b =
      Some (Inr (single_step_request (sess_target s3) = None, exception_ctx (sess_target s3), s3\<lparr>sess_target := t'\<rparr>, b'))"
    and "leave_breakpoint (sess_target s3) b3 =
      Inr (single_step_request (sess_target s3) = None, exception_ctx (sess_target s3), t', b')"
    and "target_inv (dview b3) depth t' (overlay_restore (single_step_request (sess_target s3) = None) b')"
    and "\<not> breaks_paused t'" and "breaks t' = map (enable_slot True) (breaks (sess_target s3))"
    and "single_step_request t' = single_step_request (sess_target s3)"
    and "dview b' = overlay (dview b3) (breaks t')"
proof -
  note i = stopped_invD [OF assms(4)]
  obtain u t' b' where l: "leave_breakpoint (sess_target s3) b3 = Inr (u, exception_ctx (sess_target s3), t', b')"
    "u = (single_step_request (sess_target s3) = None)" "target_inv (dview b3) depth t' (overlay_restore u b')"
    "\<not> breaks_paused t'" "breaks t' = map (enable_slot True) (breaks (sess_target s3))"
    "single_step_request t' = single_step_request (sess_target s3)" "dview b' = overlay (dview b3) (breaks t')"
    by (rule leave_breakpoint_spec [OF i(9,1)]) (rule that)
  have "handle_debug_event fuel api n ctx s b = map_option (\<lambda>r. and_then r (\<lambda>(s, b).
      and_then (leave_breakpoint (sess_target s) b) (\<lambda>(unpause, ctx, t, b). ok (unpause, ctx, s\<lparr>sess_target := t\<rparr>, b))))
      (if action = EnterMonitor then run_debug_console fuel api s2 b2 else Some (ok (s2, b2)))"
    by (simp only: handle_debug_event_def assms(1,2) and_then_simps Let_def prod.case sum.case)
  then show thesis using that [OF _ l(1) [unfolded l(2)] l(3) [unfolded l(2)] l(4-7)] l(1,2) assms(3) by simp
qed

end
