(* ===== verification/Session_Runs.thy ===== *)
theory Session_Runs
  imports Session_Properties
begin

text \<open>
  Properties of a whole session: a debug event under any behaviour of GDB, the exit of the program,
  the poll for Ctrl-C, and the states that the program, the hardware, the poll and the debug events
  reach together.
\<close>

section \<open>A debug event\<close>


text \<open>A GDB that lets the program go at every turn, on the demonstration target.\<close>

definition resuming_gdb :: "unit gdbstub" where
  "resuming_gdb =
     (let go = (\<lambda>w. ok (Inr (Idle ()), resume (fst w), snd w))
      in \<lparr>run_state_machine = (\<lambda>_. go), incoming_data = (\<lambda>_ _. go), report_stop = (\<lambda>_ _. go), interrupt_handled = (\<lambda>_. go),
          return_to_idle = (\<lambda>_. Idle ()), conn_read = (\<lambda>_. (None, ())), conn_try_read = (\<lambda>_. (Inr None, ()))\<rparr>)"

definition demo_brain :: "bool \<Rightarrow> brain" where
  "demo_brain paused = machine.extend (demo_system paused)
     \<lparr>device_present = (\<lambda>_. True), motor_mv = (\<lambda>_. 6000), comp_status_override = 0, real_comp_status = 0\<rparr>"

definition demo_session :: "unit debug_session" where
  "demo_session = \<lparr>sess_target = demo_target 12 False, internal_breaks = None, stage = Uninitialized ()\<rparr>"

lemma resuming_gdb_polite: "gdb_polite resuming_gdb env"
  by (auto simp: gdb_polite_def resuming_gdb_def Let_def intro: r_into_rtranclp go_on)

lemma demo_brain_inv: "target_inv demo_mem 0 (demo_target s p) (demo_brain p)"
proof -
  have "sw_inv demo_mem (demo_target s p) (demo_brain p)"
    by (rule sw_inv_cong [of _ _ "demo_system p"])
      (use demo_target_inv [of s p] in \<open>simp_all add: target_inv_def demo_brain_def machine.defs\<close>)
  then show ?thesis
    using demo_target_inv [of s p] by (simp add: target_inv_def sched_inv_def demo_brain_def machine.defs)
qed

lemma resuming_console:
  assumes "stopped_inv depth (sess_target s, b)" and "stage s = Uninitialized ()"
  shows "run_debug_console (Suc k) resuming_gdb s b =
    Some (Inr (s\<lparr>sess_target := resume (sess_target s), stage := SessionActive (Idle ())\<rparr>, b))"
  using assms(2) by (cases k) (simp_all add: run_debug_console_def run_active_def resuming_gdb_def resume_def Let_def)

lemma demo_session_simps [simp]:
  "sess_target demo_session = demo_target 12 False" "stage demo_session = Uninitialized ()"
  "internal_breaks demo_session = None" "\<not> breaks_paused (demo_target 12 False)"
  by (simp_all add: demo_session_def demo_target_def)

lemma resuming_event:
  assumes "target_inv orig depth (sess_target s) b" and "\<not> breaks_paused (sess_target s)"
    and "wf_context ctx" and "fetchable ctx" and "stage s = Uninitialized ()"
  obtains u c s' b' where "handle_debug_event 1 resuming_gdb n ctx s b = Some (Inr (u, c, s', b'))"
proof (rule event_start [OF assms(1-4), of n])
  fix action t1 b1 s2 b2
  assume e: "enter_breakpoint ctx (sess_target s) b = Inr (stop_class (program_counter ctx) (sess_target s), t1, b1)"
    "handle_stop (stop_class (program_counter ctx) (sess_target s)) (s\<lparr>sess_target := t1\<rparr>)
       (if stop_motors_on_break t1 then stop_all_motors n b1 else b1) = Inr (action, s2, b2)"
    "stopped_inv depth (sess_target s2, b2)" "stage s2 = stage s"
  have "\<exists>s3 b3. (if action = EnterMonitor then run_debug_console 1 resuming_gdb s2 b2 else Some (ok (s2, b2))) = Some (Inr (s3, b3))
      \<and> stopped_inv depth (sess_target s3, b3)"
    using resuming_console [OF e(3), of 0] e(3,4) assms(5) by (simp add: resume_def target_inv_monitor_status)
  then obtain s3 b3 where c: "(if action = EnterMonitor then run_debug_console 1 resuming_gdb s2 b2 else Some (ok (s2, b2))) = Some (Inr (s3, b3))"
      "stopped_inv depth (sess_target s3, b3)" by blast
  show thesis by (rule event_result [OF e(1,2) c]) (rule that)
qed

lemma demo_event:
  obtains u c s' b' where "handle_debug_event 1 resuming_gdb 21 (demo_ctx 0x03800010) demo_session (demo_brain False) =
    Some (Inr (u, c, s', b'))"
proof -
  have "target_inv demo_mem 0 (sess_target demo_session) (demo_brain False)" by (simp add: demo_brain_inv)
  then show thesis by (rule resuming_event [of _ _ _ _ "demo_ctx 0x03800010" 21]) (simp_all add: that)
qed


section \<open>Whose stop it is\<close>

text \<open>Entering the monitor is the stronger action; every owner of a breakpoint asks for one, and the stronger is taken.\<close>

instantiation stop_action :: linorder
begin

definition less_eq_stop_action :: "stop_action \<Rightarrow> stop_action \<Rightarrow> bool" where
  "less_eq_stop_action a b \<longleftrightarrow> a = Resume \<or> b = EnterMonitor"

definition less_stop_action :: "stop_action \<Rightarrow> stop_action \<Rightarrow> bool" where
  "less_stop_action a b \<longleftrightarrow> a = Resume \<and> b = EnterMonitor"

instance
proof
  fix a b c :: stop_action
  show "(a < b) = (a \<le> b \<and> \<not> b \<le> a)" by (cases a; cases b) (simp_all add: less_eq_stop_action_def less_stop_action_def)
  show "a \<le> a" by (cases a) (simp_all add: less_eq_stop_action_def)
  show "a \<le> b \<Longrightarrow> b \<le> c \<Longrightarrow> a \<le> c" by (auto simp: less_eq_stop_action_def)
  show "a \<le> b \<Longrightarrow> b \<le> a \<Longrightarrow> a = b" by (cases a; cases b) (simp_all add: less_eq_stop_action_def)
  show "a \<le> b \<or> b \<le> a" by (cases a; cases b) (simp_all add: less_eq_stop_action_def)
qed

end

lemma handle_stop_strongest:
  assumes "breakpoint_slot (sess_target s) n = Inr (Some x)"
    and "handle_stop (TrackedSoftwareBreak n) s b = Inr (action, s', b')"
  obtains i where "action = max (if br_user (sw_reason x) then EnterMonitor else Resume) i"
    and "if br_internal (sw_reason x) then handle_internal_breakpoint s b = Inr (i, s', b') else i = Resume \<and> s' = s \<and> b' = b"
proof -
  obtain i where i: "(if br_internal (sw_reason x) then handle_internal_breakpoint s b else ok (Resume, s, b)) = Inr (i, s', b')"
    "action = (if br_user (sw_reason x) then EnterMonitor else i)"
    using assms by (auto simp: handle_stop_def and_then_Inr_iff)
  then have "action = max (if br_user (sw_reason x) then EnterMonitor else Resume) i"
    by (cases i) (simp_all add: max_def less_eq_stop_action_def)
  then show thesis using that i(1) by (auto split: if_splits)
qed

section \<open>The program exits\<close>

lemma callback_resuming:
  assumes "gdb_callback env w w'" and "stopped_inv depth w" and "monitor_status (fst w) = ResumingProgram"
  shows "monitor_status (fst w') = ResumingProgram"
  using assms
proof (induction rule: gdb_callback.induct)
  case (add_sw b addr kind t r t' b')
  have sw: "sw_inv (dview b) t b" using stopped_invD(9) [OF add_sw.prems(1)] by (simp add: target_inv_def)
  show ?case
    by (rule register_sw_breakpoint_total [OF sw add_sw(1), of False])
      (use add_sw(2,4) target_more(5) [of t' t] in \<open>simp add: gdb_add_sw_breakpoint_def\<close>)
next
  case (del_sw addr kind t b r t' b')
  have sw: "sw_inv (dview b) t b" using stopped_invD(9) [OF del_sw.prems(1)] by (simp add: target_inv_def)
  show ?case
    by (rule remove_sw_breakpoint_inv [OF sw, of addr False])
      (use del_sw(1,3) in \<open>auto simp: gdb_remove_sw_breakpoint_def\<close>)
next
  case (write_regs regs tid t b t' b')
  then show ?case using mt_write_cases [OF write_regs(2)] by (auto simp: write_registers_def)
next
  case (write_reg tid r val t b t' b')
  then show ?case using tid_write_cases [OF write_reg(1)] by auto
next
  case (step t t' b)
  then show ?case by (auto simp: step_def and_then_Inr_iff resume_def)
next
  case (step_thread tid b t t')
  then have "request_single_step t = Inr (Inr (), t')"
    by (auto simp: set_resume_action_step_def and_then_Inr_iff split: if_splits)
  then show ?case
    using step_thread(3)
    by (auto simp: request_single_step_def and_then_Inr_iff Let_def split: if_splits sum.splits)
      (metis (full_types) old.unit.exhaust sum.exhaust)+
next
  case (monitor val t b level out t' b' level')
  show ?case using monitor_cmd_frame(1) [OF monitor(1)] monitor(3)
    by (metis fst_conv v5_target.select_convs(2) v5_target.surjective v5_target.update_convs(8))
qed (simp_all add: resume_def)

lemma stopped_program: "sw_inv orig t b \<Longrightarrow> breaks_paused t \<Longrightarrow> dview b = orig"
  by (simp add: sw_inv_def overlay_disabled)

text \<open>The program is at the breakpoint of the exit request and nobody else wants that breakpoint.\<close>

definition at_exit :: "debug_event_context \<Rightarrow> 'g debug_session \<Rightarrow> bool" where
  "at_exit ctx s \<longleftrightarrow>
     internal_breaks s = Some [(SystemExitRequest, program_counter ctx)] \<and>
     (case stop_class (program_counter ctx) (sess_target s) of
        TrackedSoftwareBreak i \<Rightarrow>
          (case breaks (sess_target s) ! i of
             Some x \<Rightarrow> br_internal (sw_reason x) \<and> \<not> br_user (sw_reason x)
           | None \<Rightarrow> False)
      | _ \<Rightarrow> False)"

lemma exit_stop:
  assumes inv: "target_inv orig depth (sess_target s) b" and run: "\<not> breaks_paused (sess_target s)"
    and ctx: "wf_context ctx" "fetchable ctx" and exit: "at_exit ctx s"
  obtains r t1 b1 u b2 where "enter_breakpoint ctx (sess_target s) b = Inr (r, t1, b1)"
    and "handle_stop r (s\<lparr>sess_target := t1\<rparr>) (if stop_motors_on_break t1 then stop_all_motors n b1 else b1) =
           (if has_client s then Inr (EnterMonitor, s\<lparr>sess_target := u\<lparr>monitor_status := Exiting\<rparr>\<rparr>, b2)
            else Inr (Resume, s\<lparr>sess_target := u\<rparr>, b2))"
    and "stopped_inv depth (u, b2)" and "dview b2 = orig" and "single_step_request u = None" and "exception_ctx u = ctx"
    and "breaks u = map (remove_slot (program_counter ctx) True) (map (enable_slot False) (breaks (sess_target s)))"
proof -
  let ?pc = "program_counter ctx"
  obtain i x where st: "stop_class ?pc (sess_target s) = TrackedSoftwareBreak i" "breaks (sess_target s) ! i = Some x"
    "br_internal (sw_reason x)" "\<not> br_user (sw_reason x)" "internal_breaks s = Some [(SystemExitRequest, ?pc)]"
    using exit by (auto simp: at_exit_def split: stop_reason.splits option.splits)
  obtain r t1 b1 where e: "enter_breakpoint ctx (sess_target s) b = Inr (r, t1, b1)"
    "target_inv orig depth t1 b1" "breaks_paused t1" "dview b1 = orig" "exception_ctx t1 = ctx"
    "breaks t1 = map (enable_slot False) (breaks (sess_target s))" "single_step_request t1 = None" "r = TrackedSoftwareBreak i"
    by (rule enter_breakpoint_spec [OF inv run ctx]) (rule that, simp_all add: st(1))
  let ?b = "if stop_motors_on_break t1 then stop_all_motors n b1 else b1"
  have "stopped_inv depth (t1, b1)" using e(2-4) by (simp add: stopped_inv_def)
  then have st1: "stopped_inv depth (t1, ?b)" by (simp add: stopped_motors)
  note i = stopped_invD [OF st1]
  have dv: "dview ?b = orig" using e(4) by (simp add: stop_all_motors_def stop_motors_eq)
  have sw: "sw_inv orig t1 ?b" using i(9) dv by (simp add: target_inv_def)
  let ?u = "t1\<lparr>breaks := map (remove_slot ?pc True) (breaks t1)\<rparr>"
  obtain b2 where rm: "remove_sw_breakpoint ?pc True t1 ?b = Inr (frees ?pc True (breaks t1), ?u, b2)"
    "sw_inv orig ?u b2" "maintains ?b b2" by (rule remove_sw_breakpoint_inv [OF sw])
  have "i < length (breaks (sess_target s))" by (rule stop_class_slot [OF st(1)])
  then have slot: "breakpoint_slot t1 i = Inr (Some (x\<lparr>sw_enabled := False\<rparr>))"
    using e(6) i(2) st(2) by (simp add: breakpoint_slot_def enable_slot_def)
  have i2: "stopped_inv depth (?u, b2)" by (rule stopped_sw [OF st1 _ _ _ rm(3)]) (use rm(2) dv in simp_all)
  have d2: "dview b2 = orig" by (rule stopped_program [OF rm(2)]) (use i(1) in simp)
  have h: "handle_stop r (s\<lparr>sess_target := t1\<rparr>) ?b =
      (if has_client s then Inr (EnterMonitor, s\<lparr>sess_target := ?u\<lparr>monitor_status := Exiting\<rparr>\<rparr>, b2)
       else Inr (Resume, s\<lparr>sess_target := ?u\<rparr>, b2))"
    using slot st(3-5) e(5,8) i(1) rm(1)
    by (simp add: handle_stop_def handle_internal_breakpoint_def has_client_def)
  show thesis by (rule that [OF e(1) h i2 d2]) (use e(5-7) in simp_all)
qed

text \<open>
  C5: A program that exits with no GDB attached is not held up: whatever the debugger's connection
  does and however little time it gets, the stop at the exit request is passed without the monitor,
  with the registers as they were, and the breakpoint on it is gone, so that the real function runs.
\<close>
theorem exit_without_client_passes:
  assumes "target_inv orig depth (sess_target s) b" and "\<not> breaks_paused (sess_target s)"
    and "wf_context ctx" and "fetchable ctx" and "at_exit ctx s" and "\<not> has_client s"
  shows "\<exists>t' b'. handle_debug_event fuel api n ctx s b = Some (Inr (True, ctx, s\<lparr>sess_target := t'\<rparr>, b')) \<and>
           slot_keys (breaks t') = slot_keys (breaks (sess_target s)) - {(program_counter ctx, True)} \<and>
           dview b' = overlay orig (breaks t') \<and> target_inv orig depth t' (overlay_restore True b')"
proof (rule exit_stop [OF assms(1-5), of n])
  fix r t1 b1 u b2
  assume e: "enter_breakpoint ctx (sess_target s) b = Inr (r, t1, b1)"
    "handle_stop r (s\<lparr>sess_target := t1\<rparr>) (if stop_motors_on_break t1 then stop_all_motors n b1 else b1) =
           (if has_client s then Inr (EnterMonitor, s\<lparr>sess_target := u\<lparr>monitor_status := Exiting\<rparr>\<rparr>, b2)
            else Inr (Resume, s\<lparr>sess_target := u\<rparr>, b2))"
    "stopped_inv depth (u, b2)" "dview b2 = orig" "single_step_request u = None" "exception_ctx u = ctx"
    "breaks u = map (remove_slot (program_counter ctx) True) (map (enable_slot False) (breaks (sess_target s)))"
  have h: "handle_stop r (s\<lparr>sess_target := t1\<rparr>) (if stop_motors_on_break t1 then stop_all_motors n b1 else b1) =
      Inr (Resume, s\<lparr>sess_target := u\<rparr>, b2)" using e(2) assms(6) by simp
  have c: "(if Resume = EnterMonitor then run_debug_console fuel api (s\<lparr>sess_target := u\<rparr>) b2
      else Some (ok (s\<lparr>sess_target := u\<rparr>, b2))) = Some (Inr (s\<lparr>sess_target := u\<rparr>, b2))" by simp
  have st: "stopped_inv depth (sess_target (s\<lparr>sess_target := u\<rparr>), b2)" using e(3) by simp
  show ?thesis
    by (rule event_result [OF e(1) h c st]) (use e(4-7) in \<open>auto simp: slot_keys_remove slot_keys_enable simp del: map_map\<close>)
qed

text \<open>The demonstration program at its exit request.\<close>

definition exit_target :: v5_target where
  "exit_target = (demo_target 12 False)\<lparr>breaks := Some (fresh_bkpt 0x03800000 True True (Arm 0)) # replicate 15 None\<rparr>"

definition exit_session :: "'g session_stage \<Rightarrow> 'g debug_session" where
  "exit_session sg = \<lparr>sess_target = exit_target, internal_breaks = Some [(SystemExitRequest, 0x03800000)], stage = sg\<rparr>"

lemma exit_session_ok:
  "target_inv demo_mem 0 (sess_target (exit_session sg)) (demo_brain False)"
  "\<not> breaks_paused (sess_target (exit_session sg))"
  "at_exit (demo_ctx 0x03800000) (exit_session sg)" "stage (exit_session sg) = sg"
proof -
  have "sw_inv demo_mem exit_target (demo_brain False)"
    by (simp add: sw_inv_def exit_target_def demo_target_def demo_brain_def demo_system_def machine.defs backup_ok_def
        all_wanted_def slots_state_def list_all_iff demo_slots_def demo_bkpt_def bkpt_for_def)
  then show "target_inv demo_mem 0 (sess_target (exit_session sg)) (demo_brain False)"
    using demo_brain_inv [of 12 False]
    by (simp add: exit_session_def exit_target_def target_inv_def hw_target_inv_def sched_inv_def pending_keys_def)
  have "stop_class 0x03800000 exit_target = TrackedSoftwareBreak 0"
    by (simp add: stop_class_def exit_target_def demo_target_def method_of_entry_def field_def mask_eq_exp_minus_1
        drop_bit_eq_div debug_event_reason_of_def query_sw_breakpoint_def)
  then show "at_exit (demo_ctx 0x03800000) (exit_session sg)"
    by (simp add: at_exit_def exit_session_def exit_target_def reason_new_def)
  show "\<not> breaks_paused (sess_target (exit_session sg))" "stage (exit_session sg) = sg"
    by (simp_all add: exit_session_def exit_target_def demo_target_def)
qed

theorem exit_without_client_passes_witness:
  "\<exists>t' b'. handle_debug_event 0 resuming_gdb 21 (demo_ctx 0x03800000) (exit_session (Uninitialized ())) (demo_brain False) =
       Some (Inr (True, demo_ctx 0x03800000, exit_session (Uninitialized ())\<lparr>sess_target := t'\<rparr>, b')) \<and>
     slot_keys (breaks t') = {}"
proof -
  have "\<not> has_client (exit_session (Uninitialized ()))" by (simp add: has_client_def exit_session_ok(4))
  note run = exit_without_client_passes [OF exit_session_ok(1,2) demo_ctx_ok(1) _ exit_session_ok(3) this, of 0 resuming_gdb 21]
  have "slot_keys (breaks (sess_target (exit_session sg))) - {(0x03800000, True)} = {}" for sg :: "unit session_stage"
    by (auto simp: exit_session_def exit_target_def reason_new_def sw_holds_def slot_keys_def split: if_splits)
  then show ?thesis using run by (simp del: slot_keys_simps) blast
qed

text \<open>
  C6: A program that exits while GDB follows it is reported as exited with status 0, once, and then
  goes on to exit: two turns of the monitor's loop are enough whatever GDB answers, also when it
  answers with a breakpoint, a step or another request.
\<close>
theorem exit_with_client_reported:
  assumes "target_inv orig depth (sess_target s) b" and "\<not> breaks_paused (sess_target s)"
    and "wf_context ctx" and "fetchable ctx" and "at_exit ctx s" and "stage s = SessionActive (Running g)"
    and "gdb_polite api env" and "\<forall>w. \<exists>sm w'. report_stop api g (Exited 0) w = Inr (Inr sm, w')"
  shows "\<exists>w sm w' unpause ctx' t' b'. report_stop api g (Exited 0) w = Inr (Inr sm, w') \<and>
           exception_ctx (fst w) = ctx \<and> dview (snd w) = orig \<and> monitor_status (fst w) = ResumingProgram \<and>
           handle_debug_event (Suc (Suc fuel)) api n ctx s b =
             Some (Inr (unpause, ctx', s\<lparr>stage := SessionActive sm, sess_target := t'\<rparr>, b'))"
proof (rule exit_stop [OF assms(1-5), of n])
  fix r t1 b1 u b2
  assume e: "enter_breakpoint ctx (sess_target s) b = Inr (r, t1, b1)"
    "handle_stop r (s\<lparr>sess_target := t1\<rparr>) (if stop_motors_on_break t1 then stop_all_motors n b1 else b1) =
           (if has_client s then Inr (EnterMonitor, s\<lparr>sess_target := u\<lparr>monitor_status := Exiting\<rparr>\<rparr>, b2)
            else Inr (Resume, s\<lparr>sess_target := u\<rparr>, b2))"
    "stopped_inv depth (u, b2)" "dview b2 = orig" "exception_ctx u = ctx"
  let ?s = "s\<lparr>sess_target := u\<lparr>monitor_status := Exiting\<rparr>\<rparr>" and ?w = "(u\<lparr>monitor_status := ResumingProgram\<rparr>, b2)"
  have "has_client s" using assms(6) by (simp add: has_client_def)
  then have h: "handle_stop r (s\<lparr>sess_target := t1\<rparr>) (if stop_motors_on_break t1 then stop_all_motors n b1 else b1) =
      Inr (EnterMonitor, ?s, b2)" using e(2) by simp
  obtain sm t2 b3 where rep: "report_stop api g (Exited 0) ?w = Inr (Inr sm, t2, b3)" using assms(8) by (metis prod.exhaust)
  have w: "stopped_inv depth ?w" using e(3) by (simp add: target_inv_monitor_status)
  have st: "stopped_inv depth (t2, b3)" by (rule stopped.polite_inv(3) [OF assms(7) w rep])
  have "(gdb_callback env)\<^sup>*\<^sup>* ?w (t2, b3)" using assms(7) rep unfolding gdb_polite_def by blast
  then have "stopped_inv depth (t2, b3) \<and> monitor_status (fst (t2, b3)) = ResumingProgram"
    by (induction rule: rtranclp_induct) (use w in \<open>auto intro: callback_keeps callback_resuming\<close>)
  then have ms: "monitor_status t2 = ResumingProgram" by simp
  let ?s3 = "s\<lparr>stage := SessionActive sm, sess_target := t2\<rparr>"
  have c: "(if EnterMonitor = EnterMonitor then run_debug_console (Suc (Suc fuel)) api ?s b2 else Some (ok (?s, b2))) =
      Some (Inr (?s3, b3))"
    using assms(6) rep ms
    by (simp add: run_debug_console_def run_active_def tick_state_machine_def gdb_stop_reason_def)
  show ?thesis
    by (rule event_result [OF e(1) h c], use st in simp, rule exI [of _ ?w], rule exI [of _ sm], rule exI [of _ "(t2, b3)"])
      (use rep e(4,5) in auto)
qed

text \<open>The connected GDB of the witness answers the report by letting the program go.\<close>

theorem exit_with_client_reported_witness:
  "\<exists>w w' r. report_stop resuming_gdb () (Exited 0) w = Inr (Inr (Idle ()), w') \<and> monitor_status (fst w) = ResumingProgram \<and>
     handle_debug_event 2 resuming_gdb 21 (demo_ctx 0x03800000) (exit_session (SessionActive (Running ()))) (demo_brain False) =
       Some (Inr r)"
proof -
  have ok: "report_stop resuming_gdb () (Exited 0) w = Inr (Inr (Idle ()), resume (fst w), snd w)" for w
    by (simp add: resuming_gdb_def Let_def resume_def)
  have "\<forall>w. \<exists>sm w'. report_stop resuming_gdb () (Exited 0) w = Inr (Inr sm, w')" using ok by blast
  moreover have "fetchable (demo_ctx 0x03800000)" by simp
  ultimately obtain w sm w' r where "report_stop resuming_gdb () (Exited 0) w = Inr (Inr sm, w')"
    "monitor_status (fst w) = ResumingProgram"
    "handle_debug_event (Suc (Suc 0)) resuming_gdb 21 (demo_ctx 0x03800000) (exit_session (SessionActive (Running ())))
       (demo_brain False) = Some (Inr r)"
    using exit_with_client_reported [OF exit_session_ok(1,2) demo_ctx_ok(1) _ exit_session_ok(3,4)
        resuming_gdb_polite [of undefined], where fuel = 0 and n = 21 and g = "()"] by blast
  then show ?thesis using ok by (cases r) (auto simp: numeral_2_eq_2)
qed

section \<open>Polling for Ctrl-C\<close>

text \<open>The connection delivers the bytes that have arrived, one by one, and then none.\<close>

definition pending_api :: "u8 list gdbstub \<Rightarrow> bool" where
  "pending_api api \<longleftrightarrow>
     (\<forall>bs. conn_try_read api bs = (case bs of [] \<Rightarrow> (Inr None, []) | c # cs \<Rightarrow> (Inr (Some c), cs)))"

text \<open>What is left to read after a poll.\<close>

definition after_poll :: "u8 list \<Rightarrow> u8 list" where
  "after_poll bs = drop 1 (dropWhile (\<lambda>c. c \<noteq> CTRL_C) bs)"

lemma after_poll_simps [simp]:
  "after_poll [] = []" "after_poll (c # cs) = (if c = CTRL_C then cs else after_poll cs)"
  by (simp_all add: after_poll_def)

lemma poll_scan_spec:
  assumes "pending_api api" and "target_inv orig depth t m" and "\<not> breaks_paused t"
  shows "length bs < fuel \<Longrightarrow> \<exists>t'. poll_scan fuel api bs t = Some (Inr (after_poll bs, t')) \<and>
    target_inv orig depth t' m \<and> \<not> breaks_paused t' \<and> interrupt_pending t' = (interrupt_pending t \<or> CTRL_C \<in> set bs) \<and>
    (CTRL_C \<notin> set bs \<longrightarrow> t' = t)"
proof (induction bs arbitrary: fuel)
  case Nil
  then obtain k where "fuel = Suc k" by (cases fuel) auto
  then show ?case using assms by (simp add: pending_api_def)
next
  case (Cons c cs)
  then obtain k where k: "fuel = Suc k" "length cs < k" by (cases fuel) auto
  have read: "conn_try_read api (c # cs) = (Inr (Some c), cs)" using assms(1) by (simp add: pending_api_def)
  show ?case
  proof (cases "c = CTRL_C")
    case True
    show ?thesis
      by (rule request_interrupt_spec [OF assms(2,3)]) (use True k read in simp)
  next
    case False
    then show ?thesis using Cons.IH [OF k(2)] k(1) read by auto
  qed
qed

text \<open>
  While the program runs, the poll reads what the host has sent up to a Ctrl-C and asks for the
  interrupt exactly when there is one: it ends after one look per byte, loses no byte behind the
  Ctrl-C, and without one leaves the target alone.
\<close>
lemma poll_interrupts_on_ctrl_c:
  assumes "pending_api api" and "target_inv orig depth (sess_target (session d)) m"
    and "\<not> breaks_paused (sess_target (session d))" and "stage (session d) = SessionActive (Running bs)"
    and "\<not> session_locked d" and "length bs < fuel"
  shows "\<exists>t'. poll fuel api d =
             Some (Inr (d\<lparr>session := (session d)\<lparr>stage := SessionActive (Running (after_poll bs)), sess_target := t'\<rparr>\<rparr>)) \<and>
           target_inv orig depth t' m \<and> \<not> breaks_paused t' \<and>
           interrupt_pending t' = (interrupt_pending (sess_target (session d)) \<or> CTRL_C \<in> set bs) \<and>
           (CTRL_C \<notin> set bs \<longrightarrow> t' = sess_target (session d))"
proof -
  obtain t' where "poll_scan fuel api bs (sess_target (session d)) = Some (Inr (after_poll bs, t'))"
    "target_inv orig depth t' m" "\<not> breaks_paused t'"
    "interrupt_pending t' = (interrupt_pending (sess_target (session d)) \<or> CTRL_C \<in> set bs)"
    "CTRL_C \<notin> set bs \<longrightarrow> t' = sess_target (session d)"
    using poll_scan_spec [OF assms(1-3,6)] by blast
  then show ?thesis using assms(4,5) by (intro exI [of _ t']) (simp add: poll_def)
qed

definition pending_demo :: "u8 list gdbstub" where
  "pending_demo =
     (let stay = (\<lambda>w. ok (Inr (Idle []), w))
      in \<lparr>run_state_machine = (\<lambda>_. stay), incoming_data = (\<lambda>_ _. stay), report_stop = (\<lambda>_ _. stay), interrupt_handled = (\<lambda>_. stay),
          return_to_idle = Idle, conn_read = (\<lambda>bs. case bs of [] \<Rightarrow> (None, []) | c # cs \<Rightarrow> (Some c, cs)),
          conn_try_read = (\<lambda>bs. case bs of [] \<Rightarrow> (Inr None, []) | c # cs \<Rightarrow> (Inr (Some c), cs))\<rparr>)"

definition polled_demo :: "u8 list v5_debugger" where
  "polled_demo = \<lparr>session = \<lparr>sess_target = demo_target 12 False, internal_breaks = None, stage = SessionActive (Running [0x2B, 3, 0x24])\<rparr>,
     config_stop_motors = False, session_locked = False\<rparr>"

lemma poll_interrupts_on_ctrl_c_witness:
  "\<exists>t'. poll 4 pending_demo polled_demo =
       Some (Inr (polled_demo\<lparr>session := (session polled_demo)\<lparr>stage := SessionActive (Running [0x24]), sess_target := t'\<rparr>\<rparr>)) \<and>
     interrupt_pending t'"
proof -
  have "pending_api pending_demo" by (simp add: pending_api_def pending_demo_def Let_def)
  moreover have "target_inv demo_mem 0 (sess_target (session polled_demo)) (demo_brain False)" "\<not> session_locked polled_demo"
    "\<not> breaks_paused (sess_target (session polled_demo))" "stage (session polled_demo) = SessionActive (Running [0x2B, 3, 0x24])"
    by (simp_all add: polled_demo_def demo_brain_inv)
  ultimately show ?thesis
    using poll_interrupts_on_ctrl_c [of pending_demo demo_mem 0 polled_demo "demo_brain False" "[0x2B, 3, 0x24]" 4]
    by (auto simp: CTRL_C_def)
qed

text \<open>
  The timer polls when ten milliseconds or more have passed since the last poll, also across the
  wrap-around of the 32 bit millisecond counter, and otherwise leaves the time of the last poll.
\<close>
lemma irq_poll_rate:
  assumes "elapsed < 2 ^ 32"
  shows "irq_poll (prev + of_nat elapsed) prev = (if elapsed < 10 then (prev, False) else (prev + of_nat elapsed, True))"
proof -
  have "unat (of_nat elapsed :: u32) = elapsed" using assms by (simp add: unat_of_nat)
  then have "(of_nat elapsed :: u32) < IRQ_POLL_INTERVAL_MS \<longleftrightarrow> elapsed < 10"
    by (simp add: word_less_nat_alt IRQ_POLL_INTERVAL_MS_def)
  then show ?thesis by (simp add: irq_poll_def)
qed

lemma irq_poll_rate_witness: "irq_poll (0xFFFFFFFA + of_nat 10) 0xFFFFFFFA = (4, True)"
proof -
  have sum: "(0xFFFFFFFA + of_nat 10 :: u32) = 4" by (simp only: of_nat_numeral) (rule word_unat_eq_iff [THEN iffD2], simp)
  have "(10::nat) < 2 ^ 32" by simp
  from irq_poll_rate [OF this, of "0xFFFFFFFA"] show ?thesis unfolding sum by simp
qed

end
