(* ===== verification/Session_Reachability.thy ===== *)
theory Session_Reachability
  imports Session_Runs
begin

text \<open>
  The states a debugged program reaches: from the installation (\<open>install_by_ref\<close>, \<open>initialize\<close>) on,
  the program runs and stores, the debug hardware reports why it stopped, the timer polls, and debug
  events are handled, in any order. The invariant of the target holds between all of them.
\<close>

section \<open>A program that runs over its breakpoints\<close>

lemma overlay_uncovered:
  "(\<And>b. Some b \<in> set slots \<Longrightarrow> \<not> in_range (instr_addr b) (instr_size (instr_backup b)) x) \<Longrightarrow> overlay orig slots x = orig x"
proof (induction orig slots rule: overlay.induct)
  case (3 orig b slots)
  have "\<not> in_range (instr_addr b) (instr_size (bkpt_for b)) x"
    using "3.prems" [of b] in_range_mono [OF _ bkpt_for_le [of b]] by auto
  then show ?case using 3 by (simp add: store_out)
qed auto

lemma overlay_at: "orig x = orig' x \<Longrightarrow> overlay orig slots x = overlay orig' slots x"
proof (induction slots)
  case (Cons s slots)
  then show ?case by (cases s) (simp_all add: store_def)
qed simp

text \<open>The program under the breakpoints, after memory has changed beside them.\<close>

lemma program_under:
  assumes "slots_ok orig slots"
    and "\<And>b. Some b \<in> set slots \<Longrightarrow>
      load mem (instr_addr b) (instr_size (instr_backup b)) = load (overlay orig slots) (instr_addr b) (instr_size (instr_backup b))"
  obtains orig' where "slots_ok orig' slots" and "mem = overlay orig' slots"
proof -
  let ?covered = "\<lambda>x. \<exists>b. Some b \<in> set slots \<and> in_range (instr_addr b) (instr_size (instr_backup b)) x"
  define orig' where "orig' = (\<lambda>x. if ?covered x then orig x else mem x)"
  have "slots_ok orig' slots"
  proof (rule slots_ok_spared [OF assms(1)])
    fix b assume "Some b \<in> set slots"
    then show "load orig' (instr_addr b) (instr_size (instr_backup b)) = load orig (instr_addr b) (instr_size (instr_backup b))"
      by (intro load_cong) (auto simp: orig'_def)
  qed
  moreover have "mem x = overlay orig' slots x" for x
  proof (cases "?covered x")
    case True
    then obtain b where b: "Some b \<in> set slots" "in_range (instr_addr b) (instr_size (instr_backup b)) x" by blast
    then obtain i where "i < instr_size (instr_backup b)" "x = instr_addr b + of_nat i" by (auto elim: in_rangeE)
    then have "mem x = overlay orig slots x"
      using assms(2) [OF b(1)] by (metis nth_load)
    moreover have "orig' x = orig x" using True by (simp add: orig'_def)
    ultimately show ?thesis by (metis overlay_at)
  next
    case False
    then have "overlay orig' slots x = orig' x" by (intro overlay_uncovered) blast
    then show ?thesis using False by (simp add: orig'_def)
  qed
  ultimately show thesis using that by blast
qed

section \<open>Steps\<close>

text \<open>
  The program's own stores spare the breakpoints, and it leaves the debugger's suspension of the
  scheduler in place. Why the processor stops is the hardware's to say.
\<close>

definition hw_reports :: "u32 \<Rightarrow> 't v5_target_scheme \<Rightarrow> 't v5_target_scheme" where
  "hw_reports status t = t\<lparr>target_hw := (target_hw t)\<lparr>mmio := (mmio (target_hw t))\<lparr>status_control_ext := status\<rparr>\<rparr>\<rparr>"

inductive system_step ::
  "'g gdbstub \<Rightarrow> nat \<Rightarrow> 'g v5_debugger \<times> brain \<Rightarrow> 'g v5_debugger \<times> brain \<Rightarrow> bool" for api n where
  program: "spares_breaks (sess_target (session d)) (dview b) (dview b') \<Longrightarrow> freertos b' = freertos b \<Longrightarrow>
    suspend_depth b' = suspend_depth b \<Longrightarrow> system_step api n (d, b) (d, b')"
| hardware: "system_step api n (d, b) (d\<lparr>session := (session d)\<lparr>sess_target := hw_reports status (sess_target (session d))\<rparr>\<rparr>, b)"
| timer: "poll fuel api d = Some (Inr d') \<Longrightarrow> system_step api n (d, b) (d', b)"
| debug_event: "wf_context ctx \<Longrightarrow> fetchable ctx \<Longrightarrow>
    handle_debug_event fuel api n ctx (session d) b = Some (Inr (unpause, ctx', s', b')) \<Longrightarrow>
    system_step api n (d, b) (d\<lparr>session := s'\<rparr>, overlay_restore unpause b')"

inductive_cases system_stepE: "system_step api n x y"

definition system_inv :: "nat \<Rightarrow> 'g v5_debugger \<times> brain \<Rightarrow> bool" where
  "system_inv depth x \<longleftrightarrow>
     (\<exists>orig. target_inv orig depth (sess_target (session (fst x))) (snd x)) \<and>
     \<not> breaks_paused (sess_target (session (fst x))) \<and> stage (session (fst x)) \<noteq> Transitioning"

lemma hw_reports_inv: "target_inv orig depth (hw_reports status t) m = target_inv orig depth t m"
proof -
  let ?h = "(target_hw t)\<lparr>mmio := (mmio (target_hw t))\<lparr>status_control_ext := status\<rparr>\<rparr>"
  have h: "held ?h i = held (target_hw t) i" for i by (simp add: held_def Let_def)
  have n: "num ?h = num (target_hw t)" by (simp add: num_def)
  have k: "hw_keys ?h = hw_keys (target_hw t)" by (simp add: hw_keys_def h n)
  have i: "hw_inv ?h = hw_inv (target_hw t)"
    by (simp add: hw_inv_def hw_wf_def books_ok_def hw_distinct_def h n)
  have l: "locked ?h = locked (target_hw t)" by (simp add: locked_def)
  show ?thesis
    by (simp add: target_inv_def sw_inv_def hw_target_inv_def sched_inv_def pending_keys_def hw_reports_def
        match_keys_def step_keys_def i k l n)
qed

lemma poll_scan_keeps:
  "poll_scan fuel api g t = Some (Inr (g', t')) \<Longrightarrow> target_inv orig depth t m \<Longrightarrow> \<not> breaks_paused t \<Longrightarrow>
   target_inv orig depth t' m \<and> \<not> breaks_paused t'"
proof (induction fuel api g t rule: poll_scan.induct)
  case (2 fuel api g t)
  obtain r g1 where read: "conn_try_read api g = (r, g1)" by fastforce
  show ?case
  proof (cases "r = Inr (Some CTRL_C)")
    case True
    show ?thesis
      by (rule request_interrupt_spec [OF "2.prems"(2,3)]) (use "2.prems"(1) True read in simp)
  next
    case False
    then show ?thesis
      using 2 read by (auto split: sum.splits option.splits if_splits)
  qed
qed simp

lemma poll_keeps:
  assumes "poll fuel api d = Some (Inr d')" and "system_inv depth (d, b)"
  shows "system_inv depth (d', b)"
proof (cases "\<not> session_locked d \<and> (\<exists>g. stage (session d) = SessionActive (Running g))")
  case False
  then have "d' = d" using assms(1) by (auto simp: poll_def split: session_stage.splits state_machine.splits if_splits)
  then show ?thesis using assms(2) by simp
next
  case True
  then obtain g g' t' where p: "poll_scan fuel api g (sess_target (session d)) = Some (Inr (g', t'))"
    "d' = d\<lparr>session := (session d)\<lparr>stage := SessionActive (Running g'), sess_target := t'\<rparr>\<rparr>"
    using assms(1) by (auto simp: poll_def and_then_Inr_iff)
  then show ?thesis using assms(2) poll_scan_keeps [OF p(1)] by (auto simp: system_inv_def)
qed

lemma program_keeps:
  assumes "target_inv orig depth t b" and "spares_breaks t (dview b) (dview b')" and "freertos b' = freertos b"
    and "suspend_depth b' = suspend_depth b"
  shows "\<exists>orig'. target_inv orig' depth t b'"
proof -
  have sw: "slots_ok orig (breaks t)" "dview b = overlay orig (breaks t)" using assms(1) by (simp_all add: target_inv_def sw_inv_def)
  obtain orig' where "slots_ok orig' (breaks t)" "dview b' = overlay orig' (breaks t)"
    by (rule program_under [OF sw(1), of "dview b'"]) (use assms(2) sw(2) in \<open>simp add: spares_breaks_def\<close>)
  then have "target_inv orig' depth t b'"
    using assms by (simp add: target_inv_def sw_inv_def sched_inv_def)
  then show ?thesis by blast
qed

lemma system_step_keeps:
  assumes "system_step api n x y" and "gdb_polite api env" and "system_inv depth x"
  shows "system_inv depth y"
  using assms
proof (induction rule: system_step.induct)
  case (program d b b')
  then show ?case using program_keeps [of _ depth "sess_target (session d)" b b'] by (auto simp: system_inv_def)
next
  case (hardware d b status)
  then show ?case by (simp add: system_inv_def hw_reports_inv) (simp add: hw_reports_def)
next
  case (timer fuel d d' b)
  then show ?case using poll_keeps by blast
next
  case (debug_event ctx fuel d b unpause ctx' s' b')
  obtain orig where o: "target_inv orig depth (sess_target (session d)) b" "\<not> breaks_paused (sess_target (session d))"
    "stage (session d) \<noteq> Transitioning" using debug_event.prems(2) by (auto simp: system_inv_def)
  show ?case
    using debug_event_keeps [OF o(1,2) debug_event(1,2) debug_event.prems(1) o(3) debug_event(3)]
    by (auto simp: system_inv_def)
qed

text \<open>No step touches the configuration, and the lock is free between them as it was.\<close>

lemma system_step_frame:
  "system_step api n (d, b) (d', b') \<Longrightarrow> session_locked d' = session_locked d \<and> config_stop_motors d' = config_stop_motors d"
  by (elim system_stepE)
    (auto simp: poll_def and_then_Inr_iff split: if_splits session_stage.splits state_machine.splits)

end
