(* ===== verification/Install_Properties.thy ===== *)
theory Install_Properties
  imports Session_Reachability
begin

text \<open>
  Installing the debugger (\<open>install_by_ref\<close>, \<open>V5Debugger::new\<close>, \<open>initialize\<close>) establishes the
  invariant, and everything that can happen afterwards keeps it.
\<close>

section \<open>Installation\<close>

definition fresh_target :: "hw_manager \<Rightarrow> v5_target" where
  "fresh_target h = \<lparr>breaks_paused = False, breaks = replicate 16 None, exception_ctx = context_default,
     monitor_status = ResumingProgram, stop_reason = Other, target_hw = h, original_hw_lock_state = False,
     single_step_request = None, interrupt_pending = False, stop_motors_on_break = False\<rparr>"

lemma fresh_target_inv:
  assumes "hw_inv h" and "hw_keys h = {}"
  shows "target_inv (dview b) (suspend_depth b) (fresh_target h) b" and "\<not> breaks_paused (fresh_target h)"
  using assms
  by (simp_all add: target_inv_def sw_inv_def hw_target_inv_def sched_inv_def pending_keys_def fresh_target_def
      match_keys_def step_keys_def wf_context_def context_default_def all_wanted_def slots_state_def list_all_iff hw_inv_def hw_wf_def)

lemma register_exit:
  assumes "target_inv orig depth (sess_target s) b" and "sw_ready orig (f AND NOT 1) (f AND 1 \<noteq> 0) (sess_target s)"
    and "internal_breaks s = None" and "register_result (f AND NOT 1) True (breaks (sess_target s)) = Inr ()"
  obtains t b' where "register_internal_breakpoints f s b =
      Inr (s\<lparr>sess_target := t, internal_breaks := Some [(SystemExitRequest, f AND NOT 1)]\<rparr>, b')"
    and "target_inv orig depth t b'" and "breaks_paused t = breaks_paused (sess_target s)" and "caches.more b' = caches.more b"
    and "slot_keys (breaks t) = insert (f AND NOT 1, True) (slot_keys (breaks (sess_target s)))"
proof -
  have sw: "sw_inv orig (sess_target s) b" using assms(1) by (simp add: target_inv_def)
  obtain t b' where r: "register_sw_breakpoint (f AND NOT 1) (f AND 1 \<noteq> 0) True (sess_target s) b = Inr (Inr (), t, b')"
    "sw_inv orig t b'" "maintains b b'" "breaks_paused t = breaks_paused (sess_target s)"
    "v5_breaks.more t = v5_breaks.more (sess_target s)"
    "slot_keys (breaks t) = insert (f AND NOT 1, True) (slot_keys (breaks (sess_target s)))"
    by (rule register_sw_breakpoint_total [OF sw assms(2), of True]) (use that assms(4) in simp)
  have more: "caches.more b' = caches.more b" using r(3) by (simp add: maintains_def)
  have "target_inv orig depth t b'"
    using assms(1) r(2,4) target_more [OF r(5)] machine_more [OF more]
    by (simp add: target_inv_def hw_target_inv_def sched_inv_def pending_keys_def)
  then show thesis
    by (rule that [rotated]) (use assms(3) r more in \<open>simp_all add: register_internal_breakpoints_def Let_def\<close>)
qed

lemma spares_one:
  assumes "all_wanted (breaks t)" and "slot_keys (breaks t) \<subseteq> {(addr, True)}" and "apart addr 4 entry 12"
    and "\<And>x. \<not> in_range entry 12 x \<Longrightarrow> mem' x = mem x"
  shows "spares_breaks t mem mem'"
proof -
  have "load mem' (instr_addr b) (instr_size (instr_backup b)) = load mem (instr_addr b) (instr_size (instr_backup b))"
    if b: "Some b \<in> set (breaks t)" for b
  proof -
    obtain i where "sw_holds i (sw_reason b)"
      using assms(1) b not_unwanted_holds by (fastforce simp: all_wanted_def list_all_iff)
    then have a: "instr_addr b = addr" using slot_keysI [OF b] assms(2) by blast
    have n: "instr_size (instr_backup b) \<le> 4" by (cases "instr_backup b") simp_all
    show ?thesis
    proof (rule load_cong)
      fix x assume "in_range (instr_addr b) (instr_size (instr_backup b)) x"
      then have "in_range addr 4 x" using a n in_range_mono by blast
      then show "mem' x = mem x" using assms(4) apart_disjoint [OF assms(3)] by blast
    qed (use n in simp)
  qed
  then show ?thesis by (simp add: spares_breaks_def)
qed

text \<open>
  C4: On a board that permits hardware debugging, making a debugger and installing it succeeds and
  leaves everything in place: the vectors point to the overlay, the program's exit request has a
  breakpoint and no other instruction has one, the competition status function leads to the
  debugger's, the setting of the motors is taken over, and the invariant of the session holds.
\<close>
theorem install_establishes_invariant:
  fixes b :: brain
  assumes "lock_debug dc \<longrightarrow> invasive_debug_enable dc \<and> secure_invasive_debug_enable dc"
    and "rom_address_valid (dbgdrar regs) = Some Valid" and "self_address_valid (dbgdsar regs) = Some Valid"
    and "banks_ok (logic_at (rom_address_value (dbgdrar regs) + self_address_value (dbgdsar regs)))"
    and "0x03000000 \<le> f AND NOT 1" and "instr_read (dview b) (f AND NOT 1) (f AND 1 \<noteq> 0) = Inr ins"
    and "src = (if c AND 1 \<noteq> 0 then trampoline_thumb syms else trampoline_arm syms) AND NOT 1"
    and "(if c AND 1 \<noteq> 0 then trampoline_thumb_end syms else trampoline_arm_end syms) = src + 8"
    and "entry = c AND NOT 1" and "src \<noteq> 0" and "entry \<noteq> 0" and "unat src + 8 < 2 ^ 32" and "unat entry + 12 < 2 ^ 32"
    and "apart src 8 entry 12" and "apart (f AND NOT 1) 4 entry 12"
    and "table AND 31 = 0" and "installed i = None"
    and "f = vex_system_exit_request syms" and "c = vex_competition_status syms"
  shows "\<exists>d dc' regs' i' b' d'. v5_debugger_new gdb logic_at dc regs b = Inr (d, dc', regs', b) \<and>
           install_by_ref syms table (with_config stop d) i b = Inr (i', b') \<and> installed i' = Some d' \<and>
           system_inv (suspend_depth b) (d', b') \<and> vbar i' = table \<and>
           slot_keys (breaks (sess_target (session d'))) = {(f AND NOT 1, True)} \<and>
           read_word (dview b') (entry + 8) = read_status_fn syms \<and>
           stop_motors_on_break (sess_target (session d')) = stop"
proof -
  obtain h dc' regs' where hw: "hw_setup logic_at dc regs b = Inr (h, dc', regs', b)" "hw_inv h" "hw_keys h = {}"
    using hw_setup_spec [of dc regs logic_at b] assms(1-4) by blast
  let ?s = "\<lparr>sess_target = fresh_target h, internal_breaks = None, stage = Uninitialized gdb\<rparr>"
  let ?d = "\<lparr>session = ?s, config_stop_motors = False, session_locked = False\<rparr>"
  have new: "v5_debugger_new gdb logic_at dc regs b = Inr (?d, dc', regs', b)"
    using hw(1) by (simp add: v5_debugger_new_def target_new_def fresh_target_def)
  have inv: "target_inv (dview b) (suspend_depth b) (sess_target ?s) b" using fresh_target_inv [OF hw(2,3)] by simp
  have ready: "sw_ready (dview b) (f AND NOT 1) (f AND 1 \<noteq> 0) (sess_target ?s)"
    using assms(5,6) by (simp add: sw_ready_def fresh_target_def list_all_iff)
  have space: "register_result (f AND NOT 1) True (breaks (sess_target ?s)) = Inr ()"
  proof -
    have "find_index (slot_at a) (replicate 16 None) = None" for a by (simp add: find_index_None_iff)
    moreover have "find_index (\<lambda>s. s = None) (replicate 16 (None :: sw_breakpoint option)) \<noteq> None"
      by (simp only: find_index_None_iff) simp
    ultimately show ?thesis by (auto simp: register_result_def fresh_target_def)
  qed
  obtain t b1 where reg: "register_internal_breakpoints f ?s b =
      Inr (?s\<lparr>sess_target := t, internal_breaks := Some [(SystemExitRequest, f AND NOT 1)]\<rparr>, b1)"
    "target_inv (dview b) (suspend_depth b) t b1" "\<not> breaks_paused t" "slot_keys (breaks t) = {(f AND NOT 1, True)}"
    "caches.more b1 = caches.more b"
    by (rule register_exit [OF inv ready _ space]) (simp_all add: fresh_target_def slot_keys_def)
  have same: "trampoline_arm (linker_symbols.truncate syms) = trampoline_arm syms"
    "trampoline_arm_end (linker_symbols.truncate syms) = trampoline_arm_end syms"
    "trampoline_thumb (linker_symbols.truncate syms) = trampoline_thumb syms"
    "trampoline_thumb_end (linker_symbols.truncate syms) = trampoline_thumb_end syms"
    by (simp_all add: linker_symbols.defs)
  obtain b2 where red: "redirect_function (linker_symbols.truncate syms) c (read_status_fn syms) b1 = Inr b2"
    "read_word (dview b2) (entry + 8) = read_status_fn syms" "\<forall>x. \<not> in_range entry 12 x \<longrightarrow> dview b2 x = dview b1 x"
    "caches.more b2 = caches.more b1"
    using redirect_spec [of src c "linker_symbols.truncate syms" entry "read_status_fn syms" b1, unfolded same, OF assms(7-14)]
    by blast
  have "spares_breaks t (dview b1) (dview b2)"
    by (rule spares_one [OF _ _ assms(15)]) (use reg(2,4) red(3) in \<open>simp_all add: target_inv_def sw_inv_def\<close>)
  then obtain orig where o: "target_inv orig (suspend_depth b) t b2"
    using program_keeps [OF reg(2)] machine_more(1,2) [OF red(4)] by blast
  let ?s' = "?s\<lparr>sess_target := t, internal_breaks := Some [(SystemExitRequest, f AND NOT 1)]\<rparr>"
  let ?d' = "(with_config stop ?d)\<lparr>session := ?s'\<lparr>sess_target := t\<lparr>stop_motors_on_break := stop\<rparr>\<rparr>\<rparr>"
  have init: "initialize syms (with_config stop ?d) b = Inr (?d', b2)"
    using reg(1) red(1) assms(18,19) by (simp add: initialize_def with_config_def install_override_def)
  obtain v where v: "install_vectors table (vectors.truncate i) = Inr v" "vbar v = table"
    using assms(16) by (auto simp: install_vectors_def vbar_new_def Let_def)
  have ins: "install_by_ref syms table (with_config stop ?d) i b = Inr (vectors.extend v \<lparr>installed = Some ?d'\<rparr>, b2)"
    using v(1) init assms(17) by (simp add: install_by_ref_def)
  have "target_inv orig (suspend_depth b) (t\<lparr>stop_motors_on_break := stop\<rparr>) b2"
    using o by (simp add: target_inv_def sw_inv_def hw_target_inv_def sched_inv_def pending_keys_def)
  then have "system_inv (suspend_depth b) (?d', b2)" using reg(3) by (auto simp: system_inv_def)
  then show ?thesis using new ins v(2) reg(4) red(2) by (fastforce simp: vectors.defs)
qed


definition demo_symbols :: sdk_symbols where
  "demo_symbols = \<lparr>trampoline_arm = 0x1000, trampoline_arm_end = 0x1008, trampoline_thumb = 0x1011, trampoline_thumb_end = 0x1018,
     vex_system_exit_request = 0x03800000, vex_competition_status = 0x201b, read_status_fn = 0x3001\<rparr>"

theorem install_establishes_invariant_witness:
  "\<exists>d r i' b' d'. v5_debugger_new () (\<lambda>_. demo_logic)
         \<lparr>lock_debug = False, invasive_debug_enable = False, secure_invasive_debug_enable = False\<rparr>
         \<lparr>sder = 0, dbgdidr = 0x35000000, dbgdrar = 0xf8800003, dbgdsar = 0x00010003\<rparr> (demo_brain False\<lparr>dview := demo_mem\<rparr>) =
           Inr (d, r) \<and>
     install_by_ref demo_symbols 0x03800040 (with_config True d)
         \<lparr>vbar = 0x100, original_vector_addresses = [], original_vector_addresses_set = False, installed = None\<rparr>
         (demo_brain False\<lparr>dview := demo_mem\<rparr>) = Inr (i', b') \<and>
     installed i' = Some d' \<and> slot_keys (breaks (sess_target (session d'))) = {(0x03800000, True)}"
proof -
  have v: "field 0 2 0xf8800003 = 3" "field 0 2 0x00010003 = 3"
    by (simp_all add: field_def mask_eq_exp_minus_1 drop_bit_eq_div)
  have b: "banks_ok demo_logic" by (simp add: banks_ok_def demo_logic_def)
  have a: "apart 0x1010 8 0x201a 12" "apart 0x03800000 4 0x201a 12" by (simp_all add: apart_def)
  show ?thesis
    using install_establishes_invariant [of "\<lparr>lock_debug = False, invasive_debug_enable = False, secure_invasive_debug_enable = False\<rparr>"
        "\<lparr>sder = 0, dbgdidr = 0x35000000, dbgdrar = 0xf8800003, dbgdsar = 0x00010003\<rparr>" "\<lambda>_. demo_logic"
        "0x03800000" "demo_brain False\<lparr>dview := demo_mem\<rparr>" "Arm 0" "0x1010" "0x201b" demo_symbols "0x201a" "0x03800040"
        "\<lparr>vbar = 0x100, original_vector_addresses = [], original_vector_addresses_set = False, installed = None\<rparr>" "()" True]
      v b a
    by (fastforce simp: rom_address_valid_def self_address_valid_def debug_valid_of_def demo_symbols_def)
qed

section \<open>Everything after\<close>



end
