(* ===== verification/Lost_Writes.thy ===== *)
theory Lost_Writes
  imports Session_Reachability
begin

text \<open>
  What a write of GDB under a registered breakpoint comes to: the breakpoint keeps the instruction it
  saved when it was set, and puts that one back at every stop.
\<close>

lemma overlay_covered:
  "Some b \<in> set slots \<Longrightarrow> sw_enabled b \<Longrightarrow> in_range (instr_addr b) (instr_size (bkpt_for b)) x \<Longrightarrow>
   overlay orig slots x = overlay orig' slots x"
proof (induction slots)
  case (Cons s slots)
  then show ?case by (cases s) (auto simp: store_def)
qed simp

lemma slots_ok_backup: "slots_ok orig slots \<Longrightarrow> Some b \<in> set slots \<Longrightarrow> backup_ok orig b"
  by (induction orig slots rule: slots_ok.induct) auto

text \<open>Arming does not look at what is in memory.\<close>

lemma arm_any_memory:
  assumes "slots_ok orig slots" and "slots_state True slots"
  shows "\<exists>m'. enable_slots True slots m = Inr (map (enable_slot True) slots, m') \<and>
           dview m' = overlay (dview m) (map (enable_slot True) slots) \<and> caches.more m' = caches.more m"
  using assms
proof (induction slots arbitrary: m)
  case (Cons s slots)
  show ?case
  proof (cases s)
    case None
    then show ?thesis using Cons.IH [of m] Cons.prems by (auto simp: slots_state_def)
  next
    case (Some b)
    let ?a = "instr_addr b" and ?bk = "instr_bytes (bkpt_for b)"
    have nz: "?a \<noteq> 0" using Cons.prems(1) Some by (auto dest: backup_okD(1))
    have off: "\<not> sw_enabled b" using Cons.prems(2) Some by (simp add: slots_state_def)
    define m1 where "m1 = write_data ?a ?bk m"
    define m2 where "m2 = sync_instruction (sw_cache_target (b\<lparr>sw_enabled := True\<rparr>)) m1"
    have en: "set_enabled True b m = Inr (b\<lparr>sw_enabled := True\<rparr>, m1)"
      using nz off by (simp add: set_enabled_def instr_write_def m1_def)
    obtain m' where m': "enable_slots True slots m2 = Inr (map (enable_slot True) slots, m')"
      "dview m' = overlay (dview m2) (map (enable_slot True) slots)" "caches.more m' = caches.more m2"
      using Cons.IH [of m2] Cons.prems Some by (auto simp: slots_state_def)
    have "list_all (slot_clear ?a (length ?bk)) slots"
      using Cons.prems(1) Some bkpt_for_le [of b] by (auto simp: list_all_iff intro: slot_clear_mono)
    then have "list_all (slot_clear ?a (length ?bk)) (map (enable_slot True) slots)" by (simp add: list_all_iff)
    then have "dview m' = overlay (dview m) (map (enable_slot True) (s # slots))"
      using m'(2) Some by (simp add: m2_def m1_def overlay_store)
    then show ?thesis using en m' Some by (simp add: m2_def [symmetric]) (simp add: m2_def m1_def)
  qed
qed simp

lemma write_addrs_dview: "write_addrs addr data b = Inr (Inr (), b') \<Longrightarrow> b' = write_data addr data b"
  by (auto simp: write_addrs_def write_memory_def and_then_Inr_iff Let_def split: if_splits)

lemma covered_write:
  assumes "Some x \<in> set slots" and "instr_size (instr_backup x) = instr_align (is_thumb (instr_backup x))"
    and "length data = instr_size (instr_backup x)"
  shows "overlay (store mem (instr_addr x) data) (map (enable_slot True) slots) = overlay mem (map (enable_slot True) slots)"
proof
  fix y
  let ?x = "x\<lparr>sw_enabled := True\<rparr>"
  have x: "Some ?x \<in> set (map (enable_slot True) slots)" using assms(1) by (force simp: enable_slot_def)
  show "overlay (store mem (instr_addr x) data) (map (enable_slot True) slots) y = overlay mem (map (enable_slot True) slots) y"
  proof (cases "in_range (instr_addr x) (length data) y")
    case True
    then show ?thesis using overlay_covered [OF x] assms(2,3) by (simp add: bkpt_for_size)
  next
    case False
    then show ?thesis by (intro overlay_at) (simp add: store_out)
  qed
qed


text \<open>The demonstration table on a machine whose memory is mapped.\<close>

definition ram_brain :: brain where
  "ram_brain = demo_brain True\<lparr>dview := dview demo_ram\<rparr>"

lemma ram_brain_inv: "stopped_inv 0 (demo_target 12 True, ram_brain)"
proof -
  have "instr_read (dview demo_ram) 0x03800000 False = Inr (Arm 0)"
    by (simp add: instr_read_Inr_iff read_u32_def instr_align_def load_4 demo_ram_def)
  then have "sw_inv (dview demo_ram) (demo_target 12 True) ram_brain"
    using demo_table_ok [of False] demo_table_ok(3) [of True]
    by (simp add: sw_inv_def demo_target_def ram_brain_def demo_slots_def demo_bkpt_def backup_ok_def)
  then show ?thesis
    using demo_brain_inv [of 12 True]
    by (simp add: stopped_inv_def target_inv_def sched_inv_def ram_brain_def) (simp add: demo_target_def)
qed

lemma ram_brain_accessible: "drop_bit 20 a = 0x38 \<Longrightarrow> accessible ram_brain True a"
proof -
  have f: "ttbcr ram_brain = 0" "ttbr0 ram_brain = 0x4000" "ttbr1 ram_brain = 0" "dview ram_brain = dview demo_ram"
    by (simp_all add: ram_brain_def demo_brain_def demo_system_def machine.defs)
  have "base_ptr (for_addr a ram_brain) = 0x4000" for a
    by (simp add: for_addr_def f virtual_addr_uses_tt0_def tt0_boundary_def field_def
        ttbr_base_ptr_def upper_base_addr_mask_def mask_eq_exp_minus_1 Let_def)
  then show "drop_bit 20 a = 0x38 \<Longrightarrow> accessible ram_brain True a"
    using demo_ram_accessible(1) [of a True] by (simp add: accessible_def demo_ram_for_addr f)
qed

lemma ram_write:
  obtains b' where "write_addrs 0x03800000 [1, 2, 3, 4] ram_brain = Inr (Inr (), b')"
proof -
  have acc: "accessible ram_brain True (0x03800000 + of_nat k)" if "k < 4" for k
  proof (rule ram_brain_accessible)
    have "unat (0x03800000 + of_nat k :: u32) = 0x03800000 + k" using that by (subst unat_add_u32) simp_all
    then show "drop_bit 20 (0x03800000 + of_nat k :: u32) = 0x38"
      using that by (simp add: word_unat_eq_iff drop_bit_eq_div unat_div)
  qed
  have e: "saturating_add 0x03800000 (of_nat (length [1, 2, 3, 4 :: u8])) = (0x03800004 :: u32)"
    by (simp add: saturating_add_def)
  obtain n where n: "test_access ram_brain 0x03800000 0x03800004 True = Inr n" "n \<le> 4"
    "n = 4 \<or> \<not> accessible ram_brain True (0x03800000 + of_nat n)"
    by (rule test_access_spec [of ram_brain "0x03800000" "0x03800004" True]) (rule that, simp_all)
  then have "n = 4" using acc [of n] by (cases "n < 4") auto
  then have "write_memory 0x03800000 [1, 2, 3, 4] ram_brain = Inr (True, write_data 0x03800000 [1, 2, 3, 4] ram_brain)"
    using n(1) e by (simp add: write_memory_def assert_copy_def)
  then show thesis using that by (simp add: write_addrs_def)
qed


end
