(* ===== verification/Host_Proxy.thy ===== *)
theory Host_Proxy
  imports Transport_Mux
begin

text \<open>
  \<open>src/cli/src/bin/v5gdb.rs\<close>: the proxy on the host, between GDB's socket and the serial line. The
  COBS decoder is a parameter, and so are the reads; what is written to the socket, to standard error
  and to the device is kept in order, and so is what is printed for \<open>--debug-io\<close>, before it is formatted.
  Sockets take what is written to them.
\<close>

section \<open>The proxy\<close>

text \<open>\<open>DecodeReport\<close>, no frame yet, or an error.\<close>

datatype push_result = Report nat nat | Partial | Bad

record 'd cobs_decoder =
  dec_push :: "u8 list \<Rightarrow> 'd \<Rightarrow> push_result \<times> 'd"
  dec_dest :: "'d \<Rightarrow> u8 list"
  dec_reset :: "'d \<Rightarrow> 'd"

text \<open>The lines of \<open>--debug-io\<close>, one constructor for each \<open>print!\<close>, with the bytes shown.\<close>

datatype printed_line =
    PrintUser "u8 list" | PrintToGdb "u8 list" | PrintFromGdb "u8 list" | PrintUnknown "u8 list" | PrintInvalid u8

record proxy_out =
  debug_out :: "u8 list"
  user_out :: "u8 list"
  device_out :: "u8 list"
  printed :: "printed_line list"

definition print_io :: "bool \<Rightarrow> printed_line \<Rightarrow> proxy_out \<Rightarrow> proxy_out" where
  "print_io debug_io line w = (if debug_io then w\<lparr>printed := printed w @ [line]\<rparr> else w)"

definition handle_packet :: "bool \<Rightarrow> u8 list \<Rightarrow> proxy_out \<Rightarrow> bool \<times> proxy_out" where
  "handle_packet debug_io packet w =
     (case packet of
        [] \<Rightarrow> (False, w)
      | channel # body \<Rightarrow>
          if channel = 0x75 then
            let w = print_io debug_io (PrintUser body) w in (True, w\<lparr>user_out := user_out w @ body\<rparr>)
          else if channel = 0x64 then
            let w = print_io debug_io (PrintToGdb body) w in (True, w\<lparr>debug_out := debug_out w @ body\<rparr>)
          else (False, w))"

definition slice_to :: "nat \<Rightarrow> u8 list \<Rightarrow> u8 list outcome" where
  "slice_to n xs = and_then (assert_that (n \<le> length xs) ''slice index'') (\<lambda>_. ok (take n xs))"

fun decode_incoming ::
  "bool \<Rightarrow> nat \<Rightarrow> 'd cobs_decoder \<Rightarrow> u8 list \<Rightarrow> 'd \<Rightarrow> proxy_out \<Rightarrow> ('d \<times> proxy_out) outcome option" where
  "decode_incoming debug_io 0 dec incoming d w = None"
| "decode_incoming debug_io (Suc fuel) dec incoming d w =
     (if incoming = [] then Some (ok (d, w))
      else case dec_push dec incoming d of
        (Report frame_size parsed_size, d) \<Rightarrow>
          (case and_then (slice_to frame_size (dec_dest dec d)) (\<lambda>packet.
             let (was_valid, w) = handle_packet debug_io packet w in
             and_then (slice_to parsed_size incoming) (\<lambda>body.
               ok (if was_valid then w
                   else let w = print_io debug_io (PrintUnknown body) w in w\<lparr>user_out := user_out w @ body\<rparr>))) of
             Inl e \<Rightarrow> Some (Inl e)
           | Inr w \<Rightarrow> decode_incoming debug_io fuel dec (drop parsed_size incoming) (dec_reset dec d) w)
      | (Bad, d) \<Rightarrow>
          (let w = w\<lparr>user_out := user_out w @ [hd incoming]\<rparr>; w = print_io debug_io (PrintInvalid (hd incoming)) w in
           decode_incoming debug_io fuel dec (tl incoming) (dec_reset dec d) w)
      | (Partial, d) \<Rightarrow> Some (ok (d, w)))"

text \<open>
  The turns of the loop: what a read of the device or of the client gave (None for an error), and for
  the client's whether the device took it. The result says whether the loop goes on.
\<close>

datatype proxy_event = DeviceRead "u8 list option" | ClientRead "u8 list option" bool

definition serve_turn ::
  "bool \<Rightarrow> nat \<Rightarrow> 'd cobs_decoder \<Rightarrow> proxy_event \<Rightarrow> 'd \<Rightarrow> proxy_out \<Rightarrow> (bool \<times> 'd \<times> proxy_out) outcome option" where
  "serve_turn debug_io fuel dec event d w =
     (case event of
        DeviceRead None \<Rightarrow> Some (ok (True, d, w))
      | DeviceRead (Some bytes) \<Rightarrow>
          map_option (\<lambda>r. and_then r (\<lambda>(d, w). ok (True, d, w))) (decode_incoming debug_io fuel dec bytes d w)
      | ClientRead None written \<Rightarrow> Some (ok (True, d, w))
      | ClientRead (Some bytes) written \<Rightarrow>
          Some (ok (if bytes = [] then (False, d, w)
                    else let w = print_io debug_io (PrintFromGdb bytes) w in
                      if written then (True, d, w\<lparr>device_out := device_out w @ bytes\<rparr>)
                      else (False, d, w))))"

fun serve_turns ::
  "bool \<Rightarrow> nat \<Rightarrow> 'd cobs_decoder \<Rightarrow> proxy_event list \<Rightarrow> 'd \<Rightarrow> proxy_out \<Rightarrow> (bool \<times> 'd \<times> proxy_out) outcome option" where
  "serve_turns debug_io fuel dec [] d w = Some (ok (True, d, w))"
| "serve_turns debug_io fuel dec (event # events) d w =
     (case serve_turn debug_io fuel dec event d w of
        None \<Rightarrow> None
      | Some (Inl e) \<Rightarrow> Some (Inl e)
      | Some (Inr (again, d, w)) \<Rightarrow> if again then serve_turns debug_io fuel dec events d w else Some (ok (False, d, w)))"

section \<open>What is printed\<close>

lemma print_io_False [simp]: "print_io False line w = w"
  by (simp add: print_io_def)

text \<open>The three outputs, without what is printed: \<open>--debug-io\<close> changes none of them.\<close>

definition outs :: "proxy_out \<Rightarrow> proxy_out" where
  "outs w = w\<lparr>printed := []\<rparr>"

lemma outs_simps [simp]:
  "outs (print_io debug_io line w) = outs w" "outs (w\<lparr>user_out := x\<rparr>) = outs w\<lparr>user_out := x\<rparr>"
  "outs (w\<lparr>debug_out := x\<rparr>) = outs w\<lparr>debug_out := x\<rparr>" "outs (w\<lparr>device_out := x\<rparr>) = outs w\<lparr>device_out := x\<rparr>"
  "user_out (outs w) = user_out w" "debug_out (outs w) = debug_out w" "device_out (outs w) = device_out w" "outs (outs w) = outs w"
  "user_out (print_io debug_io line w) = user_out w" "debug_out (print_io debug_io line w) = debug_out w"
  "device_out (print_io debug_io line w) = device_out w"
  by (simp_all add: outs_def print_io_def)

lemma handle_packet_outs:
  "handle_packet debug_io packet w = (valid, w') \<Longrightarrow> handle_packet False packet (outs w) = (valid, outs w')"
  by (auto simp: handle_packet_def Let_def split: list.splits if_splits)

lemma decode_incoming_outs:
  "map_option (map_sum id (map_prod id outs)) (decode_incoming debug_io fuel dec c d w) = decode_incoming False fuel dec c d (outs w)"
proof (induction fuel arbitrary: c d w)
  case (Suc fuel)
  obtain r d1 where push: "dec_push dec c d = (r, d1)" by fastforce
  show ?case
  proof (cases r)
    case (Report frame_size parsed_size)
    obtain valid w1 where h: "handle_packet debug_io (take frame_size (dec_dest dec d1)) w = (valid, w1)" by fastforce
    show ?thesis
      using push Report h handle_packet_outs [OF h] Suc.IH
      by (cases "frame_size \<le> length (dec_dest dec d1)"; cases "parsed_size \<le> length c"; cases valid)
        (simp_all add: slice_to_def Let_def)
  qed (use push Suc.IH in \<open>simp_all add: Let_def\<close>)
qed simp

lemma serve_turn_outs:
  "map_option (map_sum id (map_prod id (map_prod id outs))) (serve_turn debug_io fuel dec event d w) =
     serve_turn False fuel dec event d (outs w)"
proof (cases "\<exists>bytes. event = DeviceRead (Some bytes)")
  case True
  then obtain bytes where e: "event = DeviceRead (Some bytes)" by blast
  obtain x where x: "decode_incoming debug_io fuel dec bytes d w = x" by blast
  then have "decode_incoming False fuel dec bytes d (outs w) = map_option (map_sum id (map_prod id outs)) x"
    using decode_incoming_outs [of debug_io fuel dec bytes d w] by simp
  then show ?thesis using x e by (cases x rule: option.exhaust [case_product sum.exhaust, of _ "the x"]) (auto simp: serve_turn_def)
qed (auto simp: serve_turn_def Let_def split: proxy_event.splits option.splits)

lemma serve_turns_outs:
  "map_option (map_sum id (map_prod id (map_prod id outs))) (serve_turns debug_io fuel dec events d w) =
     serve_turns False fuel dec events d (outs w)"
proof (induction events arbitrary: d w)
  case (Cons event events)
  then show ?case
    using serve_turn_outs [of debug_io fuel dec event d w, symmetric] by (auto split: option.splits sum.splits)
qed simp

lemma serve_turns_outsD:
  assumes "serve_turns False fuel dec events d (outs w) = Some (Inr (again, d', x))"
  shows "\<exists>w'. serve_turns debug_io fuel dec events d w = Some (Inr (again, d', w')) \<and> outs w' = x"
proof -
  obtain y where y: "serve_turns debug_io fuel dec events d w = y" by blast
  have "map_option (map_sum id (map_prod id (map_prod id outs))) y = Some (Inr (again, d', x))"
    using serve_turns_outs [of debug_io fuel dec events d w] assms y by simp
  then show ?thesis unfolding y by (cases "the y") auto
qed

section \<open>What arrives\<close>

text \<open>
  What the crate documents of the decoder, for frames that fit it: \<open>pending d p\<close> says that it has taken
  the bytes \<open>p\<close> of a frame. Bytes up to a delimiter complete the frame; bytes without one wait.
\<close>

definition decodes ::
  "'d cobs_decoder \<Rightarrow> (u8 list \<Rightarrow> u8 list option) \<Rightarrow> ('d \<Rightarrow> u8 list \<Rightarrow> bool) \<Rightarrow> bool" where
  "decodes dec decode pending \<longleftrightarrow>
     (\<forall>d. pending (dec_reset dec d) []) \<and>
     (\<forall>d p q rest x. pending d p \<longrightarrow> 0 \<notin> set q \<longrightarrow> length (p @ q) < OUT_BUF_SIZE \<longrightarrow> decode (p @ q) = Some x \<longrightarrow>
        (case dec_push dec (q @ 0 # rest) d of
           (r, d') \<Rightarrow> r = Report (length x) (length q + 1) \<and> length x \<le> length (dec_dest dec d') \<and>
                     take (length x) (dec_dest dec d') = x)) \<and>
     (\<forall>d p q r x. pending d p \<longrightarrow> q \<noteq> [] \<longrightarrow> 0 \<notin> set (q @ r) \<longrightarrow> length (p @ q @ r) < OUT_BUF_SIZE \<longrightarrow>
        decode (p @ q @ r) = Some x \<longrightarrow>
        (case dec_push dec q d of (r, d') \<Rightarrow> r = Partial \<and> pending d' (p @ q)))"

definition deliver :: "(u8 list \<Rightarrow> u8 list option) \<Rightarrow> u8 list list \<Rightarrow> proxy_out \<Rightarrow> proxy_out" where
  "deliver decode fs w =
     w\<lparr>user_out := user_out w @ concat (map (frame_payload decode User) fs),
       debug_out := debug_out w @ concat (map (frame_payload decode Debug) fs)\<rparr>"

lemma deliver_outs:
  "outs (deliver decode fs w) = deliver decode fs (outs w)"
  "deliver decode fs (w\<lparr>device_out := x\<rparr>) = deliver decode fs w\<lparr>device_out := x\<rparr>"
  "device_out (deliver decode fs w) = device_out w"
  by (simp_all add: deliver_def outs_def)

lemma deliver_simps [simp]: "deliver decode [] w = w"
  "deliver decode (fs @ gs) w = deliver decode gs (deliver decode fs w)"
  by (simp_all add: deliver_def)

definition known :: "(u8 list \<Rightarrow> u8 list option) \<Rightarrow> u8 list \<Rightarrow> bool" where
  "known decode f \<longleftrightarrow> (\<exists>c. good_frame decode c f)"

lemma handle_known:
  assumes "good_frame decode c f"
  obtains x where "decode f = Some x" "handle_packet False x w = (True, deliver decode [f] w)"
proof -
  obtain bs where x: "decode f = Some (channel_byte c # bs)" using assms by (auto simp: good_frame_def)
  have "handle_packet False (channel_byte c # bs) w = (True, deliver decode [f] w)"
    using x by (cases c) (simp_all add: handle_packet_def deliver_def frame_payload_def)
  with x show thesis by (rule that)
qed

lemma zero_split:
  assumes "0 \<notin> set p" and "0 \<notin> set q" and "p @ q @ 0 # c = f @ 0 # s" and "0 \<notin> set f"
  shows "f = p @ q" and "c = (s :: u8 list)"
proof -
  have "takeWhile (\<lambda>b. b \<noteq> 0) (p @ q @ 0 # c) = p @ q" "takeWhile (\<lambda>b. b \<noteq> 0) (f @ 0 # s) = f"
    using assms(1,2,4) by (auto simp: takeWhile_append takeWhile_eq_all_conv [THEN iffD2])
  then show "f = p @ q" using assms(3) by metis
  then show "c = s" using assms(3) by simp
qed

text \<open>One read, wherever it was cut: whole frames are delivered, the rest waits in the decoder.\<close>

lemma decode_incoming_stream:
  assumes dec: "decodes dec decode pending"
  shows "pending d p \<Longrightarrow> 0 \<notin> set p \<Longrightarrow> p @ c @ rest = stream fs \<Longrightarrow> \<forall>f \<in> set fs. known decode f \<Longrightarrow> length c < fuel \<Longrightarrow>
    \<exists>d' p' gs hs. decode_incoming False fuel dec c d w = Some (Inr (d', deliver decode gs w)) \<and> fs = gs @ hs \<and>
      pending d' p' \<and> 0 \<notin> set p' \<and> p' @ rest = stream hs"
proof (induction fuel arbitrary: c d p fs w)
  case (Suc fuel)
  show ?case
  proof (cases "c = []")
    case True
    then show ?thesis using Suc.prems by (intro exI [of _ d] exI [of _ p] exI [of _ "[]"] exI [of _ fs]) simp
  next
    case c: False
    then obtain f fs1 where fs: "fs = f # fs1" using Suc.prems(3) by (cases fs) auto
    obtain ch where g: "good_frame decode ch f" using Suc.prems(4) fs by (auto simp: known_def)
    then have f: "0 \<notin> set f" "length f < OUT_BUF_SIZE" by (simp_all add: good_frame_def)
    obtain x where x: "decode f = Some x" "handle_packet False x w = (True, deliver decode [f] w)" using g by (rule handle_known)
    show ?thesis
    proof (cases "0 \<in> set c")
      case True
      then obtain q c' where q: "c = q @ 0 # c'" "0 \<notin> set q" by (meson split_list_first)
      have s: "f = p @ q" "c' @ rest = stream fs1"
        using zero_split [OF Suc.prems(2) q(2), of "c' @ rest" f "stream fs1"] Suc.prems(3) fs q(1) f(1) by simp_all
      obtain d1 where push: "dec_push dec c d = (Report (length x) (length q + 1), d1)" "length x \<le> length (dec_dest dec d1)"
        "take (length x) (dec_dest dec d1) = x"
        using dec [unfolded decodes_def, THEN conjunct2, THEN conjunct1, rule_format, OF Suc.prems(1) q(2), of x c'] f(2) x(1) s(1) q(1)
        by (auto split: prod.splits)
      have reset: "pending (dec_reset dec d1) []" using dec by (simp add: decodes_def)
      have "length c' < fuel" using Suc.prems(5) q(1) by simp
      then obtain d' p' gs hs where r: "decode_incoming False fuel dec c' (dec_reset dec d1) (deliver decode [f] w) =
          Some (Inr (d', deliver decode gs (deliver decode [f] w)))" "fs1 = gs @ hs" "pending d' p'" "0 \<notin> set p'" "p' @ rest = stream hs"
        using Suc.IH [OF reset, of c' fs1 "deliver decode [f] w"] s(2) Suc.prems(4) fs by auto
      have "decode_incoming False (Suc fuel) dec c d w = decode_incoming False fuel dec c' (dec_reset dec d1) (deliver decode [f] w)"
        using push x(2) q(1) by (simp add: slice_to_def)
      then show ?thesis
        using r fs deliver_simps(2) [of decode "[f]" gs w] by (intro exI [of _ d'] exI [of _ p'] exI [of _ "f # gs"] exI [of _ hs]) simp
    next
      case False
      have pc: "p @ c @ rest = f @ 0 # stream fs1" using Suc.prems(3) fs by simp
      have "\<exists>r. f = p @ c @ r"
        using pc False Suc.prems(2) by (auto simp: append_eq_append_conv2 append_eq_Cons_conv Cons_eq_append_conv)
      then obtain r where r: "f = p @ c @ r" by blast
      obtain d1 where "dec_push dec c d = (Partial, d1)" "pending d1 (p @ c)"
        using dec [unfolded decodes_def, THEN conjunct2, THEN conjunct2, rule_format, OF Suc.prems(1) c, of r x] f x(1) r
        by (auto split: prod.splits)
      then show ?thesis
        using c False Suc.prems(2,3) by (intro exI [of _ d1] exI [of _ "p @ c"] exI [of _ "[]"] exI [of _ fs]) simp
    qed
  qed
qed simp

lemma stream_no_zero: "0 \<notin> set (stream fs) \<Longrightarrow> fs = []"
  by (cases fs) auto

text \<open>
  The loop, with the reads of the device and of the client in any order, as long as the client is there and the
  device takes what it is given.
\<close>

fun device_chunk :: "proxy_event \<Rightarrow> u8 list" where
  "device_chunk (DeviceRead (Some c)) = c"
| "device_chunk _ = []"

fun client_chunk :: "proxy_event \<Rightarrow> u8 list" where
  "client_chunk (ClientRead (Some c) written) = c"
| "client_chunk _ = []"

fun goes_on :: "proxy_event \<Rightarrow> bool" where
  "goes_on (ClientRead (Some c) written) \<longleftrightarrow> c \<noteq> [] \<and> written"
| "goes_on _ \<longleftrightarrow> True"

lemma serve_reads:
  assumes dec: "decodes dec decode pending"
  shows "pending d p \<Longrightarrow> 0 \<notin> set p \<Longrightarrow> p @ concat (map device_chunk events) = stream fs \<Longrightarrow> \<forall>f \<in> set fs. known decode f \<Longrightarrow>
    length (concat (map device_chunk events)) < fuel \<Longrightarrow> \<forall>e \<in> set events. goes_on e \<Longrightarrow>
    \<exists>d'. serve_turns False fuel dec events d w =
      Some (Inr (True, d', deliver decode fs (w\<lparr>device_out := device_out w @ concat (map client_chunk events)\<rparr>)))"
proof (induction events arbitrary: d p fs w)
  case Nil
  then have "fs = []" using stream_no_zero [of fs] by simp
  then show ?case by simp
next
  case (Cons e events)
  let ?c = "device_chunk e" and ?rest = "concat (map device_chunk events)"
  have "\<exists>d' p' gs hs. serve_turn False fuel dec e d w =
      Some (Inr (True, d', deliver decode gs (w\<lparr>device_out := device_out w @ client_chunk e\<rparr>))) \<and>
      fs = gs @ hs \<and> pending d' p' \<and> 0 \<notin> set p' \<and> p' @ ?rest = stream hs"
  proof (cases "\<exists>c. e = DeviceRead (Some c)")
    case True
    then obtain c where e: "e = DeviceRead (Some c)" by blast
    obtain d' p' gs hs where "decode_incoming False fuel dec c d w = Some (Inr (d', deliver decode gs w))" "fs = gs @ hs"
      "pending d' p'" "0 \<notin> set p'" "p' @ ?rest = stream hs"
      using decode_incoming_stream [OF dec Cons.prems(1,2), of c ?rest fs fuel w] Cons.prems(3-5) e by auto
    then show ?thesis
      using e by (intro exI [of _ d'] exI [of _ p'] exI [of _ gs] exI [of _ hs]) (simp add: serve_turn_def)
  next
    case False
    then have "serve_turn False fuel dec e d w = Some (Inr (True, d, w\<lparr>device_out := device_out w @ client_chunk e\<rparr>))" "?c = []"
      using Cons.prems(6) by (cases e rule: goes_on.cases; auto simp: serve_turn_def)+
    then show ?thesis
      using Cons.prems(1-3) by (intro exI [of _ d] exI [of _ p] exI [of _ "[]"] exI [of _ fs]) simp
  qed
  then obtain d' p' gs hs where r: "serve_turn False fuel dec e d w =
      Some (Inr (True, d', deliver decode gs (w\<lparr>device_out := device_out w @ client_chunk e\<rparr>)))" "fs = gs @ hs"
    "pending d' p'" "0 \<notin> set p'" "p' @ ?rest = stream hs" by blast
  obtain d2 where "serve_turns False fuel dec events d' (deliver decode gs (w\<lparr>device_out := device_out w @ client_chunk e\<rparr>)) =
      Some (Inr (True, d2, deliver decode hs (deliver decode gs (w\<lparr>device_out := device_out w @ client_chunk e\<rparr>)
        \<lparr>device_out := device_out (deliver decode gs (w\<lparr>device_out := device_out w @ client_chunk e\<rparr>)) @
          concat (map client_chunk events)\<rparr>)))"
    using Cons.IH [OF r(3-5), of "deliver decode gs (w\<lparr>device_out := device_out w @ client_chunk e\<rparr>)"] Cons.prems(4-6) r(2) by auto
  then show ?case using r(1,2) by (simp add: deliver_outs)
qed

section \<open>A decoder for the witnesses\<close>

definition demo_decoder :: "(u8 list \<times> u8 list) cobs_decoder" where
  "demo_decoder = \<lparr>dec_push = (\<lambda>bs (p, x).
       if 0 \<in> set bs then
         let q = takeWhile (\<lambda>b. b \<noteq> 0) bs in
         case unhalve (p @ q) of Some x \<Rightarrow> (Report (length x) (length q + 1), ([], x)) | None \<Rightarrow> (Bad, ([], []))
       else (Partial, (p @ bs, x))),
     dec_dest = snd, dec_reset = (\<lambda>_. ([], []))\<rparr>"

definition demo_pending :: "u8 list \<times> u8 list \<Rightarrow> u8 list \<Rightarrow> bool" where
  "demo_pending d p \<longleftrightarrow> fst d = p"

lemma demo_decodes: "decodes demo_decoder unhalve demo_pending"
proof -
  have t: "takeWhile (\<lambda>b. b \<noteq> 0) (q @ 0 # rest) = q" if "0 \<notin> set q" for q rest :: "u8 list"
    using that by (auto simp: takeWhile_append takeWhile_eq_all_conv [THEN iffD2])
  show ?thesis
    unfolding decodes_def demo_pending_def by (auto simp: demo_decoder_def t Let_def split: prod.splits)
qed

section \<open>Properties\<close>



text \<open>
  Output that is not framed, such as what a program prints before the debugger starts, is lost when
  it is cut into reads: the bytes of a read that ends inside what looks like a frame are never printed
  if the frame then turns out to be none. Only the first byte of the next read is.
\<close>
lemma split_raw_output_lost:
  assumes "dec_push dec (c # cs) d = (Partial, d1)" and "dec_push dec (b # bs) d1 = (Bad, d2)"
  shows "serve_turns False (Suc fuel) dec [DeviceRead (Some (c # cs)), DeviceRead (Some (b # bs))] d w =
           map_option (\<lambda>r. and_then r (\<lambda>(d, w). ok (True, d, w)))
             (decode_incoming False fuel dec bs (dec_reset dec d2) (w\<lparr>user_out := user_out w @ [b]\<rparr>))"
  using assms by (auto simp: serve_turn_def split: option.splits sum.splits)

lemma split_raw_output_lost_witness:
  "\<exists>d. serve_turns False (Suc (Suc (Suc (Suc 0)))) demo_decoder [DeviceRead (Some [0x68, 0x69, 0x0a]), DeviceRead (Some [0x21, 0x21, 0])] ([], [])
      \<lparr>debug_out = [], user_out = [], device_out = [], printed = []\<rparr> =
    Some (Inr (True, d, \<lparr>debug_out = [], user_out = [0x21, 0x21, 0], device_out = [], printed = []\<rparr>))"
proof -
  have "dec_push demo_decoder [0x68, 0x69, 0x0a] ([], []) = (Partial, ([0x68, 0x69, 0x0a], []))"
    "dec_push demo_decoder [0x21, 0x21, 0] ([0x68, 0x69, 0x0a], []) = (Bad, ([], []))"
    by (simp_all add: demo_decoder_def)
  from split_raw_output_lost [OF this, of "Suc (Suc (Suc 0))" "\<lparr>debug_out = [], user_out = [], device_out = [], printed = []\<rparr>"]
  show ?thesis by (simp add: demo_decoder_def handle_packet_def slice_to_def)
qed

end
