(* ===== verification/Panic_Screen.thy ===== *)
theory Panic_Screen
  imports Prelude
begin

text \<open>
  \<open>src/ffi/src/panic.rs\<close>: the report of a panic on the brain's screen, broken into lines of at most 52
  characters. A character is its code point; the calls that draw are kept as the lines shown, with
  their vertical position. A line is handed to \<open>vexDisplayPrintf\<close> as a C string, which ends at the
  first zero byte.
\<close>

section \<open>The report\<close>

definition LINE_MAX_WIDTH :: nat where "LINE_MAX_WIDTH = 52"
definition LINE_HEIGHT :: int where "LINE_HEIGHT = 20"
definition BOX_MARGIN :: int where "BOX_MARGIN = 16"
definition BOX_PADDING :: int where "BOX_PADDING = 16"

definition LF :: u8 where "LF = 10"
definition SP :: u8 where "SP = 0x20"

record error_report =
  y_offset :: int
  line_buf :: "u8 list"
  line_pos :: nat
  shown :: "(int \<times> u8 list) list"

definition report_begin :: error_report where
  "report_begin = \<lparr>y_offset = BOX_MARGIN + BOX_PADDING, line_buf = replicate (LINE_MAX_WIDTH + 1) 0, line_pos = 0, shown = []\<rparr>"

definition ascii_or_mark :: "nat \<Rightarrow> u8" where
  "ascii_or_mark c = (if c < 128 then of_nat c else 0x3F)"

definition rposition :: "('a \<Rightarrow> bool) \<Rightarrow> 'a list \<Rightarrow> nat option" where
  "rposition P xs = map_option (\<lambda>i. length xs - 1 - i) (find_index P (rev xs))"

text \<open>\<open>copy_within(from.., 0)\<close>\<close>

definition copy_to_front :: "nat \<Rightarrow> 'a list \<Rightarrow> 'a list" where
  "copy_to_front from xs = drop from xs @ drop (length xs - from) xs"

definition c_string :: "u8 list \<Rightarrow> u8 list" where
  "c_string buf = takeWhile (\<lambda>b. b \<noteq> 0) buf"

definition write_char :: "nat \<Rightarrow> error_report \<Rightarrow> error_report outcome" where
  "write_char ch r =
     (let character = ascii_or_mark ch; pos = line_pos r in
      and_then (assert_that (pos < length (line_buf r)) ''write_str: index'') (\<lambda>_.
      let buf = (line_buf r)[pos := character] in
      if character = LF \<or> pos = LINE_MAX_WIDTH - 1 then
        let (wrap_point, buf) =
          (if character = LF then (pos, buf[pos := 0])
           else case rposition (\<lambda>x. x = SP) buf of
               Some space_position \<Rightarrow> (space_position, buf[space_position := 0])
             | None \<Rightarrow> (LINE_MAX_WIDTH - 1, buf)) in
        and_then (assert_that (0 \<in> set buf) ''vexDisplayPrintf: unterminated'') (\<lambda>_.
        and_then (assert_that (y_offset r + LINE_HEIGHT < 2 ^ 31) ''write_str: overflow'') (\<lambda>_.
        let r = r\<lparr>shown := shown r @ [(y_offset r, c_string buf)], y_offset := y_offset r + LINE_HEIGHT\<rparr> in
        if pos = LINE_MAX_WIDTH - 1 then
          and_then (assert_that (wrap_point + 1 \<le> length buf \<and> wrap_point \<le> pos) ''write_str: copy_within'') (\<lambda>_.
            ok (r\<lparr>line_buf := copy_to_front (wrap_point + 1) buf, line_pos := pos - wrap_point\<rparr>))
        else ok (r\<lparr>line_buf := buf, line_pos := 0\<rparr>)))
      else ok (r\<lparr>line_buf := buf, line_pos := pos + 1\<rparr>)))"

definition write_str :: "nat list \<Rightarrow> error_report \<Rightarrow> error_report outcome" where
  "write_str s r = for_each write_char s r"

text \<open>\<open>writeln!(report, "v5gdb {panic}")\<close>, which writes the text of the panic in pieces.\<close>

definition panic_handler :: "nat list list \<Rightarrow> error_report outcome" where
  "panic_handler pieces = for_each write_str ([map of_char ''v5gdb ''] @ pieces @ [[10]]) report_begin"

text \<open>What \<open>begin\<close> draws first: coordinates are left, top, right and bottom.\<close>

datatype display_call =
  DoubleBufferDisable
| ForegroundColor u32
| RectFill int int int int
| RectDraw int int int int
| FontNamedSet string

definition DISPLAY_WIDTH :: int where "DISPLAY_WIDTH = 480"
definition DISPLAY_HEIGHT :: int where "DISPLAY_HEIGHT = 240"
definition COLOR_RED :: u32 where "COLOR_RED = 0x8b0000"
definition COLOR_WHITE :: u32 where "COLOR_WHITE = 0xFFFFFF"

definition begin_calls :: "display_call list" where
  "begin_calls =
     [DoubleBufferDisable, ForegroundColor COLOR_RED,
      RectFill BOX_MARGIN BOX_MARGIN (DISPLAY_WIDTH - BOX_MARGIN) (DISPLAY_HEIGHT - BOX_MARGIN),
      ForegroundColor COLOR_WHITE,
      RectDraw BOX_MARGIN BOX_MARGIN (DISPLAY_WIDTH - BOX_MARGIN) (DISPLAY_HEIGHT - BOX_MARGIN),
      FontNamedSet ''monospace'']"

section \<open>The specification\<close>

text \<open>The lines that are done and the one that is being filled.\<close>

definition break_line :: "u8 list \<Rightarrow> u8 list \<times> u8 list" where
  "break_line cur =
     (if SP \<in> set cur then
        (rev (tl (dropWhile (\<lambda>b. b \<noteq> SP) (rev cur))), rev (takeWhile (\<lambda>b. b \<noteq> SP) (rev cur)))
      else (cur, []))"

fun wrap :: "u8 list \<Rightarrow> u8 list list \<times> u8 list \<Rightarrow> u8 list list \<times> u8 list" where
  "wrap [] (done, cur) = (done, cur)"
| "wrap (b # bs) (done, cur) =
     (if b = LF then wrap bs (done @ [cur], [])
      else if length cur = LINE_MAX_WIDTH - 1 then
        (let (line, rest) = break_line (cur @ [b]) in wrap bs (done @ [line], rest))
      else wrap bs (done, cur @ [b]))"

text \<open>A line and what stands between it and the next: a newline, a space, or nothing in a long word.\<close>

definition line_ok :: "u8 list \<times> u8 list \<Rightarrow> bool" where
  "line_ok ls \<longleftrightarrow>
     (case ls of (l, sep) \<Rightarrow> LF \<notin> set l \<and>
        (sep \<in> {[LF], [SP]} \<and> length l < LINE_MAX_WIDTH \<or> sep = [] \<and> length l = LINE_MAX_WIDTH \<and> SP \<notin> set l))"

definition broken :: "u8 list \<Rightarrow> u8 list list \<times> u8 list \<Rightarrow> bool" where
  "broken text st \<longleftrightarrow>
     (case st of (done, cur) \<Rightarrow> length cur < LINE_MAX_WIDTH \<and> LF \<notin> set cur \<and>
        (\<exists>ps. done = map fst ps \<and> text = concat (map (\<lambda>(l, sep). l @ sep) ps) @ cur \<and> (\<forall>p \<in> set ps. line_ok p)))"

lemma brokenE:
  assumes "broken text (done, cur)"
  obtains ps where "done = map fst ps" "text = concat (map (\<lambda>(l, sep). l @ sep) ps) @ cur" "\<forall>p \<in> set ps. line_ok p"
    "length cur < LINE_MAX_WIDTH" "LF \<notin> set cur"
  using assms by (auto simp: broken_def)

lemma broken_line:
  assumes "broken text (done, cur)" and "line_ok (l, sep)" and "cur @ [b] = l @ sep @ rest"
    and "length rest < LINE_MAX_WIDTH" and "LF \<notin> set rest"
  shows "broken (text @ [b]) (done @ [l], rest)"
proof (rule brokenE [OF assms(1)])
  fix ps
  assume "done = map fst ps" "text = concat (map (\<lambda>(l, sep). l @ sep) ps) @ cur" "\<forall>p \<in> set ps. line_ok p"
  then show ?thesis
    using assms(2-5) unfolding broken_def by (intro case_prodI conjI exI [of _ "ps @ [(l, sep)]"]) simp_all
qed

lemma last_space:
  assumes "SP \<in> set xs"
  obtains l rest where "xs = l @ SP # rest" "SP \<notin> set rest" "break_line xs = (l, rest)"
proof -
  obtain l rest where s: "xs = l @ SP # rest" "SP \<notin> set rest" using assms by (meson split_list_last)
  have "rev xs = rev rest @ SP # rev l" using s(1) by simp
  then have "takeWhile (\<lambda>b. b \<noteq> SP) (rev xs) = rev rest" "dropWhile (\<lambda>b. b \<noteq> SP) (rev xs) = SP # rev l"
    using s(2) by (auto simp: takeWhile_append dropWhile_append takeWhile_eq_all_conv [THEN iffD2] dropWhile_eq_Nil_conv [THEN iffD2])
  then have "break_line xs = (l, rest)" using assms by (simp add: break_line_def)
  then show thesis using that s by blast
qed

lemma wrap_step:
  assumes "broken text (done, cur)"
  shows "broken (text @ [b]) (wrap [b] (done, cur))"
proof (rule brokenE [OF assms])
  fix ps
  assume ps: "done = map fst ps" "text = concat (map (\<lambda>(l, sep). l @ sep) ps) @ cur" "\<forall>p \<in> set ps. line_ok p"
    "length cur < LINE_MAX_WIDTH" "LF \<notin> set cur"
  consider (newline) "b = LF" | (full) "b \<noteq> LF" "length cur = LINE_MAX_WIDTH - 1"
    | (more) "b \<noteq> LF" "length cur \<noteq> LINE_MAX_WIDTH - 1" by blast
  then show ?thesis
  proof cases
    case newline
    have "broken (text @ [b]) (done @ [cur], [])"
      by (rule broken_line [OF assms, of cur "[LF]"]) (use newline ps(4,5) in \<open>simp_all add: line_ok_def\<close>)
    then show ?thesis using newline by simp
  next
    case full
    have len: "length (cur @ [b]) = LINE_MAX_WIDTH" using full(2) by (simp add: LINE_MAX_WIDTH_def)
    show ?thesis
    proof (cases "SP \<in> set (cur @ [b])")
      case True
      then obtain l rest where s: "cur @ [b] = l @ SP # rest" "SP \<notin> set rest" "break_line (cur @ [b]) = (l, rest)"
        by (rule last_space)
      have "length l < LINE_MAX_WIDTH" "length rest < LINE_MAX_WIDTH" using len unfolding s(1) by simp_all
      moreover have "LF \<notin> set (cur @ [b])" using full(1) ps(5) by simp
      then have "LF \<notin> set l" "LF \<notin> set rest" unfolding s(1) by simp_all
      ultimately have "broken (text @ [b]) (done @ [l], rest)"
        by (intro broken_line [OF assms, of l "[SP]"]) (simp_all add: line_ok_def s(1))
      then show ?thesis using full s(3) by simp
    next
      case False
      then have "break_line (cur @ [b]) = (cur @ [b], [])" by (simp add: break_line_def)
      moreover have "broken (text @ [b]) (done @ [cur @ [b]], [])"
        by (rule broken_line [OF assms, of "cur @ [b]" "[]"])
          (use full(1) ps(5) len False in \<open>auto simp: line_ok_def LINE_MAX_WIDTH_def\<close>)
      ultimately show ?thesis using full by simp
    qed
  next
    case more
    then have "wrap [b] (done, cur) = (done, cur @ [b])" by simp
    moreover have "broken (text @ [b]) (done, cur @ [b])"
      using ps more unfolding broken_def by (intro case_prodI conjI exI [of _ ps]) (auto simp: LINE_MAX_WIDTH_def)
    ultimately show ?thesis by simp
  qed
qed

section \<open>The code does what is specified\<close>

definition shows_lines :: "error_report \<Rightarrow> u8 list list \<times> u8 list \<Rightarrow> bool" where
  "shows_lines r st \<longleftrightarrow>
     (case st of (done, cur) \<Rightarrow> length (line_buf r) = LINE_MAX_WIDTH + 1 \<and> last (line_buf r) = 0 \<and>
        take (line_pos r) (line_buf r) = cur \<and> line_pos r < LINE_MAX_WIDTH \<and> 0 \<notin> set cur \<and>
        shown r = zip (map (\<lambda>i. 32 + 20 * int i) [0..<length done]) done \<and> y_offset r = 32 + 20 * int (length done))"

lemma rposition_last: "\<not> P b \<Longrightarrow> rposition P (xs @ [b]) = rposition P xs"
  by (cases "find_index P (rev xs)") (auto simp: rposition_def)

lemma rposition_split:
  "P x \<Longrightarrow> \<forall>y \<in> set ys. \<not> P y \<Longrightarrow> rposition P (xs @ x # ys) = Some (length xs)"
proof (induction ys rule: rev_induct)
  case Nil
  then show ?case by (simp add: rposition_def)
next
  case (snoc y ys)
  then show ?case using rposition_last [of P y "xs @ x # ys"] by simp
qed

lemma rposition_none: "\<forall>y \<in> set xs. \<not> P y \<Longrightarrow> rposition P xs = None"
  by (simp add: rposition_def find_index_None_iff)

lemma c_string_split: "0 \<notin> set l \<Longrightarrow> c_string (l @ 0 # rest) = l"
  by (auto simp: c_string_def takeWhile_append takeWhile_eq_all_conv [THEN iffD2])

text \<open>The buffer: what is filled, the place of the next character, and what is behind it.\<close>

lemma shows_linesE:
  assumes "shows_lines r (done, cur)"
  obtains x tail where "line_buf r = cur @ x # tail" "line_pos r = length cur" "length cur < LINE_MAX_WIDTH"
    "length cur + length tail = LINE_MAX_WIDTH" "last (x # tail) = 0" "tail \<noteq> []" "0 \<notin> set cur"
proof -
  let ?b = "line_buf r" and ?p = "line_pos r"
  have a: "length ?b = LINE_MAX_WIDTH + 1" "last ?b = 0" "take ?p ?b = cur" "?p < LINE_MAX_WIDTH" "0 \<notin> set cur"
    using assms by (simp_all add: shows_lines_def)
  have p: "?p = length cur" using a(1,3,4) by auto
  have s: "?b = cur @ ?b ! ?p # drop (Suc ?p) ?b"
    using a(1,3,4) id_take_nth_drop [of ?p ?b] by simp
  have "last (?b ! ?p # drop (Suc ?p) ?b) = 0" using a(2) s by (metis last_appendR list.distinct(1))
  then show thesis
    using that [OF s p] a(1,4,5) p by simp
qed

lemma shows_linesI:
  assumes "shows_lines r (done, cur)" and "length buf = LINE_MAX_WIDTH + 1" and "last buf = 0"
    and "take (length cur') buf = cur'" and "length cur' < LINE_MAX_WIDTH" and "0 \<notin> set cur'"
  shows "shows_lines (r\<lparr>shown := shown r @ [(y_offset r, l)], y_offset := y_offset r + 20,
           line_buf := buf, line_pos := length cur'\<rparr>) (done @ [l], cur')"
  using assms by (simp add: shows_lines_def zip_append)

lemma copy_to_front_ok:
  assumes "xs \<noteq> []" and "0 < from" and "from \<le> length xs"
  shows "length (copy_to_front from xs) = length xs" and "last (copy_to_front from xs) = last xs"
  using assms by (auto simp: copy_to_front_def last_append)

text \<open>The last column: a space before it, or a word that fills the line.\<close>

lemma wrap_point_split:
  assumes "0 \<notin> set xs" and "length xs = LINE_MAX_WIDTH"
  obtains (space) l rest where "xs = l @ SP # rest" "break_line xs = (l, rest)"
      "rposition (\<lambda>x. x = SP) (xs @ [0]) = Some (length l)"
  | (word) "break_line xs = (xs, [])" "rposition (\<lambda>x. x = SP) (xs @ [0]) = None"
proof (cases "SP \<in> set xs")
  case True
  then obtain l rest where s: "xs = l @ SP # rest" "SP \<notin> set rest" "break_line xs = (l, rest)" by (rule last_space)
  then have "rposition (\<lambda>x. x = SP) (xs @ [0]) = Some (length l)"
    using rposition_split [of "\<lambda>x. x = SP" SP rest l] rposition_last [of "\<lambda>x. x = SP" 0 xs] by (auto simp: SP_def)
  then show thesis using space s by blast
next
  case False
  have "rposition (\<lambda>x. x = SP) (xs @ [0]) = None" by (rule rposition_none) (use False in \<open>auto simp: SP_def\<close>)
  then show thesis using word False by (simp add: break_line_def)
qed

lemma write_char_wrap:
  assumes "shows_lines r (done, cur)" and "ascii_or_mark ch \<noteq> 0" and "y_offset r + LINE_HEIGHT < 2 ^ 31"
  shows "\<exists>r'. write_char ch r = Inr r' \<and> shows_lines r' (wrap [ascii_or_mark ch] (done, cur))"
proof (rule shows_linesE [OF assms(1)])
  fix x tail
  assume b: "line_buf r = cur @ x # tail" "line_pos r = length cur" "length cur < LINE_MAX_WIDTH"
    "length cur + length tail = LINE_MAX_WIDTH" "last (x # tail) = 0" "tail \<noteq> []" "0 \<notin> set cur"
  let ?c = "ascii_or_mark ch"
  have y: "y_offset r + 20 < 2 ^ 31" using assms(3) by (simp add: LINE_HEIGHT_def)
  have upd: "(cur @ x # tail)[length cur := v] = cur @ v # tail" for v by simp
  consider (newline) "?c = LF" | (full) "?c \<noteq> LF" "length cur = LINE_MAX_WIDTH - 1" | (more) "?c \<noteq> LF" "length cur \<noteq> LINE_MAX_WIDTH - 1"
    by blast
  then show ?thesis
  proof cases
    case newline
    let ?buf = "cur @ 0 # tail"
    define buf where "buf = (if length cur = LINE_MAX_WIDTH - 1 then copy_to_front (length cur + 1) ?buf else ?buf)"
    have "write_char ch r = Inr (r\<lparr>shown := shown r @ [(y_offset r, cur)], y_offset := y_offset r + 20, line_buf := buf, line_pos := 0\<rparr>)"
      using newline b(1,2) b(7) y by (simp add: write_char_def Let_def upd c_string_split LINE_HEIGHT_def buf_def)
    moreover have "shows_lines (r\<lparr>shown := shown r @ [(y_offset r, cur)], y_offset := y_offset r + 20, line_buf := buf,
        line_pos := length ([] :: u8 list)\<rparr>) (done @ [cur], [])"
      by (rule shows_linesI [OF assms(1)]) (use b(4-6) in \<open>simp_all add: buf_def copy_to_front_ok LINE_MAX_WIDTH_def\<close>)
    ultimately show ?thesis using newline by simp
  next
    case full
    have tail: "tail = [0]" using full(2) b(4-6) by (cases tail) (auto simp: LINE_MAX_WIDTH_def)
    have xs: "0 \<notin> set (cur @ [?c])" "length (cur @ [?c]) = LINE_MAX_WIDTH"
      using full(2) assms(2) b(7) by (auto simp: LINE_MAX_WIDTH_def)
    have pos: "line_pos r = LINE_MAX_WIDTH - 1" "length (line_buf r) = LINE_MAX_WIDTH + 1"
      using full(2) b(1,2) tail by (simp_all add: LINE_MAX_WIDTH_def)
    have buf: "(line_buf r)[LINE_MAX_WIDTH - 1 := ?c] = (cur @ [?c]) @ [0]" using upd [of ?c] full(2) b(1) tail by simp
    have less: "LINE_MAX_WIDTH - Suc 0 < Suc LINE_MAX_WIDTH" by simp
    from xs show ?thesis
    proof (cases rule: wrap_point_split)
      case (space l rest)
      have n: "length l + length rest = LINE_MAX_WIDTH - 1" using xs(2) unfolding space(1) by simp
      have rest: "LINE_MAX_WIDTH - Suc (length l) = length rest" using n by simp
      have nz: "0 \<notin> set l" "0 \<notin> set rest" using xs(1) unfolding space(1) by simp_all
      let ?buf = "l @ 0 # rest @ [0]"
      have u: "((cur @ [?c]) @ [0])[length l := 0] = ?buf" unfolding space(1) by simp
      have "write_char ch r = Inr (r\<lparr>shown := shown r @ [(y_offset r, l)], y_offset := y_offset r + 20,
          line_buf := copy_to_front (length l + 1) ?buf, line_pos := length rest\<rparr>)"
        using full(1) y nz(1) n less rest
        by (simp add: write_char_def Let_def pos buf [simplified] space(3) [simplified] u [simplified] c_string_split LINE_HEIGHT_def)
      moreover have "shows_lines (r\<lparr>shown := shown r @ [(y_offset r, l)], y_offset := y_offset r + 20,
          line_buf := copy_to_front (length l + 1) ?buf, line_pos := length rest\<rparr>) (done @ [l], rest)"
        by (rule shows_linesI [OF assms(1)])
          (use n nz in \<open>simp_all add: copy_to_front_ok LINE_MAX_WIDTH_def\<close>, simp add: copy_to_front_def)
      ultimately show ?thesis using full space(2) by simp
    next
      case word
      let ?buf = "cur @ [?c] @ [0]"
      have "0 \<in> set ?buf" "c_string ?buf = cur @ [?c]" using c_string_split [OF xs(1), of "[]"] by simp_all
      then have "write_char ch r = Inr (r\<lparr>shown := shown r @ [(y_offset r, cur @ [?c])], y_offset := y_offset r + 20,
          line_buf := copy_to_front LINE_MAX_WIDTH ?buf, line_pos := 0\<rparr>)"
        using full y less
        by (simp add: write_char_def Let_def pos buf [simplified] word(2) [simplified] LINE_HEIGHT_def)
          (simp add: LINE_MAX_WIDTH_def)
      moreover have "shows_lines (r\<lparr>shown := shown r @ [(y_offset r, cur @ [?c])], y_offset := y_offset r + 20,
          line_buf := copy_to_front LINE_MAX_WIDTH ?buf, line_pos := length ([] :: u8 list)\<rparr>) (done @ [cur @ [?c]], [])"
        by (rule shows_linesI [OF assms(1)]) (use full(2) in \<open>simp_all add: copy_to_front_ok LINE_MAX_WIDTH_def\<close>)
      ultimately show ?thesis using full word(1) by simp
    qed
  next
    case more
    have "write_char ch r = Inr (r\<lparr>line_buf := cur @ ?c # tail, line_pos := length cur + 1\<rparr>)"
      using more b(1,2) upd by (simp add: write_char_def Let_def)
    moreover have "shows_lines (r\<lparr>line_buf := cur @ ?c # tail, line_pos := length cur + 1\<rparr>) (done, cur @ [?c])"
      using assms(1,2) b(3-7) more(2) by (simp add: shows_lines_def)
    ultimately show ?thesis using more by simp
  qed
qed

lemma wrap_append: "wrap (xs @ ys) st = wrap ys (wrap xs st)"
proof (induction xs st rule: wrap.induct)
  case (2 b bs fin cur)
  then show ?case by (cases "break_line (cur @ [b])") simp_all
qed simp

lemma wrap_lines: "length (fst (wrap [b] (done, cur))) \<le> Suc (length done)"
  by (simp add: split_beta Let_def)

lemma write_str_wrap:
  "shows_lines r st \<Longrightarrow> broken msg st \<Longrightarrow> \<forall>ch \<in> set s. ascii_or_mark ch \<noteq> 0 \<Longrightarrow>
   y_offset r + 20 * int (length s) < 2 ^ 31 \<Longrightarrow>
   \<exists>r'. write_str s r = Inr r' \<and> shows_lines r' (wrap (map ascii_or_mark s) st) \<and>
     broken (msg @ map ascii_or_mark s) (wrap (map ascii_or_mark s) st)"
proof (induction s arbitrary: r st msg)
  case Nil
  obtain fin cur where "st = (fin, cur)" by fastforce
  with Nil show ?case by (simp add: write_str_def)
next
  case (Cons ch s)
  obtain fin cur where st: "st = (fin, cur)" by fastforce
  let ?c = "ascii_or_mark ch"
  have y: "y_offset r + LINE_HEIGHT < 2 ^ 31" using Cons.prems(4) by (simp add: LINE_HEIGHT_def)
  obtain r1 where r1: "write_char ch r = Inr r1" "shows_lines r1 (wrap [?c] st)"
    using write_char_wrap [OF Cons.prems(1) [unfolded st] _ y] Cons.prems(3) st by auto
  have b1: "broken (msg @ [?c]) (wrap [?c] st)" unfolding st by (rule wrap_step) (use Cons.prems(2) st in simp)
  have "y_offset r1 \<le> y_offset r + 20"
    using r1(2) Cons.prems(1) wrap_lines [of ?c fin cur] unfolding st
    by (cases "wrap [?c] (fin, cur)") (simp add: shows_lines_def del: wrap.simps)
  then have "y_offset r1 + 20 * int (length s) < 2 ^ 31" using Cons.prems(4) by simp
  then obtain r' where "write_str s r1 = Inr r'" "shows_lines r' (wrap (map ascii_or_mark s) (wrap [?c] st))"
    "broken ((msg @ [?c]) @ map ascii_or_mark s) (wrap (map ascii_or_mark s) (wrap [?c] st))"
    using Cons.IH [OF r1(2) b1] Cons.prems(3) by auto
  then show ?case
    using r1(1) wrap_append [of "[?c]" "map ascii_or_mark s" st] by (simp add: write_str_def)
qed

section \<open>The whole report\<close>

text \<open>Text written to a fresh report: what follows its last newline is not shown.\<close>

lemma report_wraps:
  assumes "\<forall>ch \<in> set s. ch \<noteq> 0" and "32 + 20 * int (length s) < 2 ^ 31"
  shows "\<exists>r ps rest. write_str s report_begin = Inr r \<and> map snd (shown r) = map fst ps \<and>
           map fst (shown r) = map (\<lambda>i. 32 + 20 * int i) [0..<length ps] \<and>
           map ascii_or_mark s = concat (map (\<lambda>(l, sep). l @ sep) ps) @ rest \<and> LF \<notin> set rest \<and>
           (\<forall>(l, sep) \<in> set ps. LF \<notin> set l \<and>
              (sep \<in> {[LF], [SP]} \<and> length l < 52 \<or> sep = [] \<and> length l = 52 \<and> SP \<notin> set l))"
proof -
  have mark: "\<forall>ch \<in> set s. ascii_or_mark ch \<noteq> 0"
  proof
    fix ch assume "ch \<in> set s"
    then have "ch \<noteq> 0" using assms(1) by blast
    moreover have "ch < 128 \<Longrightarrow> unat (of_nat ch :: u8) = ch" by (simp add: unat_of_nat)
    ultimately show "ascii_or_mark ch \<noteq> 0" by (auto simp: ascii_or_mark_def)
  qed
  have "shows_lines report_begin ([], [])"
    by (simp add: shows_lines_def report_begin_def BOX_MARGIN_def BOX_PADDING_def LINE_MAX_WIDTH_def)
  moreover have "broken [] ([], [])" by (simp add: broken_def LINE_MAX_WIDTH_def)
  moreover have "y_offset report_begin + 20 * int (length s) < 2 ^ 31"
    using assms(2) by (simp add: report_begin_def BOX_MARGIN_def BOX_PADDING_def)
  ultimately obtain r where r: "write_str s report_begin = Inr r" "shows_lines r (wrap (map ascii_or_mark s) ([], []))"
    "broken (map ascii_or_mark s) (wrap (map ascii_or_mark s) ([], []))"
    using write_str_wrap [OF _ _ mark, of report_begin "([], [])" "[]"] by auto
  obtain lines rest where w: "wrap (map ascii_or_mark s) ([], []) = (lines, rest)" by fastforce
  show ?thesis
  proof (rule brokenE [OF r(3) [unfolded w]])
    fix ps
    assume ps: "lines = map fst ps" "map ascii_or_mark s = concat (map (\<lambda>(l, sep). l @ sep) ps) @ rest" "\<forall>p \<in> set ps. line_ok p"
      "LF \<notin> set rest"
    have sh: "shown r = zip (map (\<lambda>i. 32 + 20 * int i) [0..<length lines]) lines" using r(2) w by (simp add: shows_lines_def)
    have "map snd (shown r) = map fst ps" "map fst (shown r) = map (\<lambda>i. 32 + 20 * int i) [0..<length ps]"
      unfolding sh ps(1) by simp_all
    moreover have "\<forall>(l, sep) \<in> set ps. LF \<notin> set l \<and>
        (sep \<in> {[LF], [SP]} \<and> length l < 52 \<or> sep = [] \<and> length l = 52 \<and> SP \<notin> set l)"
      using ps(3) by (simp add: line_ok_def LINE_MAX_WIDTH_def split_beta)
    ultimately show ?thesis using r(1) ps(2,4) by blast
  qed
qed

lemma write_pieces: "for_each write_str pieces = write_str (concat pieces)"
proof (induction pieces)
  case Nil
  show ?case by (simp add: fun_eq_iff write_str_def)
next
  case (Cons s pieces)
  show ?case by (rule ext) (simp add: Cons.IH, simp add: write_str_def [abs_def] for_each_append)
qed

text \<open>The first nine lines are inside the box that is drawn.\<close>

lemma lines_inside_box: "i < 9 \<Longrightarrow> RectDraw l t r b \<in> set begin_calls \<Longrightarrow> t \<le> 32 + 20 * int i \<and> 32 + 20 * int i + LINE_HEIGHT \<le> b"
  by (auto simp: begin_calls_def BOX_MARGIN_def DISPLAY_HEIGHT_def LINE_HEIGHT_def)

section \<open>Property\<close>



end
