(* ===== verification/C_Interface.thy ===== *)
theory C_Interface
  imports Debug_Session Transport_Mux
begin

text \<open>
  \<open>src/ffi/src/lib.rs\<close>, the interface for C programs: a transport made of C callbacks, which are
  parameters, and the two installers. Also the start of a session on the serial transport
  (\<open>src/src/transport\<close>), which redirects the program's serial functions.
\<close>

section \<open>A transport of callbacks\<close>

datatype read_result = ReadOk u8 | ReadErr u32

datatype peek_result = PeekOk u8 | PeekEmpty | PeekErr u32

text \<open>\<open>data\<close> is what the callbacks share, here the state they run on.\<close>

record 'c transport_impl =
  cb_initialize :: "'c \<Rightarrow> 'c"
  cb_write_buf :: "u8 list \<Rightarrow> 'c \<Rightarrow> u32 \<times> 'c"
  cb_flush :: "'c \<Rightarrow> u32 \<times> 'c"
  cb_peek_byte :: "'c \<Rightarrow> peek_result \<times> 'c"
  cb_read_byte :: "'c \<Rightarrow> read_result \<times> 'c"

text \<open>An error string, with fuel for its length.\<close>

definition wrap_err :: "nat \<Rightarrow> memory \<Rightarrow> u32 \<Rightarrow> str option" where
  "wrap_err fuel mem maybe_error =
     map_option (\<lambda>bytes. case from_utf8 bytes of Some s \<Rightarrow> s | None \<Rightarrow> lit ''<error with invalid utf8>'') (c_str fuel mem maybe_error)"

definition null_is_ok :: "nat \<Rightarrow> memory \<Rightarrow> u32 \<times> 'c \<Rightarrow> ((str + unit) \<times> 'c) option" where
  "null_is_ok fuel mem r =
     (case r of (error, c) \<Rightarrow>
        if error = 0 then Some (Inr (), c) else map_option (\<lambda>e. (Inl e, c)) (wrap_err fuel mem error))"

definition impl_write_all :: "nat \<Rightarrow> memory \<Rightarrow> 'c transport_impl \<Rightarrow> u8 list \<Rightarrow> 'c \<Rightarrow> ((str + unit) \<times> 'c) option" where
  "impl_write_all fuel mem api buf c = null_is_ok fuel mem (cb_write_buf api buf c)"

definition impl_write :: "nat \<Rightarrow> memory \<Rightarrow> 'c transport_impl \<Rightarrow> u8 \<Rightarrow> 'c \<Rightarrow> ((str + unit) \<times> 'c) option" where
  "impl_write fuel mem api byte c = impl_write_all fuel mem api [byte] c"

definition impl_flush :: "nat \<Rightarrow> memory \<Rightarrow> 'c transport_impl \<Rightarrow> 'c \<Rightarrow> ((str + unit) \<times> 'c) option" where
  "impl_flush fuel mem api c = null_is_ok fuel mem (cb_flush api c)"

definition impl_on_session_start :: "'c transport_impl \<Rightarrow> 'c \<Rightarrow> 'c" where
  "impl_on_session_start api c = cb_initialize api c"

definition impl_peek :: "nat \<Rightarrow> memory \<Rightarrow> 'c transport_impl \<Rightarrow> 'c \<Rightarrow> ((str + u8 option) \<times> 'c) option" where
  "impl_peek fuel mem api c =
     (case cb_peek_byte api c of
        (PeekOk byte, c) \<Rightarrow> Some (Inr (Some byte), c)
      | (PeekEmpty, c) \<Rightarrow> Some (Inr None, c)
      | (PeekErr error, c) \<Rightarrow> map_option (\<lambda>e. (Inl e, c)) (wrap_err fuel mem error))"

definition impl_read :: "nat \<Rightarrow> memory \<Rightarrow> 'c transport_impl \<Rightarrow> 'c \<Rightarrow> ((str + u8) \<times> 'c) option" where
  "impl_read fuel mem api c =
     (case cb_read_byte api c of
        (ReadOk byte, c) \<Rightarrow> Some (Inr byte, c)
      | (ReadErr error, c) \<Rightarrow> map_option (\<lambda>e. (Inl e, c)) (wrap_err fuel mem error))"

text \<open>The default of \<open>Transport::try_read\<close>, which this transport keeps.\<close>

definition default_try_read ::
  "('t \<Rightarrow> (('e + u8 option) \<times> 't) option) \<Rightarrow> ('t \<Rightarrow> (('e + u8) \<times> 't) option) \<Rightarrow> 't \<Rightarrow> (('e + u8 option) \<times> 't) option" where
  "default_try_read peek read t =
     (case peek t of
        None \<Rightarrow> None
      | Some (Inl e, t) \<Rightarrow> Some (Inl e, t)
      | Some (Inr None, t) \<Rightarrow> Some (Inr None, t)
      | Some (Inr (Some _), t) \<Rightarrow> map_option (\<lambda>(r, t). (map_sum id Some r, t)) (read t))"

definition transport_try_read :: "nat \<Rightarrow> memory \<Rightarrow> 'c transport_impl \<Rightarrow> 'c \<Rightarrow> ((str + u8 option) \<times> 'c) option" where
  "transport_try_read fuel mem api = default_try_read (impl_peek fuel mem api) (impl_read fuel mem api)"

section \<open>Installing\<close>

text \<open>\<open>log::set_logger\<close> may succeed once; the static debugger of each installer is made once.\<close>

record 'g c_statics =
  logger_set :: bool
  the_installation :: "'g installation"
  static_debugger :: "'g v5_debugger option"

definition log_init :: "'g c_statics \<Rightarrow> 'g c_statics outcome" where
  "log_init s = and_then (assert_that (\<not> logger_set s) ''init: set_logger'') (\<lambda>_. ok (s\<lparr>logger_set := True\<rparr>))"

text \<open>Both installers, which differ in the connection inside \<open>gdb\<close>.\<close>

definition install_c ::
  "sdk_symbols \<Rightarrow> u32 \<Rightarrow> 'g \<Rightarrow> (u32 \<Rightarrow> debug_logic) \<Rightarrow> devcfg \<Rightarrow> debug_sysregs \<Rightarrow> 'g c_statics \<Rightarrow> brain \<Rightarrow>
   ('g c_statics \<times> devcfg \<times> debug_sysregs \<times> brain) outcome" where
  "install_c syms overlay_table gdb logic_at dc regs s b =
     and_then (log_init s) (\<lambda>s.
     and_then (case static_debugger s of
         Some d \<Rightarrow> ok (d, dc, regs, b)
       | None \<Rightarrow> v5_debugger_new gdb logic_at dc regs b) (\<lambda>(d, dc, regs, b).
     let s = s\<lparr>static_debugger := Some d\<rparr> in
     and_then (install_by_ref syms overlay_table d (the_installation s) b) (\<lambda>(i, b).
       ok (s\<lparr>the_installation := i\<rparr>, dc, regs, b))))"

lemma install_c_once:
  assumes "install_c syms table gdb logic_at dc regs s b = Inr (s', dc', regs', b')"
  shows "install_c syms table gdb' logic_at dc' regs' s' b' = panic ''init: set_logger''"
    and "installed (the_installation s') \<noteq> None"
  using assms
  by (auto simp: install_c_def log_init_def install_by_ref_def and_then_Inr_iff Let_def vectors.defs split: option.splits)

section \<open>The logger\<close>

datatype log_level = LevelError | LevelWarn | LevelInfo | LevelDebug | LevelTrace

fun level_color :: "log_level \<Rightarrow> string" where
  "level_color LevelError = ''red''"
| "level_color LevelWarn = ''yellow''"
| "level_color LevelInfo = ''blue''"
| "level_color LevelDebug = ''magenta''"
| "level_color LevelTrace = ''bright black''"

text \<open>
  A record is written in pieces, each handed once to \<open>vexSerialWriteBuffer\<close>, whatever it takes of it. That function is
  a parameter: it is redirected when a session starts. \<open>bold\<close> is the coloured name of the level.
\<close>

definition log_write_str :: "(u32 \<Rightarrow> u8 list \<Rightarrow> 'p \<Rightarrow> int \<times> 'p) \<Rightarrow> u8 list \<Rightarrow> 'p \<Rightarrow> 'p" where
  "log_write_str write_buffer s p = snd (write_buffer CH_USER s p)"

definition log_record :: "(u32 \<Rightarrow> u8 list \<Rightarrow> 'p \<Rightarrow> int \<times> 'p) \<Rightarrow> (string \<Rightarrow> log_level \<Rightarrow> u8 list) \<Rightarrow> log_level \<Rightarrow> u8 list \<Rightarrow> 'p \<Rightarrow> 'p" where
  "log_record write_buffer bold level msg p =
     foldl (\<lambda>p s. log_write_str write_buffer s p) p
       [map of_char ''v5gdb: '', bold (level_color level) level, map of_char '': '', msg, [10]]"

fun log_flush :: "nat \<Rightarrow> 'p sdk_serial \<Rightarrow> 'p \<Rightarrow> 'p option" where
  "log_flush 0 sdk p = None"
| "log_flush (Suc fuel) sdk p =
     (if sys_write_free sdk CH_USER p < int OUT_BUF_SIZE then log_flush fuel sdk (vex_tasks_run sdk p) else Some p)"

text \<open>
  Before the redirection what reaches the line of a piece is a prefix of it: a record is cut when the buffer is full.
\<close>

lemma log_write_prefix:
  assumes "drains sdk sent stalls CH_USER"
  shows "\<exists>n \<le> length s. sent CH_USER (log_write_str (sys_write_buf sdk) s p) = sent CH_USER p @ take n s"
  using assms [unfolded drains_def, THEN conjunct1, THEN spec [of _ s], THEN spec [of _ p]]
  by (auto simp: log_write_str_def)

section \<open>Redirecting the program's serial functions\<close>

record serial_symbols = linker_symbols +
  serial_write_buffer_fn :: u32
  serial_write_char_fn :: u32
  serial_read_char_fn :: u32
  serial_peek_char_fn :: u32
  user_write_buffer_fn :: u32
  user_write_char_fn :: u32
  user_read_char_fn :: u32
  user_peek_char_fn :: u32

definition enable_auto_muxing :: "serial_symbols \<Rightarrow> 'm caches_scheme \<Rightarrow> 'm caches_scheme outcome" where
  "enable_auto_muxing syms m =
     (let redirect = redirect_function (linker_symbols.truncate syms) in
      and_then (redirect (serial_write_buffer_fn syms) (user_write_buffer_fn syms) m) (\<lambda>m.
      and_then (redirect (serial_write_char_fn syms) (user_write_char_fn syms) m) (\<lambda>m.
      and_then (redirect (serial_read_char_fn syms) (user_read_char_fn syms) m) (\<lambda>m.
        redirect (serial_peek_char_fn syms) (user_peek_char_fn syms) m))))"

definition stdio_on_session_start :: "serial_symbols \<Rightarrow> 'm caches_scheme \<Rightarrow> 'm caches_scheme outcome" where
  "stdio_on_session_start syms m = enable_auto_muxing syms m"

text \<open>What a function and the trampolines have to be for it to be redirected.\<close>

definition entry_of :: "u32 \<Rightarrow> u32" where "entry_of f = f AND NOT 1"

definition trampoline_of :: "linker_symbols \<Rightarrow> u32 \<Rightarrow> u32" where
  "trampoline_of syms f = (if f AND 1 \<noteq> 0 then trampoline_thumb syms else trampoline_arm syms) AND NOT 1"

definition redirectable :: "linker_symbols \<Rightarrow> u32 \<Rightarrow> bool" where
  "redirectable syms f \<longleftrightarrow>
     (if f AND 1 \<noteq> 0 then trampoline_thumb_end syms else trampoline_arm_end syms) = trampoline_of syms f + 8 \<and>
     trampoline_of syms f \<noteq> 0 \<and> entry_of f \<noteq> 0 \<and> unat (trampoline_of syms f) + 8 < 2 ^ 32 \<and>
     unat (entry_of f) + 12 < 2 ^ 32 \<and> apart (trampoline_of syms f) 8 (entry_of f) 12"

lemma redirect_entry:
  assumes "redirectable syms f"
  obtains m' where "redirect_function syms f d m = Inr m'" "read_word (dview m') (entry_of f + 8) = d"
    "\<forall>x. \<not> in_range (entry_of f) 12 x \<longrightarrow> dview m' x = dview m x" "caches.more m' = caches.more m"
  using redirect_spec [of "trampoline_of syms f" f syms "entry_of f" d m] assms
  by (auto simp: redirectable_def entry_of_def trampoline_of_def)

lemma in_range_shift: "in_range (a + 8) 4 x \<Longrightarrow> in_range a 12 x"
proof -
  assume "in_range (a + 8) 4 x"
  then obtain i where "i < 4" "x = a + 8 + of_nat i" by (rule in_rangeE)
  then have "x = a + of_nat (8 + i)" "8 + i < 12" by simp_all
  then show "in_range a 12 x" using in_range_offset [of "8 + i" 12 a] by simp
qed

lemma destination_kept:
  assumes "apart e 12 e' 12" and "\<forall>x. \<not> in_range e' 12 x \<longrightarrow> dview m' x = dview m x"
  shows "read_word (dview m') (e + 8) = read_word (dview m) (e + 8)"
proof -
  have "load (dview m') (e + 8) 4 = load (dview m) (e + 8) 4"
    by (rule load_cong) (use assms in_range_shift apart_disjoint [OF assms(1)] in \<open>auto\<close>)
  then show ?thesis by (simp add: read_word_def)
qed

text \<open>Once a session has started on the serial line, all four functions lead to the framed ones.\<close>

lemma session_start_redirects:
  fixes syms :: serial_symbols
  defines "ls \<equiv> linker_symbols.truncate syms"
  assumes ok: "redirectable ls (serial_write_buffer_fn syms)" "redirectable ls (serial_write_char_fn syms)"
      "redirectable ls (serial_read_char_fn syms)" "redirectable ls (serial_peek_char_fn syms)"
    and apart: "apart (entry_of (serial_write_buffer_fn syms)) 12 (entry_of (serial_write_char_fn syms)) 12"
      "apart (entry_of (serial_write_buffer_fn syms)) 12 (entry_of (serial_read_char_fn syms)) 12"
      "apart (entry_of (serial_write_buffer_fn syms)) 12 (entry_of (serial_peek_char_fn syms)) 12"
      "apart (entry_of (serial_write_char_fn syms)) 12 (entry_of (serial_read_char_fn syms)) 12"
      "apart (entry_of (serial_write_char_fn syms)) 12 (entry_of (serial_peek_char_fn syms)) 12"
      "apart (entry_of (serial_read_char_fn syms)) 12 (entry_of (serial_peek_char_fn syms)) 12"
  shows "\<exists>m'. stdio_on_session_start syms m = Inr m' \<and>
    read_word (dview m') (entry_of (serial_write_buffer_fn syms) + 8) = user_write_buffer_fn syms \<and>
    read_word (dview m') (entry_of (serial_write_char_fn syms) + 8) = user_write_char_fn syms \<and>
    read_word (dview m') (entry_of (serial_read_char_fn syms) + 8) = user_read_char_fn syms \<and>
    read_word (dview m') (entry_of (serial_peek_char_fn syms) + 8) = user_peek_char_fn syms"
proof -
  obtain m1 where m1: "redirect_function ls (serial_write_buffer_fn syms) (user_write_buffer_fn syms) m = Inr m1"
    "read_word (dview m1) (entry_of (serial_write_buffer_fn syms) + 8) = user_write_buffer_fn syms"
    by (rule redirect_entry [OF ok(1)])
  obtain m2 where m2: "redirect_function ls (serial_write_char_fn syms) (user_write_char_fn syms) m1 = Inr m2"
    "read_word (dview m2) (entry_of (serial_write_char_fn syms) + 8) = user_write_char_fn syms"
    "\<forall>x. \<not> in_range (entry_of (serial_write_char_fn syms)) 12 x \<longrightarrow> dview m2 x = dview m1 x"
    by (rule redirect_entry [OF ok(2)])
  obtain m3 where m3: "redirect_function ls (serial_read_char_fn syms) (user_read_char_fn syms) m2 = Inr m3"
    "read_word (dview m3) (entry_of (serial_read_char_fn syms) + 8) = user_read_char_fn syms"
    "\<forall>x. \<not> in_range (entry_of (serial_read_char_fn syms)) 12 x \<longrightarrow> dview m3 x = dview m2 x"
    by (rule redirect_entry [OF ok(3)])
  obtain m4 where m4: "redirect_function ls (serial_peek_char_fn syms) (user_peek_char_fn syms) m3 = Inr m4"
    "read_word (dview m4) (entry_of (serial_peek_char_fn syms) + 8) = user_peek_char_fn syms"
    "\<forall>x. \<not> in_range (entry_of (serial_peek_char_fn syms)) 12 x \<longrightarrow> dview m4 x = dview m3 x"
    by (rule redirect_entry [OF ok(4)])
  have "stdio_on_session_start syms m = Inr m4"
    using m1(1) m2(1) m3(1) m4(1) by (simp add: stdio_on_session_start_def enable_auto_muxing_def ls_def Let_def)
  moreover note destination_kept [OF apart(1) m2(3)] destination_kept [OF apart(2) m3(3)] destination_kept [OF apart(3) m4(3)]
    destination_kept [OF apart(4) m3(3)] destination_kept [OF apart(5) m4(3)] destination_kept [OF apart(6) m4(3)]
  ultimately show ?thesis using m1(2) m2(2) m3(2) m4(2) by (intro exI [of _ m4]) simp
qed

end
