(* ===== verification/System_Contract.thy ===== *)
theory System_Contract
  imports Thread_Properties
begin

text \<open>
  The trait \<open>DebuggerSystem\<close> of \<open>src/src/sys/mod.rs\<close> as a contract: what \<open>thread.rs\<close> may rely on about the
  threads whichever system is configured, and the two systems that keep it.
\<close>

locale debugger_system =
  fixes valid :: "'s \<Rightarrow> bool"
    and current :: "'s \<Rightarrow> nat outcome"
    and all_threads :: "'s \<Rightarrow> nat list outcome"
    and thread_exists :: "nat \<Rightarrow> 's \<Rightarrow> bool"
    and read_regs_of :: "nat \<Rightarrow> 's \<Rightarrow> (system_error + debug_event_context) outcome"
  assumes lists: "valid s \<Longrightarrow> \<exists>tids. all_threads s = Inr tids \<and> distinct tids \<and> (\<forall>tid. thread_exists tid s \<longleftrightarrow> tid \<in> set tids)"
    and current_exists: "valid s \<Longrightarrow> \<exists>tid. current s = Inr tid \<and> thread_exists tid s"
    and refuses: "valid s \<Longrightarrow> \<not> thread_exists tid s \<Longrightarrow> read_regs_of tid s = Inr (Inl NoSuchTid)"
begin

text \<open>The choice of the callbacks in \<open>thread.rs\<close>.\<close>

definition read_thread :: "nat \<Rightarrow> debug_event_context \<Rightarrow> 's \<Rightarrow> (target_error + debug_event_context) outcome" where
  "read_thread tid stopped s =
     and_then (current s) (\<lambda>c. if tid = c then ok (Inr stopped) else from_system (read_regs_of tid s))"

lemma read_thread_current:
  assumes "valid s" obtains tid where "current s = Inr tid" "read_thread tid stopped s = Inr (Inr stopped)" "thread_exists tid s"
  using current_exists [OF assms] by (auto simp: read_thread_def)

lemma read_thread_unlisted:
  assumes "valid s" and "all_threads s = Inr tids" and "tid \<notin> set tids"
  shows "read_thread tid stopped s = Inr (Inl (Errno EINVAL))"
proof -
  have no: "\<not> thread_exists tid s" using lists [OF assms(1)] assms(2,3) by auto
  obtain c where c: "current s = Inr c" "thread_exists c s" using current_exists [OF assms(1)] by blast
  then have "tid \<noteq> c" using no by blast
  then show ?thesis using c(1) refuses [OF assms(1) no] by (simp add: read_thread_def from_system_def)
qed

end

section \<open>The systems\<close>

interpretation bare: debugger_system "\<lambda>_ :: unit. True" "\<lambda>_. Inr bare_current_thread" "\<lambda>_. Inr bare_all_threads"
  "\<lambda>tid _. bare_thread_exists tid" "\<lambda>tid _. bare_read_registers tid"
  by unfold_locales (simp_all add: bare_all_threads_def bare_thread_exists_def bare_read_registers_def)

text \<open>FreeRTOS with at most 128 tasks, of which the current one is running.\<close>

definition frtos_valid :: "rtos \<times> 'm machine_scheme \<Rightarrow> bool" where
  "frtos_valid s \<longleftrightarrow>
     (case s of (os, m) \<Rightarrow> freertos m \<and>
        (\<exists>ts. rtos_reports ts os \<and> tasks_ok (current_task m) ts \<and> length ts \<le> 128 \<and>
           current_task m \<in> (\<lambda>t. unat (x_task_number t)) ` set ts))"

lemma frtos_validE:
  assumes "frtos_valid (os, m)"
  obtains ts where "rtos_reports ts os" "tasks_ok (current_task m) ts" "length ts \<le> 128" "freertos m"
    "current_task m \<in> (\<lambda>t. unat (x_task_number t)) ` set (live ts)" "current_task m \<noteq> 0"
proof -
  obtain ts where ts: "rtos_reports ts os" "tasks_ok (current_task m) ts" "length ts \<le> 128" "freertos m"
    "current_task m \<in> (\<lambda>t. unat (x_task_number t)) ` set ts" using assms by (auto simp: frtos_valid_def)
  then obtain t where t: "t \<in> set ts" "current_task m = unat (x_task_number t)" by auto
  then have "e_current_state t = RUNNING" "x_task_number t \<noteq> 0" using ts(2) by (auto simp: tasks_ok_def)
  then have "t \<in> set (live ts)" "current_task m \<noteq> 0"
    using t by (auto simp: live_def RUNNING_def DELETED_def unat_eq_0)
  then show thesis using that ts(1-4) t(2) by blast
qed

interpretation threads: debugger_system frtos_valid "\<lambda>s. current_thread (snd s)" "\<lambda>s. list_active_threads (fst s) (snd s)"
  "\<lambda>tid s. is_thread_alive (fst s) tid (snd s)" "\<lambda>tid s. sys_read_registers (fst s) tid (snd s)"
proof
  fix s :: "rtos \<times> 'm machine_scheme" and tid
  obtain os m where s: "s = (os, m)" by fastforce
  assume v: "frtos_valid s"
  then obtain ts where ts: "rtos_reports ts os" "tasks_ok (current_task m) ts" "length ts \<le> 128" "freertos m"
    "current_task m \<in> (\<lambda>t. unat (x_task_number t)) ` set (live ts)" "current_task m \<noteq> 0"
    unfolding s by (rule frtos_validE)
  let ?tids = "map (\<lambda>t. unat (x_task_number t)) (live ts)"
  note l = listed_threads_are_alive [OF ts(1-4)]
  have "distinct (map x_task_number ts)" using ts(2) by (simp add: tasks_ok_def)
  then have d: "distinct ?tids"
    by (auto simp: live_def distinct_map inj_on_def word_unat_eq_iff)
  show "\<exists>tids. list_active_threads (fst s) (snd s) = Inr tids \<and> distinct tids \<and>
      (\<forall>tid. is_thread_alive (fst s) tid (snd s) \<longleftrightarrow> tid \<in> set tids)"
    using l d by (intro exI [of _ ?tids]) (simp add: s)
  show "\<exists>tid. current_thread (snd s) = Inr tid \<and> is_thread_alive (fst s) tid (snd s)"
    using l ts(4-6) by (intro exI [of _ "current_task m"]) (simp add: s current_thread_def)
  assume no: "\<not> is_thread_alive (fst s) tid (snd s)"
  then have "tid \<noteq> current_task m" "tid \<notin> (\<lambda>t. unat (x_task_number t)) ` set (live ts)" using l ts(5) by (auto simp: s)
  moreover from this(1) have "case lookup_saved_task os tid of
      Inr (Inr t) \<Rightarrow> t \<in> set (live ts) \<and> unat (x_task_number t) = tid
    | Inr (Inl NoSuchTid) \<Rightarrow> tid \<notin> (\<lambda>t. unat (x_task_number t)) ` set (live ts)
    | Inl _ \<Rightarrow> False" using l by blast
  ultimately have "lookup_saved_task os tid = Inr (Inl NoSuchTid)"
  proof (cases "lookup_saved_task os tid")
    case (Inr r)
    then show ?thesis
      using \<open>tid \<notin> (\<lambda>t. unat (x_task_number t)) ` set (live ts)\<close>
        \<open>case lookup_saved_task os tid of Inr (Inr t) \<Rightarrow> t \<in> set (live ts) \<and> unat (x_task_number t) = tid
          | Inr (Inl NoSuchTid) \<Rightarrow> tid \<notin> (\<lambda>t. unat (x_task_number t)) ` set (live ts) | Inl _ \<Rightarrow> False\<close>
      by (cases r) (auto intro: system_error.exhaust)
  qed simp
  then show "sys_read_registers (fst s) tid (snd s) = Inr (Inl NoSuchTid)"
    using ts(4) by (simp add: s sys_read_registers_def frtos_read_registers_def)
qed

text \<open>The callback of \<open>gdbstub\<close> is the one of the contract, so a thread that is not listed is refused.\<close>

lemma mt_read_is_read_thread:
  "mt_read_registers os tid t m = threads.read_thread tid (exception_ctx t) (os, m)"
  unfolding mt_read_registers_def threads.read_thread_def read_registers_def fst_conv snd_conv ..

lemma unlisted_thread_refused:
  assumes "frtos_valid (os, m)" and "list_active_threads os m = Inr tids" and "tid \<notin> set tids"
  shows "mt_read_registers os tid t m = Inr (Inl (Errno EINVAL))"
  using threads.read_thread_unlisted [OF assms(1), of tids tid "exception_ctx t"] assms(2,3)
  by (simp add: mt_read_is_read_thread)

end
