(* ===== verification/Build_Tool.thy ===== *)
theory Build_Tool
  imports Monitor
begin

text \<open>
  \<open>src/xtask/src/main.rs\<close>, which builds the library for C programs and runs the tests on a brain, and the
  lines a test prints for it (\<open>src/tests/common/mod.rs\<close>). Processes are given by what they print and how
  they end; files are left out.
\<close>

section \<open>What a test prints\<close>

text \<open>A test returns an exit code, or panics with a message of some lines. \<open>body\<close> is what it prints itself.\<close>

datatype test_end = Returned bool | Panicked "str list"

definition test_output :: "str list \<Rightarrow> test_end \<Rightarrow> str list" where
  "test_output body e =
     lit ''::test:status=run'' # body @
     (case e of
        Panicked mesg \<Rightarrow> mesg @ [lit ''::test:status=panic'']
      | Returned success \<Rightarrow> if success then [lit ''::test:status=done''] else [lit ''::test:status=error''])"

section \<open>Following a test\<close>

definition trim :: "str \<Rightarrow> str" where
  "trim s = rev (dropWhile whitespace (rev (dropWhile whitespace s)))"

definition strip_prefix :: "str \<Rightarrow> str \<Rightarrow> str option" where
  "strip_prefix p s = (if take (length p) s = p then Some (drop (length p) s) else None)"

definition split_once :: "nat \<Rightarrow> str \<Rightarrow> (str \<times> str) option" where
  "split_once c s = (if c \<in> set s then Some (takeWhile (\<lambda>d. d \<noteq> c) s, tl (dropWhile (\<lambda>d. d \<noteq> c) s)) else None)"

text \<open>The argument of a status directive.\<close>

definition status_directive :: "str \<Rightarrow> str option" where
  "status_directive line =
     (case strip_prefix (lit ''::test:'') (trim line) of
        None \<Rightarrow> None
      | Some directive \<Rightarrow>
          (case split_once 61 directive of
             None \<Rightarrow> None
           | Some (cmd, arg) \<Rightarrow> if cmd = lit ''status'' then Some arg else None))"

datatype progress_message = TestUploading | TestRunning | TestSucceeded | TestErrored | TestPanicked

record progress =
  message :: progress_message
  printed :: "str list"

text \<open>The loop over the lines of the process: whether the test failed, and what was shown.\<close>

fun follow :: "str list \<Rightarrow> progress \<Rightarrow> bool \<times> progress" where
  "follow [] p = (True, p)"
| "follow (line # ls) p =
     (case status_directive line of
        Some arg \<Rightarrow>
          if arg = lit ''run'' then follow ls (p\<lparr>message := TestRunning\<rparr>)
          else if arg = lit ''done'' then (False, p\<lparr>message := TestSucceeded\<rparr>)
          else if arg = lit ''error'' then (True, p\<lparr>message := TestErrored\<rparr>)
          else if arg = lit ''panic'' then (True, p\<lparr>message := TestPanicked\<rparr>)
          else follow ls p
      | None \<Rightarrow> follow ls (p\<lparr>printed := printed p @ [line]\<rparr>))"

text \<open>
  A process: its lines, whether it was found to have ended when they were read and with success, and what it wrote to
  standard error. The runner stops at the first that ended without success.
\<close>

record test_process =
  out_lines :: "str list"
  ended :: "bool option"
  err_out :: "u8 list"

record test_report =
  report_error :: bool
  report_progress :: progress
  report_stderr :: "u8 list"

fun run_tests :: "test_process list \<Rightarrow> test_report list" where
  "run_tests [] = []"
| "run_tests (proc # procs) =
     (let (error, p) = follow (out_lines proc) \<lparr>message = TestUploading, printed = []\<rparr> in
      if ended proc = Some False then [\<lparr>report_error = error, report_progress = p, report_stderr = []\<rparr>]
      else \<lparr>report_error = error, report_progress = p, report_stderr = (if error then err_out proc else [])\<rparr> # run_tests procs)"

lemma directives [simp]:
  "status_directive (lit ''::test:status=run'') = Some (lit ''run'')"
  "status_directive (lit ''::test:status=done'') = Some (lit ''done'')"
  "status_directive (lit ''::test:status=error'') = Some (lit ''error'')"
  "status_directive (lit ''::test:status=panic'') = Some (lit ''panic'')"
  by (simp_all add: lit_def status_directive_def trim_def strip_prefix_def split_once_def whitespace_def)

lemma lit_distinct [simp]:
  "lit ''done'' \<noteq> lit ''run''" "lit ''error'' \<noteq> lit ''run''" "lit ''panic'' \<noteq> lit ''run''"
  "lit ''error'' \<noteq> lit ''done''" "lit ''panic'' \<noteq> lit ''done''" "lit ''panic'' \<noteq> lit ''error''"
  by (simp_all add: lit_def)

text \<open>Lines that are not directives are shown as they are.\<close>

lemma follow_plain:
  "\<forall>l \<in> set body. status_directive l = None \<Longrightarrow> follow (body @ ls) p = follow ls (p\<lparr>printed := printed p @ body\<rparr>)"
  by (induction body arbitrary: p) simp_all

text \<open>The runner takes what a test prints for what happened, and shows everything else.\<close>

lemma follow_test_output:
  assumes "\<forall>l \<in> set body. status_directive l = None"
    and "\<forall>mesg. e = Panicked mesg \<longrightarrow> (\<forall>l \<in> set mesg. status_directive l = None)"
  shows "follow (test_output body e) p =
     (e \<noteq> Returned True,
      p\<lparr>message := (case e of Returned True \<Rightarrow> TestSucceeded | Returned False \<Rightarrow> TestErrored | Panicked _ \<Rightarrow> TestPanicked),
        printed := printed p @ body @ (case e of Panicked mesg \<Rightarrow> mesg | _ \<Rightarrow> [])\<rparr>)"
proof (cases e)
  case (Returned success)
  then show ?thesis using assms(1) by (cases success) (simp_all add: test_output_def follow_plain)
next
  case (Panicked mesg)
  then show ?thesis using assms by (simp add: test_output_def follow_plain)
qed

text \<open>What a process that ends without success wrote to standard error is not shown.\<close>

lemma failed_process_silent:
  "ended proc = Some False \<Longrightarrow> map report_stderr (run_tests (proc # procs)) = [[]]"
  by (simp add: split_beta)

section \<open>Building for C programs\<close>

datatype ffi_target = Pros | Vexcode

fun target_args :: "ffi_target \<Rightarrow> string list" where
  "target_args Pros =
     [''--target=armv7a-vex-v5'',
      ''--config=target.\"cfg(true)\".rustflags=[\"-Ctarget-feature=-thumb-mode\"]'',
      ''-Zbuild-std=core'', ''-Fv5gdb/pros'']"
| "target_args Vexcode = [''--target=armv7a-none-eabi'', ''-Zbuild-std=core'']"

definition build_args :: "ffi_target \<Rightarrow> string list \<Rightarrow> string list" where
  "build_args target opts =
     [''build'', ''-p=v5gdb-ffi'', ''--message-format=json-render-diagnostics''] @ target_args target @ opts"

record artifact =
  is_staticlib :: bool
  target_name :: string
  filenames :: "string list"

datatype cargo_message = CompilerArtifact artifact | OtherMessage

text \<open>A message that cannot be read is None. The last library counts.\<close>

fun find_library :: "cargo_message option list \<Rightarrow> string option \<Rightarrow> string option outcome" where
  "find_library [] library_path = ok library_path"
| "find_library (msg # msgs) library_path =
     and_then (unwrap ''build: message'' msg) (\<lambda>m.
       case m of
         CompilerArtifact a \<Rightarrow>
           if is_staticlib a \<and> target_name a = ''v5gdb'' then
             and_then (assert_that (filenames a \<noteq> []) ''build: filenames[0]'') (\<lambda>_.
               find_library msgs (Some (hd (filenames a))))
           else find_library msgs library_path
       | OtherMessage \<Rightarrow> find_library msgs library_path)"

text \<open>A run of \<open>cargo\<close>: its messages, and its exit code (None for a signal), unless waiting for it failed.\<close>

record cargo_run =
  messages :: "cargo_message option list"
  wait_status :: "int option option"

datatype build_end = ExitWith int | MakeTemplate string | Finished

definition build :: "ffi_target \<Rightarrow> string list \<Rightarrow> (string list \<Rightarrow> cargo_run option) \<Rightarrow> build_end outcome" where
  "build target opts cargo =
     and_then (unwrap ''Failed to start cargo'' (cargo (build_args target opts))) (\<lambda>child.
     and_then (find_library (messages child) None) (\<lambda>library_path.
       let status = (case wait_status child of None \<Rightarrow> Some 0 | Some s \<Rightarrow> s) in
       ok (if status \<noteq> Some 0 then ExitWith (case status of Some c \<Rightarrow> c | None \<Rightarrow> 1)
           else case library_path of
             Some p \<Rightarrow> if target = Pros then MakeTemplate p else Finished
           | None \<Rightarrow> Finished)))"

text \<open>A failed build never exits with 0, and leaves no template.\<close>

lemma failed_build_reported:
  assumes "cargo (build_args target opts) = Some child" and "wait_status child = Some s" and "s \<noteq> Some 0"
    and "build target opts cargo = Inr e"
  shows "\<exists>c. e = ExitWith c \<and> c \<noteq> 0"
  using assms by (auto simp: build_def Let_def and_then_Inr_iff split: option.splits)

section \<open>The manifest of the template\<close>

datatype json = JNull | JStr str | JList "json list" | JObj "(string \<times> json) list"

text \<open>Indexing a value by a key is \<open>Null\<close> where there is none.\<close>

definition jget :: "json \<Rightarrow> string \<Rightarrow> json" where
  "jget v key = (case v of JObj fs \<Rightarrow> (case map_of fs key of Some w \<Rightarrow> w | None \<Rightarrow> JNull) | _ \<Rightarrow> JNull)"

definition make_pros_manifest :: "json \<Rightarrow> str list \<Rightarrow> json" where
  "make_pros_manifest cargo_manifest files =
     (let pros_metadata = jget (jget (jget cargo_manifest ''package'') ''metadata'') ''pros'';
          pros_manifest = JObj
            [(''metadata'', jget pros_metadata ''metadata''),
             (''name'', jget (jget cargo_manifest ''package'') ''name''),
             (''supported_kernels'', jget pros_metadata ''supported_kernels''),
             (''target'', jget pros_metadata ''target''),
             (''system_files'', JList (map JStr files)),
             (''user_files'', JList []),
             (''version'', jget (jget cargo_manifest ''package'') ''version'')] in
      JObj [(''py/object'', JStr (lit ''pros.conductor.templates.external_template.ExternalTemplate'')),
            (''py/state'', pros_manifest)])"

text \<open>The files of the template are listed, and none as the user's.\<close>

lemma manifest_files:
  "jget (jget (make_pros_manifest m files) ''py/state'') ''system_files'' = JList (map JStr files)"
  "jget (jget (make_pros_manifest m files) ''py/state'') ''user_files'' = JList []"
  by (simp_all add: make_pros_manifest_def jget_def Let_def)

section \<open>The header for C\<close>

text \<open>
  \<open>main\<close> of \<open>src/ffi/build.rs\<close>: where the header goes and what makes cargo run it again. Reading the configuration and
  generating the header are cbindgen, a parameter. A failed write is not looked at.
\<close>

definition bindings_main ::
  "string option \<Rightarrow> (string \<Rightarrow> 'c option) \<Rightarrow> (string \<Rightarrow> 'c \<Rightarrow> 'b option) \<Rightarrow> (string \<times> 'b \<times> string list) outcome" where
  "bindings_main manifest_dir from_file generate =
     and_then (unwrap ''CARGO_MANIFEST_DIR'' manifest_dir) (\<lambda>crate_dir.
       let out_path = crate_dir @ ''/dist/include/v5gdb/v5gdb_impl.h'' in
       and_then (unwrap ''cbindgen.toml not found'' (from_file (crate_dir @ ''/cbindgen.toml''))) (\<lambda>config.
       and_then (unwrap ''unable to generate bindings'' (generate crate_dir config)) (\<lambda>bindings.
         ok (out_path, bindings, [''cargo:rerun-if-changed=src'', ''cargo:rerun-if-changed=cbindgen.toml'']))))"

text \<open>A header is made or the build of the crate fails; it lies below the directory the template for PROS is copied from.\<close>

lemma bindings_main_cases:
  "bindings_main (Some dir) from_file generate =
     (case from_file (dir @ ''/cbindgen.toml'') of
        None \<Rightarrow> panic ''cbindgen.toml not found''
      | Some config \<Rightarrow>
          (case generate dir config of
             None \<Rightarrow> panic ''unable to generate bindings''
           | Some b \<Rightarrow> ok (dir @ ''/dist'' @ ''/include/v5gdb/v5gdb_impl.h'', b,
               [''cargo:rerun-if-changed=src'', ''cargo:rerun-if-changed=cbindgen.toml''])))"
  by (simp add: bindings_main_def Let_def unwrap_def split: option.splits)

end
