(* ===== verification/Hardware_Test.thy ===== *)
theory Hardware_Test
  imports Hw_Properties
begin

text \<open>
  \<open>src/tests/hardware.rs\<close>, the test the repository runs on a brain: it sets the manager up and exercises it. The
  assertions of the test are panics, the errors its \<open>?\<close> returns are values.
\<close>

section \<open>The test\<close>

datatype test_error = BkptFailed breakpoint_error | MmioFailed

definition test_add :: "u32 \<Rightarrow> arm_breakpoint_kind \<Rightarrow> hw_manager \<Rightarrow> (test_error + hw_manager) outcome" where
  "test_add addr kind h =
     and_then (add_breakpoint_at addr Match kind h) (\<lambda>(r, h).
       ok (case r of Inl e \<Rightarrow> Inl (BkptFailed e) | Inr _ \<Rightarrow> Inr h))"

definition test_mmio_read :: "u32 option \<Rightarrow> (test_error + u32) outcome" where
  "test_mmio_read r = ok (case r of None \<Rightarrow> Inl MmioFailed | Some v \<Rightarrow> Inr v)"

definition expect_err :: "breakpoint_error \<Rightarrow> u32 \<Rightarrow> arm_breakpoint_kind \<Rightarrow> hw_manager \<Rightarrow> hw_manager outcome" where
  "expect_err e addr kind h =
     and_then (add_breakpoint_at addr Match kind h) (\<lambda>(res, h).
     and_then (assert_that (res = Inl e) ''assert_eq'') (\<lambda>_. ok h))"

fun fill_comparators :: "nat list \<Rightarrow> hw_manager \<Rightarrow> (test_error + hw_manager) outcome" where
  "fill_comparators [] h = ok (Inr h)"
| "fill_comparators (i # is) h = try_then (test_add (of_nat i * 4) KArm32 h) (fill_comparators is)"

definition test_normal :: "hw_manager \<Rightarrow> (test_error + hw_manager) outcome" where
  "test_normal h =
     try_then (test_add 0x03800000 KArm32 h) (\<lambda>h.
     try_then (test_mmio_read (read_breakpoint_value 0 (mmio h))) (\<lambda>bp0.
     and_then (assert_that (bp0 = 0x03800000) ''assert_eq'') (\<lambda>_.
     try_then (test_mmio_read (read_breakpoint_ctrl 0 (mmio h))) (\<lambda>bp0_ctrl.
     and_then (assert_that (bc_enabled bp0_ctrl) ''assert'') (\<lambda>_.
     and_then (assert_that (byte_address_select bp0_ctrl = 15) ''assert_eq'') (\<lambda>_.
     and_then (hw_reset h) (\<lambda>h.
     try_then (test_mmio_read (read_breakpoint_ctrl 0 (mmio h))) (\<lambda>bp0_ctrl.
     and_then (assert_that (\<not> bc_enabled bp0_ctrl) ''assert'') (\<lambda>_.
       ok (Inr h))))))))))"

definition test_halfwords :: "hw_manager \<Rightarrow> (test_error + hw_manager) outcome" where
  "test_halfwords h =
     try_then (test_add 0x03800000 KThumb16 h) (\<lambda>h.
     try_then (test_mmio_read (read_breakpoint_ctrl 0 (mmio h))) (\<lambda>bp0_ctrl.
     and_then (assert_that (byte_address_select bp0_ctrl = 3) ''assert_eq'') (\<lambda>_.
     and_then (hw_reset h) (\<lambda>h.
     try_then (test_add 0x03800002 KThumb16 h) (\<lambda>h.
     try_then (test_mmio_read (read_breakpoint_ctrl 0 (mmio h))) (\<lambda>bp0_ctrl.
     and_then (assert_that (byte_address_select bp0_ctrl = 12) ''assert_eq'') (\<lambda>_.
     and_then (expect_err AlreadyExists 0x03800002 KThumb16 h) (\<lambda>h.
       ok (Inr h)))))))))"

definition test_misaligned :: "hw_manager \<Rightarrow> (test_error + hw_manager) outcome" where
  "test_misaligned h =
     and_then (hw_reset h) (\<lambda>h.
     and_then (expect_err NotAlignedCorrectly 0xfff2 KArm32 h) (\<lambda>h.
     try_then (test_add 0xfff2 KThumb16 h) (\<lambda>h.
     and_then (expect_err NotAlignedCorrectly 0xfff1 KThumb16 h) (\<lambda>h.
       ok (Inr h)))))"

definition test_too_many :: "hw_manager \<Rightarrow> (test_error + hw_manager) outcome" where
  "test_too_many h =
     and_then (hw_reset h) (\<lambda>h.
     let num_breaks = unat (num_breakpoints (capabilities h)) in
     try_then (fill_comparators [0..<num_breaks] h) (\<lambda>h.
     and_then (expect_err NoSpace (of_nat num_breaks * 4) KArm32 h) (\<lambda>h.
       ok (Inr h))))"

definition hardware_test ::
  "(u32 \<Rightarrow> debug_logic) \<Rightarrow> devcfg \<Rightarrow> debug_sysregs \<Rightarrow> 'm vmsa_scheme \<Rightarrow> (test_error + hw_manager) outcome" where
  "hardware_test logic_at dc regs m =
     and_then (hw_setup logic_at dc regs m) (\<lambda>(manager, dc, regs, m).
     and_then (set_locked False manager) (\<lambda>h.
     try_then (test_normal h) (\<lambda>h.
     try_then (test_halfwords h) (\<lambda>h.
     try_then (test_misaligned h) (\<lambda>h.
     try_then (test_too_many h) (\<lambda>h.
     and_then (hw_reset h) (\<lambda>h.
     and_then (set_locked True h) (\<lambda>h.
       ok (Inr h)))))))))"

section \<open>It passes\<close>

text \<open>The manager while the test runs, and after a reset.\<close>

definition in_use :: "nat \<Rightarrow> hw_manager \<Rightarrow> bool" where
  "in_use n h \<longleftrightarrow> hw_inv h \<and> \<not> locked h \<and> banks_ok (mmio h) \<and> num h = n \<and>
     unat (num_watchpoints (capabilities h)) \<le> 16"

definition fresh :: "nat \<Rightarrow> hw_manager \<Rightarrow> bool" where
  "fresh n h \<longleftrightarrow> in_use n h \<and> hw_keys h = {}"

lemma add_keeps_banks:
  assumes "add_breakpoint_at addr sp kind h = Inr (r, h')" and "banks_ok (mmio h)"
  shows "banks_ok (mmio h')"
proof (cases "split_addr addr kind")
  case (Inr wb)
  obtain w bas where wb: "wb = (w, bas)" by (cases wb)
  let ?scan = "scan_comparators h w bas (specificity_type sp) [0..<unat (num_breakpoints (capabilities h))] None"
  obtain s where s: "?scan = Inr s"
    using assms(1) Inr wb by (cases ?scan) (auto simp: add_breakpoint_at_def and_then_Inr_iff)
  note defs = add_breakpoint_at_def update_mmio_def write_breakpoint_value_def modify_breakpoint_ctrl_def
    write_breakpoint_ctrl_def when_unlocked_def banks_ok_def and_then_Inr_iff read_breakpoint_ctrl_def
  show ?thesis
  proof (cases s)
    case (Inr i)
    then show ?thesis using assms s wb \<open>split_addr addr kind = Inr wb\<close> by (cases i) (auto simp: defs split: if_split_asm option.split_asm)
  qed (use assms s wb Inr in \<open>auto simp: defs\<close>)
qed (use assms in \<open>auto simp: add_breakpoint_at_def and_then_Inr_iff\<close>)

lemma add_in_use:
  assumes "in_use n h" and "split_addr addr kind = Inr wb"
  obtains h' where "add_breakpoint_at addr Match kind h = Inr (hw_result (hw_key Match wb) h, h')" and "in_use n h'"
    and "hw_result (hw_key Match wb) h = Inr () \<Longrightarrow> hw_keys h' = insert (hw_key Match wb) (hw_keys h)"
    and "hw_result (hw_key Match wb) h \<noteq> Inr () \<Longrightarrow> h' = h"
proof -
  obtain w bas where wb: "wb = (w, bas)" by (cases wb)
  have h: "hw_inv h" "\<not> locked h" "banks_ok (mmio h)" using assms(1) by (simp_all add: in_use_def)
  show thesis
  proof (rule add_breakpoint_total [OF h(1,2) assms(2) [unfolded wb], of Match])
    fix h'
    assume r: "add_breakpoint_at addr Match kind h = Inr (hw_result (hw_key Match (w, bas)) h, h')" "hw_inv h'" "hw_frame h h'"
      "hw_result (hw_key Match (w, bas)) h = Inr () \<Longrightarrow> hw_keys h' = insert (hw_key Match (w, bas)) (hw_keys h)"
      "hw_result (hw_key Match (w, bas)) h \<noteq> Inr () \<Longrightarrow> h' = h"
    have "in_use n h'"
      using assms(1) r(2) add_keeps_banks [OF r(1) h(3)] hw_frame_simps [OF r(3)] by (simp add: in_use_def)
    then show thesis using that r(1,4,5) wb by blast
  qed
qed

text \<open>The first breakpoint after a reset is in comparator 0.\<close>

lemma fresh_add:
  assumes "fresh n h" and "split_addr addr kind = Inr (w, bas)"
  obtains h' where "add_breakpoint_at addr Match kind h = Inr (Inr (), h')" and "in_use n h'"
    and "hw_keys h' = {hw_key Match (w, bas)}"
    and "read_breakpoint_value 0 (mmio h') = Some w"
    and "\<exists>c. read_breakpoint_ctrl 0 (mmio h') = Some c \<and> bc_enabled c \<and> byte_address_select c = bas"
proof -
  have u: "in_use n h" "hw_keys h = {}" using assms(1) by (simp_all add: fresh_def)
  then have h: "hw_inv h" "\<not> locked h" "0 < num h" by (simp_all add: in_use_def hw_inv_def hw_wf_def)
  have free: "held h i = None" if "i < num h" for i
    using u(2) that unfolding hw_keys_def by (cases "held h i") blast+
  have "find (\<lambda>i. held h i = None) [0..<num h] = Some 0"
    using h(3) free [of 0] by (simp add: upt_conv_Cons)
  moreover have "hw_key Match (w, bas) \<notin> hw_keys h" using u(2) by simp
  ultimately obtain h' where r: "add_breakpoint_at addr Match kind h = Inr (Inr (), h')" "hw_frame h h'"
    "held h' 0 = Some (hw_key Match (w, bas))" "hw_keys h' = {hw_key Match (w, bas)}"
    using add_breakpoint_new_inv [OF h(1,2) assms(2)] u(2) by (metis zero_less_numeral)
  have "in_use n h'" by (rule add_in_use [OF u(1) assms(2)]) (simp add: r(1))
  with r show thesis
    by (intro that [of h']) (auto simp: held_def hw_key_def Let_def split: if_splits)
qed

lemma reset_fresh:
  assumes "in_use n h"
  obtains h' where "hw_reset h = Inr h'" and "fresh n h'"
    and "\<exists>c. read_breakpoint_ctrl 0 (mmio h') = Some c \<and> \<not> bc_enabled c"
proof -
  have n: "0 < num h" "num h \<le> 16" "num h = unat (num_breakpoints (capabilities h))"
    using assms by (simp_all add: in_use_def hw_inv_def hw_wf_def num_def)
  obtain h' where r: "hw_reset h = Inr h'"
    "wtch_reset (capabilities h) (unat (num_watchpoints (capabilities h))) h'"
    by (rule hw_reset_spec [of h]) (use assms n in \<open>auto simp: in_use_def\<close>)
  note i = wtch_reset_inv [OF r(2)]
  have "fresh n h'"
    using i n r(2) assms by (auto simp: fresh_def in_use_def wtch_reset_def bkpt_reset_def num_def)
  moreover have "\<not> bc_enabled bc_DISABLED" by (simp add: bc_DISABLED_def bc_enabled_def with_enabled_def)
  then have "\<exists>c. read_breakpoint_ctrl 0 (mmio h') = Some c \<and> \<not> bc_enabled c"
    using r(2) n by (auto simp: wtch_reset_def bkpt_reset_def)
  ultimately show thesis using that r(1) by blast
qed

lemma expect_err_ok:
  assumes "add_breakpoint_at addr Match kind h = Inr (Inl e, h)"
  shows "expect_err e addr kind h = Inr h"
  using assms by (simp add: expect_err_def)

lemma expect_misaligned:
  assumes "\<not> locked h" and "split_addr addr kind = Inl e"
  shows "expect_err e addr kind h = Inr h"
  using assms by (intro expect_err_ok) (simp add: add_breakpoint_at_def)

lemma test_splits:
  "split_addr 0x03800000 KArm32 = Inr (0x03800000, 15)" "split_addr 0x03800000 KThumb16 = Inr (0x03800000, 3)"
  "split_addr 0x03800002 KThumb16 = Inr (0x03800000, 12)" "split_addr 0xfff2 KThumb16 = Inr (0xfff0, 12)"
  "split_addr 0xfff2 KArm32 = Inl NotAlignedCorrectly" "split_addr 0xfff1 KThumb16 = Inl NotAlignedCorrectly"
  by (simp_all add: split_addr_def Let_def)

lemma test_normal_passes:
  assumes "fresh n h"
  shows "\<exists>h'. test_normal h = Inr (Inr h') \<and> fresh n h'"
proof (rule fresh_add [OF assms test_splits(1)])
  fix h1
  assume a: "add_breakpoint_at 0x03800000 Match KArm32 h = Inr (Inr (), h1)" "in_use n h1"
    "read_breakpoint_value 0 (mmio h1) = Some 0x03800000"
    "\<exists>c. read_breakpoint_ctrl 0 (mmio h1) = Some c \<and> bc_enabled c \<and> byte_address_select c = 15"
  obtain c where c: "read_breakpoint_ctrl 0 (mmio h1) = Some c" "bc_enabled c" "byte_address_select c = 15" using a(4) by blast
  obtain h2 d where r: "hw_reset h1 = Inr h2" "fresh n h2" "read_breakpoint_ctrl 0 (mmio h2) = Some d" "\<not> bc_enabled d"
    by (rule reset_fresh [OF a(2)]) blast
  show ?thesis
    unfolding test_normal_def test_add_def test_mmio_read_def by (simp add: a(1,3) c r del: read_regs)
qed

lemma test_halfwords_passes:
  assumes "fresh n h"
  shows "\<exists>h'. test_halfwords h = Inr (Inr h') \<and> in_use n h'"
proof (rule fresh_add [OF assms test_splits(2)])
  fix h1
  assume a: "add_breakpoint_at 0x03800000 Match KThumb16 h = Inr (Inr (), h1)" "in_use n h1"
    "\<exists>c. read_breakpoint_ctrl 0 (mmio h1) = Some c \<and> bc_enabled c \<and> byte_address_select c = 3"
  obtain h2 where r: "hw_reset h1 = Inr h2" "fresh n h2" by (rule reset_fresh [OF a(2)])
  show ?thesis
  proof (rule fresh_add [OF r(2) test_splits(3)])
    fix h3
    assume b: "add_breakpoint_at 0x03800002 Match KThumb16 h2 = Inr (Inr (), h3)" "in_use n h3"
      "hw_keys h3 = {hw_key Match (0x03800000, 12)}"
      "\<exists>c. read_breakpoint_ctrl 0 (mmio h3) = Some c \<and> bc_enabled c \<and> byte_address_select c = 12"
    have "add_breakpoint_at 0x03800002 Match KThumb16 h3 = Inr (Inl AlreadyExists, h3)"
      by (rule add_in_use [OF b(2) test_splits(3)]) (simp add: hw_result_def b(3))
    then have "expect_err AlreadyExists 0x03800002 KThumb16 h3 = Inr h3" by (rule expect_err_ok)
    moreover obtain c where "read_breakpoint_ctrl 0 (mmio h1) = Some c" "byte_address_select c = 3" using a(3) by blast
    moreover obtain d where "read_breakpoint_ctrl 0 (mmio h3) = Some d" "byte_address_select d = 12" using b(4) by blast
    ultimately show ?thesis
      unfolding test_halfwords_def test_add_def test_mmio_read_def by (simp add: a(1) r(1) b(1,2) del: read_regs)
  qed
qed

lemma test_misaligned_passes:
  assumes "in_use n h"
  shows "\<exists>h'. test_misaligned h = Inr (Inr h') \<and> in_use n h'"
proof (rule reset_fresh [OF assms])
  fix h1
  assume r: "hw_reset h = Inr h1" "fresh n h1"
  have u: "\<not> locked h1" using r(2) by (simp add: fresh_def in_use_def)
  show ?thesis
  proof (rule fresh_add [OF r(2) test_splits(4)])
    fix h2
    assume b: "add_breakpoint_at 0xfff2 Match KThumb16 h1 = Inr (Inr (), h2)" "in_use n h2"
    then have "\<not> locked h2" by (simp add: in_use_def)
    from expect_misaligned [OF u test_splits(5)] expect_misaligned [OF this test_splits(6)]
    show ?thesis using r(1) b by (simp add: test_misaligned_def test_add_def)
  qed
qed

text \<open>Filling the comparators: the keys are the words from 0 on.\<close>

definition word_keys :: "nat \<Rightarrow> hw_bkpt set" where
  "word_keys k = (\<lambda>i. hw_key Match (of_nat i * 4, 15)) ` {..<k}"

lemma word_key_inj:
  assumes "i \<le> 16" and "j \<le> 16" and "hw_key Match (of_nat i * 4, 15) = hw_key Match (of_nat j * 4, 15)"
  shows "i = j"
proof -
  have "unat (of_nat i * 4 :: u32) = unat (of_nat j * 4 :: u32)" using assms(3) by (simp add: hw_key_def)
  moreover have "unat (of_nat k * 4 :: u32) = 4 * k" if "k \<le> 16" for k
    using that by (simp add: unat_word_ariths(2) unat_of_nat)
  ultimately show ?thesis using assms(1,2) by simp
qed

lemma word_keys_card: "k \<le> 16 \<Longrightarrow> card (word_keys k) = k"
proof -
  assume k: "k \<le> 16"
  have "inj_on (\<lambda>i. hw_key Match (of_nat i * 4, 15)) {..<k}"
    by (rule inj_onI, rule word_key_inj) (use k in simp_all)
  then show ?thesis by (simp add: word_keys_def card_image)
qed

lemma word_keys_new: "k \<le> 16 \<Longrightarrow> hw_key Match (of_nat k * 4, 15) \<notin> word_keys k"
proof
  assume k: "k \<le> 16" "hw_key Match (of_nat k * 4, 15) \<in> word_keys k"
  then obtain i where "i < k" "hw_key Match (of_nat k * 4, 15) = hw_key Match (of_nat i * 4, 15)"
    unfolding word_keys_def by blast
  then show False using word_key_inj [of k i] k(1) by simp
qed

lemma split_word: "k \<le> 16 \<Longrightarrow> split_addr (of_nat k * 4) KArm32 = Inr (of_nat k * 4, 15)"
proof -
  assume "k \<le> 16"
  then have u: "unat (of_nat k * 4 :: u32) = 4 * k" by (simp add: unat_word_ariths(2) unat_of_nat)
  have "(of_nat k * 4 :: u32) AND NOT 3 = of_nat k * 4"
  proof (rule bit_word_eqI)
    fix i :: nat
    assume "i < LENGTH(32)"
    have "(of_nat k * 4 :: u32) = push_bit 2 (of_nat k)" by (simp add: push_bit_eq_mult)
    then show "bit ((of_nat k * 4 :: u32) AND NOT 3) i = bit (of_nat k * 4 :: u32) i"
      unfolding bit_and_iff bit_not_iff select_bits(2) using \<open>i < LENGTH(32)\<close> by (auto simp: bit_push_bit_iff)
  qed
  then show ?thesis by (simp add: split_addr_def u)
qed

lemma fill_from:
  assumes "in_use n h" and "hw_keys h = word_keys k" and "k \<le> n"
  shows "\<exists>h'. fill_comparators [k..<n] h = Inr (Inr h') \<and> in_use n h' \<and> hw_keys h' = word_keys n"
  using assms
proof (induction "n - k" arbitrary: k h)
  case 0
  then show ?case by simp
next
  case (Suc d)
  have n: "n \<le> 16" "k < n" "hw_inv h" "num h = n"
    using Suc.prems(1) Suc.hyps(2) by (auto simp: in_use_def hw_inv_def hw_wf_def)
  have k: "hw_result (hw_key Match (of_nat k * 4, 15)) h = Inr ()"
    using n Suc.prems(2) by (simp add: hw_result_card word_keys_new word_keys_card)
  have sp: "split_addr (of_nat k * 4) KArm32 = Inr (of_nat k * 4, 15)" using n by (intro split_word) simp
  show ?case
  proof (rule add_in_use [OF Suc.prems(1) sp], unfold k)
    fix h1
    assume a: "add_breakpoint_at (of_nat k * 4) Match KArm32 h = Inr (Inr (), h1)" "in_use n h1"
      "Inr () = (Inr () :: breakpoint_error + unit) \<Longrightarrow> hw_keys h1 = insert (hw_key Match (of_nat k * 4, 15)) (hw_keys h)"
    have "hw_keys h1 = word_keys (Suc k)"
      using a(3) Suc.prems(2) by (auto simp: word_keys_def lessThan_Suc)
    moreover have "d = n - Suc k" "Suc k \<le> n" using Suc.hyps(2) n(2) by simp_all
    ultimately obtain h' where "fill_comparators [Suc k..<n] h1 = Inr (Inr h')" "in_use n h'" "hw_keys h' = word_keys n"
      using Suc.hyps(1) [of "Suc k" h1] a(2) by blast
    then show ?thesis using a(1) n(2) by (simp add: upt_conv_Cons test_add_def)
  qed
qed

lemma test_too_many_passes:
  assumes "in_use n h"
  shows "\<exists>h'. test_too_many h = Inr (Inr h') \<and> in_use n h'"
proof (rule reset_fresh [OF assms])
  fix h1
  assume r: "hw_reset h = Inr h1" "fresh n h1"
  then have u: "in_use n h1" "hw_keys h1 = word_keys 0" "unat (num_breakpoints (capabilities h1)) = n"
    by (auto simp: fresh_def word_keys_def in_use_def num_def)
  obtain h2 where f: "fill_comparators [0..<n] h1 = Inr (Inr h2)" "in_use n h2" "hw_keys h2 = word_keys n"
    using fill_from [OF u(1,2)] by auto
  have n: "n \<le> 16" "hw_inv h2" "num h2 = n" using f(2) by (auto simp: in_use_def hw_inv_def hw_wf_def)
  have res: "hw_result (hw_key Match (of_nat n * 4, 15)) h2 = Inl NoSpace"
    using n f(3) by (simp add: hw_result_card word_keys_new word_keys_card)
  have "add_breakpoint_at (of_nat n * 4) Match KArm32 h2 = Inr (Inl NoSpace, h2)"
    by (rule add_in_use [OF f(2) split_word [OF n(1)]]) (simp add: res)
  then have "expect_err NoSpace (of_nat n * 4) KArm32 h2 = Inr h2" by (rule expect_err_ok)
  moreover have "ucast (num_breakpoints (capabilities h1)) = (of_nat n :: u32)" using u(3) by (metis of_nat_unat)
  ultimately show ?thesis using r(1) u(3) f by (simp add: test_too_many_def)
qed

text \<open>
  C14: The repository's hardware test passes on the model, on every board that permits debugging and
  whatever the number of comparators: no assertion fails, no error is returned, and it leaves the
  manager locked with no breakpoint in it.
\<close>
theorem hardware_test_passes:
  assumes "lock_debug dc \<longrightarrow> invasive_debug_enable dc \<and> secure_invasive_debug_enable dc"
    and "rom_address_valid (dbgdrar regs) = Some Valid" and "self_address_valid (dbgdsar regs) = Some Valid"
    and "banks_ok (logic_at (rom_address_value (dbgdrar regs) + self_address_value (dbgdsar regs)))"
  shows "\<exists>h. hardware_test logic_at dc regs m = Inr (Inr h) \<and> locked h \<and> hw_keys h = {}"
proof -
  obtain h dc' regs' where s: "hw_setup logic_at dc regs m = Inr (h, dc', regs', m)" "hw_inv h" "hw_keys h = {}"
    "banks_ok (mmio h)" "unat (num_watchpoints (capabilities h)) \<le> 16"
    using hw_setup_full [where m = m and logic_at = logic_at, OF assms] by blast
  define h0 where "h0 = h\<lparr>mmio := write_lock_access DEBUG_UNLOCK_MAGIC (mmio h)\<rparr>"
  have held: "held h0 i = held h i" and n: "num h0 = num h" for i by (simp_all add: h0_def held_def num_def Let_def)
  have h0: "set_locked False h = Inr h0" "fresh (num h) h0"
    using s(2-5) by (simp_all add: set_locked_def h0_def [symmetric] fresh_def in_use_def n hw_inv_def hw_wf_def
        books_ok_def hw_distinct_def hw_keys_def held banks_ok_def) (simp_all add: h0_def locked_def)
  obtain h1 where h1: "test_normal h0 = Inr (Inr h1)" "fresh (num h) h1" using test_normal_passes [OF h0(2)] by blast
  obtain h2 where h2: "test_halfwords h1 = Inr (Inr h2)" "in_use (num h) h2" using test_halfwords_passes [OF h1(2)] by blast
  obtain h3 where h3: "test_misaligned h2 = Inr (Inr h3)" "in_use (num h) h3" using test_misaligned_passes [OF h2(2)] by blast
  obtain h4 where h4: "test_too_many h3 = Inr (Inr h4)" "in_use (num h) h4" using test_too_many_passes [OF h3(2)] by blast
  obtain h5 where h5: "hw_reset h4 = Inr h5" "fresh (num h) h5" by (rule reset_fresh [OF h4(2)])
  let ?h = "h5\<lparr>mmio := write_lock_access 0 (mmio h5)\<rparr>"
  have l: "locked ?h" by (simp add: locked_def DEBUG_UNLOCK_MAGIC_def)
  have "hw_keys ?h = hw_keys h5" by (simp add: hw_keys_def num_def held_def Let_def)
  then have "hw_keys ?h = {}" using h5(2) by (simp add: fresh_def)
  moreover have "hardware_test logic_at dc regs m = Inr (Inr ?h)"
    using s(1) h0(1) h1(1) h2(1) h3(1) h4(1) h5(1) l by (simp add: hardware_test_def set_locked_def [of True] Let_def)
  ultimately show ?thesis using l by blast
qed

theorem hardware_test_passes_witness:
  "\<exists>h. hardware_test (\<lambda>_. demo_logic) \<lparr>lock_debug = False, invasive_debug_enable = False, secure_invasive_debug_enable = False\<rparr>
       \<lparr>sder = 0, dbgdidr = 0x35000000, dbgdrar = 0xf8800003, dbgdsar = 0x00010003\<rparr> demo_vmsa = Inr (Inr h) \<and> locked h"
proof -
  have v: "field 0 2 0xf8800003 = 3" "field 0 2 0x00010003 = 3"
    by (simp_all add: field_def mask_eq_exp_minus_1)
  have b: "banks_ok demo_logic" by (simp add: banks_ok_def demo_logic_def)
  show ?thesis
    using hardware_test_passes [of "\<lparr>lock_debug = False, invasive_debug_enable = False, secure_invasive_debug_enable = False\<rparr>"
        "\<lparr>sder = 0, dbgdidr = 0x35000000, dbgdrar = 0xf8800003, dbgdsar = 0x00010003\<rparr>" "\<lambda>_. demo_logic" demo_vmsa]
    by (auto simp: rom_address_valid_def self_address_valid_def debug_valid_of_def v b)
qed

end
