(* ===== verification/Exception_Entry.thy ===== *)
theory Exception_Entry
  imports Saved_Context
begin

text \<open>
  \<open>src/src/exceptions/overlay.s\<close>: the exception handlers the debugger puts before those of the system. They are
  assembly; each instruction is a step on the registers and the memory it touches, with the banked registers of the
  modes involved. \<open>debug_event_context\<close> is laid out here as \<open>repr(C)\<close> does (\<open>src/src/exceptions/mod.rs\<close>).
  The function called for an event, FreeRTOS's \<open>xTaskResumeAll\<close> and the interrupt poll are parameters.
\<close>

section \<open>The processor\<close>

text \<open>\<open>core_regs\<close> are r0 to r12, \<open>fp_regs\<close> d0 to d31; \<open>usr\<close> is the bank of user and system mode.\<close>

record cpu =
  core_regs :: "u32 list"
  usr_sp :: u32
  usr_lr :: u32
  abt_sp :: u32
  abt_lr :: u32
  abt_spsr :: u32
  irq_sp :: u32
  irq_lr :: u32
  cur_psr :: u32
  cur_pc :: u32
  fp_status :: u32
  fp_regs :: "u64 list"
  ram :: memory

definition wf_cpu :: "cpu \<Rightarrow> bool" where
  "wf_cpu s \<longleftrightarrow> length (core_regs s) = 13 \<and> length (fp_regs s) = 32"

abbreviation words :: "u32 list \<Rightarrow> u8 list" where "words ws \<equiv> concat (map (le_bytes 4) ws)"
abbreviation dwords :: "u64 list \<Rightarrow> u8 list" where "dwords ds \<equiv> concat (map (le_bytes 8) ds)"

definition MODE_SYS :: u32 where "MODE_SYS = 31"
definition MODE_ABT :: u32 where "MODE_ABT = 23"

definition set_mode :: "u32 \<Rightarrow> u32 \<Rightarrow> u32" where
  "set_mode mode psr = with_field 0 5 mode psr"

definition set_r :: "nat \<Rightarrow> u32 \<Rightarrow> cpu \<Rightarrow> cpu" where
  "set_r i v s = s\<lparr>core_regs := (core_regs s)[i := v]\<rparr>"

text \<open>Pushing and popping in abort mode; the lowest register is at the lowest address.\<close>

definition push_abt :: "u8 list \<Rightarrow> cpu \<Rightarrow> cpu" where
  "push_abt bs s =
     (let sp = abt_sp s - of_nat (length bs) in s\<lparr>abt_sp := sp, ram := store (ram s) sp bs\<rparr>)"

definition top_abt :: "nat \<Rightarrow> cpu \<Rightarrow> u8 list" where
  "top_abt n s = load (ram s) (abt_sp s) n"

definition drop_abt :: "nat \<Rightarrow> cpu \<Rightarrow> cpu" where
  "drop_abt n s = s\<lparr>abt_sp := abt_sp s + of_nat n\<rparr>"

definition compare_flags :: "u32 \<Rightarrow> u32 \<Rightarrow> u32 \<Rightarrow> u32" where
  "compare_flags a b psr =
     with_bit 31 (bit (a - b) 31) (with_bit 30 (a = b) (with_bit 29 (b \<le> a)
       (with_bit 28 (bit ((a XOR b) AND (a XOR (a - b))) 31) psr)))"

section \<open>Saving\<close>

definition save_context :: "cpu \<Rightarrow> cpu" where
  "save_context s =
     (let s = push_abt (words (core_regs s @ [abt_lr s])) s;
          s = push_abt (dwords (drop 16 (fp_regs s))) s;
          s = push_abt (dwords (take 16 (fp_regs s))) s;
          s = set_r 0 (fp_status s) s;
          s = push_abt (words [core_regs s ! 0]) s;
          s = s\<lparr>ram := store (ram s) (abt_sp s - 8) (words [usr_sp s, usr_lr s])\<rparr>;
          s = s\<lparr>abt_sp := abt_sp s - 8\<rparr>;
          s = set_r 0 (abt_spsr s) s
      in push_abt (words [core_regs s ! 0]) s)"

section \<open>Restoring\<close>

text \<open>Resuming the scheduler in system mode, on the program's own stack.\<close>

definition to_program_stack :: "cpu \<Rightarrow> cpu" where
  "to_program_stack s =
     (let s = s\<lparr>cur_psr := set_mode MODE_SYS (cur_psr s)\<rparr>;
          s = set_r 0 (usr_sp s) s;
          s = s\<lparr>usr_sp := usr_sp s AND NOT 7\<rparr>
      in s\<lparr>usr_sp := usr_sp s - 8, ram := store (ram s) (usr_sp s - 8) (words [core_regs s ! 0, usr_lr s])\<rparr>)"

definition back_to_abort_mode :: "cpu \<Rightarrow> cpu" where
  "back_to_abort_mode s =
     (let popped = load (ram s) (usr_sp s) 8;
          s = set_r 0 (le_word (take 4 popped)) s;
          s = s\<lparr>usr_lr := le_word (drop 4 popped), usr_sp := usr_sp s + 8\<rparr>;
          s = s\<lparr>usr_sp := core_regs s ! 0\<rparr>
      in s\<lparr>cur_psr := set_mode MODE_ABT (cur_psr s)\<rparr>)"

definition resume_scheduler :: "(cpu \<Rightarrow> cpu) \<Rightarrow> cpu \<Rightarrow> cpu" where
  "resume_scheduler resume_all s = back_to_abort_mode (resume_all (to_program_stack s))"

text \<open>An exception return goes to an address of the instruction set it returns to.\<close>

definition return_address :: "u32 \<Rightarrow> u32 \<Rightarrow> u32" where
  "return_address psr pc = (if ps_thumb psr then pc AND NOT 1 else pc AND NOT 3)"

text \<open>The last instructions: everything comes off the stack and the exception returns.\<close>

definition return_from_event :: "cpu \<Rightarrow> cpu" where
  "return_from_event s =
     (let s = set_r 0 (le_word (top_abt 4 s)) s;
          s = drop_abt 4 s;
          s = s\<lparr>fp_status := core_regs s ! 0\<rparr>;
          low = word_list 8 16 (top_abt 128 s);
          s = drop_abt 128 s;
          high = word_list 8 16 (top_abt 128 s);
          s = drop_abt 128 s;
          s = s\<lparr>fp_regs := low @ high\<rparr>;
          popped = word_list 4 14 (top_abt 56 s);
          s = drop_abt 56 s
      in s\<lparr>core_regs := take 13 popped, cur_psr := abt_spsr s,
           cur_pc := return_address (abt_spsr s) (popped ! 13)\<rparr>)"

definition restore_context :: "bool \<Rightarrow> (cpu \<Rightarrow> cpu) \<Rightarrow> cpu \<Rightarrow> cpu" where
  "restore_context with_freertos resume_all s =
     (let s = s\<lparr>cur_psr := with_bit 7 True (cur_psr s)\<rparr>;
          s = set_r 1 (le_word (top_abt 4 s)) s;
          s = drop_abt 4 s;
          s = s\<lparr>abt_spsr := core_regs s ! 1\<rparr>;
          banked = top_abt 8 s;
          s = s\<lparr>usr_sp := le_word (take 4 banked), usr_lr := le_word (drop 4 banked)\<rparr>;
          s = drop_abt 8 s;
          s = (if with_freertos \<and> core_regs s ! 0 \<noteq> 0 then resume_scheduler resume_all s else s)
      in return_from_event s)"

definition catch_debug_event :: "bool \<Rightarrow> (cpu \<Rightarrow> cpu) \<Rightarrow> (cpu \<Rightarrow> cpu) \<Rightarrow> cpu \<Rightarrow> cpu" where
  "catch_debug_event with_freertos handle_event resume_all s =
     (let s = save_context s;
          s = set_r 0 (abt_sp s) s
      in restore_context with_freertos resume_all (handle_event s))"

section \<open>The stack of abort mode\<close>

text \<open>
  What \<open>install_vectors\<close> does to the processor: the banked stack pointer of abort mode is put at the end of a static
  region, whose place is a parameter, and system mode goes on.
\<close>

definition ABORT_STACK_SIZE :: nat where "ABORT_STACK_SIZE = 0x8000"

definition use_abort_stack :: "u32 \<Rightarrow> cpu \<Rightarrow> cpu" where
  "use_abort_stack abort_stack s =
     (let s = s\<lparr>cur_psr := set_mode MODE_ABT (cur_psr s)\<rparr>;
          s = s\<lparr>abt_sp := abort_stack + of_nat ABORT_STACK_SIZE\<rparr>
      in s\<lparr>cur_psr := set_mode MODE_SYS (cur_psr s)\<rparr>)"

text \<open>Everything pushed for an event, and 32 KB less that for the functions called, is inside the region.\<close>

lemma abort_stack_room:
  assumes "n \<le> ABORT_STACK_SIZE" and "in_range (abt_sp (use_abort_stack abort_stack s) - of_nat n) n x"
  shows "in_range abort_stack ABORT_STACK_SIZE x"
proof -
  obtain i where i: "i < n" "x = abt_sp (use_abort_stack abort_stack s) - of_nat n + of_nat i"
    using assms(2) by (rule in_rangeE)
  have "of_nat ABORT_STACK_SIZE - of_nat n + of_nat i = (of_nat (ABORT_STACK_SIZE - n + i) :: u32)"
    using assms(1) by (simp add: of_nat_diff)
  then have "x = abort_stack + of_nat (ABORT_STACK_SIZE - n + i)"
    using i(2) by (simp add: use_abort_stack_def Let_def algebra_simps)
  moreover have "ABORT_STACK_SIZE - n + i < ABORT_STACK_SIZE" using i(1) assms(1) by simp
  moreover have "ABORT_STACK_SIZE \<le> 2 ^ 32" by (simp add: ABORT_STACK_SIZE_def)
  ultimately show ?thesis by (simp only: in_range_offset)
qed

section \<open>The abort handlers\<close>

text \<open>
  What the handlers of both aborts do: look at the fault status, and pass on every abort that is not a debug event.
  \<open>offset\<close> is what the processor has added to the return address.
\<close>

definition abort_handler ::
  "u32 \<Rightarrow> u32 \<Rightarrow> u32 \<Rightarrow> bool \<Rightarrow> (cpu \<Rightarrow> cpu) \<Rightarrow> (cpu \<Rightarrow> cpu) \<Rightarrow> cpu \<Rightarrow> cpu" where
  "abort_handler fault_status original offset with_freertos handle_event resume_all s =
     (let s = push_abt (words [core_regs s ! 0]) s;
          s = set_r 0 fault_status s;
          s = set_r 0 (core_regs s ! 0 AND 15) s;
          s = s\<lparr>cur_psr := compare_flags (core_regs s ! 0) 2 (cur_psr s)\<rparr>;
          s = set_r 0 (le_word (top_abt 4 s)) s;
          s = drop_abt 4 s
      in if \<not> bit (cur_psr s) 30 then s\<lparr>cur_pc := original\<rparr>
         else catch_debug_event with_freertos handle_event resume_all (s\<lparr>abt_lr := abt_lr s - offset\<rparr>))"

definition prefetch_abort_handler ::
  "u32 \<Rightarrow> vectors \<Rightarrow> bool \<Rightarrow> (cpu \<Rightarrow> cpu) \<Rightarrow> (cpu \<Rightarrow> cpu) \<Rightarrow> cpu \<Rightarrow> cpu" where
  "prefetch_abort_handler ifsr v = abort_handler ifsr (original_vector_addresses v ! 3) 4"

definition data_abort_handler ::
  "u32 \<Rightarrow> vectors \<Rightarrow> bool \<Rightarrow> (cpu \<Rightarrow> cpu) \<Rightarrow> (cpu \<Rightarrow> cpu) \<Rightarrow> cpu \<Rightarrow> cpu" where
  "data_abort_handler dfsr v = abort_handler dfsr (original_vector_addresses v ! 4) 8"

text \<open>
  The processor takes an abort of the instruction at \<open>cur_pc\<close>: return address and status go to the bank of abort
  mode, interrupts are masked and execution continues in ARM state.
\<close>

definition take_abort :: "u32 \<Rightarrow> cpu \<Rightarrow> cpu" where
  "take_abort offset s =
     s\<lparr>abt_lr := cur_pc s + offset, abt_spsr := cur_psr s,
       cur_psr := set_mode MODE_ABT (with_bit 5 False (with_bit 7 True (with_bit 8 True (cur_psr s))))\<rparr>"

section \<open>Interrupts\<close>

text \<open>The hook keeps what a called function may change and goes on to the original handler.\<close>

definition push_irq :: "u8 list \<Rightarrow> cpu \<Rightarrow> cpu" where
  "push_irq bs s =
     (let sp = irq_sp s - of_nat (length bs) in s\<lparr>irq_sp := sp, ram := store (ram s) sp bs\<rparr>)"

definition top_irq :: "nat \<Rightarrow> cpu \<Rightarrow> u8 list" where
  "top_irq n s = load (ram s) (irq_sp s) n"

definition drop_irq :: "nat \<Rightarrow> cpu \<Rightarrow> cpu" where
  "drop_irq n s = s\<lparr>irq_sp := irq_sp s + of_nat n\<rparr>"

definition irq_save :: "cpu \<Rightarrow> cpu" where
  "irq_save s =
     (let s = push_irq (words (take 4 (core_regs s) @ [core_regs s ! 12, irq_lr s])) s;
          s = push_irq (dwords (drop 16 (fp_regs s))) s;
          s = push_irq (dwords (take 8 (fp_regs s))) s;
          s = set_r 0 (fp_status s) s
      in push_irq (words (take 2 (core_regs s))) s)"

definition irq_restore :: "cpu \<Rightarrow> cpu" where
  "irq_restore s =
     (let popped = word_list 4 2 (top_irq 8 s);
          s = drop_irq 8 (set_r 0 (popped ! 0) (set_r 1 (popped ! 1) s));
          s = s\<lparr>fp_status := core_regs s ! 0\<rparr>;
          low = word_list 8 8 (top_irq 64 s);
          s = drop_irq 64 (s\<lparr>fp_regs := low @ drop 8 (fp_regs s)\<rparr>);
          high = word_list 8 16 (top_irq 128 s);
          s = drop_irq 128 (s\<lparr>fp_regs := take 16 (fp_regs s) @ high\<rparr>);
          popped = word_list 4 6 (top_irq 24 s)
      in drop_irq 24 (s\<lparr>core_regs := (take 4 popped @ drop 4 (core_regs s))[12 := popped ! 4], irq_lr := popped ! 5\<rparr>))"

definition irq_handler :: "vectors \<Rightarrow> (cpu \<Rightarrow> cpu) \<Rightarrow> cpu \<Rightarrow> cpu" where
  "irq_handler v poll s = (irq_restore (poll (irq_save s)))\<lparr>cur_pc := original_vector_addresses v ! 6\<rparr>"

section \<open>The vector table\<close>

datatype exception = Reset | UndefinedInstr | SupervisorCall | PrefetchAbort | DataAbort | NotUsed | Irq | Fiq

datatype vector_target = Original u32 | PrefetchHandler | DataHandler | IrqHandler

definition overlay_vector :: "vectors \<Rightarrow> exception \<Rightarrow> vector_target" where
  "overlay_vector v e =
     (let original = (\<lambda>i. Original (original_vector_addresses v ! i)) in
      case e of
        Reset \<Rightarrow> original 0
      | UndefinedInstr \<Rightarrow> original 1
      | SupervisorCall \<Rightarrow> original 2
      | PrefetchAbort \<Rightarrow> PrefetchHandler
      | DataAbort \<Rightarrow> DataHandler
      | NotUsed \<Rightarrow> IrqHandler
      | Irq \<Rightarrow> IrqHandler
      | Fiq \<Rightarrow> original 7)"

section \<open>The layout of a context\<close>

definition FRAME_SIZE :: nat where "FRAME_SIZE = 328"

definition context_bytes :: "debug_event_context \<Rightarrow> u8 list" where
  "context_bytes c =
     words [cpsr c] @ words [stack_pointer c, link_register c] @ words [fpscr c] @ dwords (take 16 (vfp_registers c)) @
     dwords (drop 16 (vfp_registers c)) @ words (registers c @ [program_counter c])"

definition context_of :: "u8 list \<Rightarrow> debug_event_context" where
  "context_of bs =
     \<lparr>cpsr = le_word (take 4 bs), stack_pointer = le_word (take 4 (drop 4 bs)), link_register = le_word (take 4 (drop 8 bs)),
      fpscr = le_word (take 4 (drop 12 bs)), vfp_registers = word_list 8 32 (drop 16 bs),
      registers = word_list 4 13 (drop 272 bs), program_counter = le_word (take 4 (drop 324 bs))\<rparr>"

text \<open>The program that was interrupted, and the one that runs.\<close>

definition interrupted :: "cpu \<Rightarrow> debug_event_context" where
  "interrupted s =
     \<lparr>cpsr = abt_spsr s, stack_pointer = usr_sp s, link_register = usr_lr s, fpscr = fp_status s,
      vfp_registers = fp_regs s, registers = core_regs s, program_counter = abt_lr s\<rparr>"

definition running :: "cpu \<Rightarrow> debug_event_context" where
  "running s =
     \<lparr>cpsr = cur_psr s, stack_pointer = usr_sp s, link_register = usr_lr s, fpscr = fp_status s,
      vfp_registers = fp_regs s, registers = core_regs s, program_counter = cur_pc s\<rparr>"

end
