(* ===== verification/Exception_Properties.thy ===== *)
theory Exception_Properties
  imports Exception_Entry
begin

text \<open>
  What the handlers of \<open>overlay.s\<close> keep: the stack frame is the context the Rust side reads, what it leaves there
  is what the program goes on with, and aborts and interrupts that are not the debugger's are passed on unchanged.
\<close>

section \<open>The frame\<close>

lemma store_append:
  assumes "length (cs @ bs) \<le> 2 ^ 32"
  shows "store (store m (a + of_nat (length cs)) bs) a cs = store m a (cs @ bs)"
proof
  fix x
  show "store (store m (a + of_nat (length cs)) bs) a cs x = store m a (cs @ bs) x"
  proof (cases "in_range a (length cs) x")
    case True
    then have "in_range a (length (cs @ bs)) x" by (simp add: in_range_def)
    then show ?thesis using True by (simp add: store_in nth_append in_range_def)
  next
    case False
    let ?k = "unat (x - a)"
    have k: "length cs \<le> ?k" using False by (simp add: in_range_def)
    have lc: "length cs < 2 ^ 32" using k unat_u32_less [of "x - a"] by simp
    have "unat (x - (a + of_nat (length cs))) = ?k - length cs"
    proof -
      have e: "x - (a + of_nat (length cs)) = (x - a) - of_nat (length cs)" by simp
      have n: "unat (of_nat (length cs) :: u32) = length cs" using lc by (simp add: unat_of_nat)
      show ?thesis unfolding e by (subst unat_sub) (use k n in \<open>simp_all add: word_le_nat_alt\<close>)
    qed
    then show ?thesis using False k by (auto simp: store_def in_range_def nth_append)
  qed
qed

lemma push_push:
  assumes "length cs + length bs \<le> 2 ^ 32"
  shows "push_abt cs (push_abt bs s) = push_abt (cs @ bs) s"
  using store_append [of cs bs "ram s" "abt_sp s - of_nat (length (cs @ bs))"] assms
  by (simp add: push_abt_def Let_def algebra_simps)

lemma load_part: "k + n \<le> N \<Longrightarrow> load m (a + of_nat k) n = take n (drop k (load m a N))"
  by (rule nth_equalityI) (auto simp: load_def add.assoc)

lemma push_set_r: "push_abt bs (set_r i v s) = set_r i v (push_abt bs s)"
  by (simp add: push_abt_def set_r_def Let_def)

lemma push_fields [simp]:
  "core_regs (push_abt bs s) = core_regs s" "usr_sp (push_abt bs s) = usr_sp s" "usr_lr (push_abt bs s) = usr_lr s"
  "abt_lr (push_abt bs s) = abt_lr s" "abt_spsr (push_abt bs s) = abt_spsr s" "cur_psr (push_abt bs s) = cur_psr s"
  "fp_status (push_abt bs s) = fp_status s" "fp_regs (push_abt bs s) = fp_regs s" "irq_sp (push_abt bs s) = irq_sp s"
  "irq_lr (push_abt bs s) = irq_lr s" "cur_pc (push_abt bs s) = cur_pc s"
  by (simp_all add: push_abt_def Let_def)

lemma set_r_fields [simp]:
  "core_regs (set_r i v s) = (core_regs s)[i := v]" "usr_sp (set_r i v s) = usr_sp s" "usr_lr (set_r i v s) = usr_lr s"
  "abt_sp (set_r i v s) = abt_sp s" "abt_lr (set_r i v s) = abt_lr s" "abt_spsr (set_r i v s) = abt_spsr s"
  "cur_psr (set_r i v s) = cur_psr s" "fp_status (set_r i v s) = fp_status s" "fp_regs (set_r i v s) = fp_regs s"
  "ram (set_r i v s) = ram s" "irq_sp (set_r i v s) = irq_sp s" "irq_lr (set_r i v s) = irq_lr s" "cur_pc (set_r i v s) = cur_pc s"
  by (simp_all add: set_r_def)

lemma drop_fields [simp]:
  "core_regs (drop_abt n s) = core_regs s" "usr_sp (drop_abt n s) = usr_sp s" "usr_lr (drop_abt n s) = usr_lr s"
  "abt_sp (drop_abt n s) = abt_sp s + of_nat n" "abt_lr (drop_abt n s) = abt_lr s" "abt_spsr (drop_abt n s) = abt_spsr s"
  "cur_psr (drop_abt n s) = cur_psr s" "fp_status (drop_abt n s) = fp_status s" "fp_regs (drop_abt n s) = fp_regs s"
  "ram (drop_abt n s) = ram s" "irq_sp (drop_abt n s) = irq_sp s" "irq_lr (drop_abt n s) = irq_lr s" "cur_pc (drop_abt n s) = cur_pc s"
  by (simp_all add: drop_abt_def)

text \<open>The pushes of \<open>catch_debug_event\<close> are one store of the context's bytes.\<close>

lemma length_context_bytes: "wf_context c \<Longrightarrow> length (context_bytes c) = FRAME_SIZE"
  by (simp add: context_bytes_def wf_context_def FRAME_SIZE_def)

lemma save_context_eq:
  assumes "wf_cpu s"
  shows "save_context s = set_r 0 (abt_spsr s) (push_abt (context_bytes (interrupted s)) s)"
proof -
  have l: "length (core_regs s) = 13" "length (fp_regs s) = 32" using assms by (simp_all add: wf_cpu_def)
  have stm: "s\<lparr>ram := store (ram s) (abt_sp s - 8) (words [a, b]), abt_sp := abt_sp s - 8\<rparr> = push_abt (words [a, b]) s" for s :: cpu and a b
    by (simp add: push_abt_def Let_def)
  let ?regs = "words (core_regs s @ [abt_lr s])"
  have "save_context s = push_abt (words [abt_spsr s]) (set_r 0 (abt_spsr s) (push_abt (words [usr_sp s, usr_lr s])
      (push_abt (words [fp_status s]) (set_r 0 (fp_status s) (push_abt (dwords (take 16 (fp_regs s)))
        (push_abt (dwords (drop 16 (fp_regs s))) (push_abt ?regs s)))))))"
    unfolding save_context_def Let_def using l stm by simp
  also have "\<dots> = set_r 0 (abt_spsr s) (push_abt (words [abt_spsr s] @ words [usr_sp s, usr_lr s] @ words [fp_status s] @
      dwords (take 16 (fp_regs s)) @ dwords (drop 16 (fp_regs s)) @ ?regs) s)"
  proof -
    have r: "set_r 0 a (set_r 0 b s) = set_r 0 a s" for a b s by (simp add: set_r_def)
    show ?thesis unfolding push_set_r r using l by (simp add: push_push)
  qed
  finally show ?thesis by (simp add: context_bytes_def interrupted_def)
qed

lemma word_list_append:
  "word_list n (j + k) bs = word_list n j bs @ word_list n k (drop (n * j) bs)"
  by (induction j arbitrary: bs) (simp_all add: add.commute)

text \<open>Any bytes of a frame are those of the context they are read as, and the reverse.\<close>

lemma context_of_bytes: "wf_context c \<Longrightarrow> context_of (context_bytes c) = c"
proof -
  assume wf: "wf_context c"
  have l: "length (registers c) = 13" "length (vfp_registers c) = 32" using wf by (simp_all add: wf_context_def)
  let ?d = "dwords (vfp_registers c)" and ?r = "words (registers c)"
  have d: "dwords (take 16 (vfp_registers c)) @ dwords (drop 16 (vfp_registers c)) = ?d"
    by (metis append_take_drop_id concat_append map_append)
  have b: "context_bytes c = le_bytes 4 (cpsr c) @ le_bytes 4 (stack_pointer c) @ le_bytes 4 (link_register c) @
      le_bytes 4 (fpscr c) @ ?d @ ?r @ le_bytes 4 (program_counter c)"
    unfolding context_bytes_def using d by simp
  have "word_list 8 32 (?d @ rest) = vfp_registers c" for rest
    using word_list_bytes [of 8 "vfp_registers c" rest] l by simp
  moreover have "word_list 4 13 (?r @ rest) = registers c" for rest
    using word_list_bytes [of 4 "registers c" rest] l by simp
  ultimately show ?thesis unfolding b context_of_def by (simp add: l)
qed


lemma frame_parts:
  assumes "load m a FRAME_SIZE = context_bytes c" and "wf_context c"
  shows "load m a 4 = le_bytes 4 (cpsr c)"
    and "load m (a + 4) 8 = words [stack_pointer c, link_register c]"
    and "load m (a + 12) 4 = le_bytes 4 (fpscr c)"
    and "load m (a + 16) 128 = dwords (take 16 (vfp_registers c))"
    and "load m (a + 144) 128 = dwords (drop 16 (vfp_registers c))"
    and "load m (a + 272) 56 = words (registers c @ [program_counter c])"
proof -
  have l: "length (registers c) = 13" "length (vfp_registers c) = 32" using assms(2) by (simp_all add: wf_context_def)
  note part = load_part [where m = m and a = a and N = FRAME_SIZE, unfolded assms(1), unfolded FRAME_SIZE_def context_bytes_def]
  show "load m a 4 = le_bytes 4 (cpsr c)" using part [of 0 4] by simp
  show "load m (a + 4) 8 = words [stack_pointer c, link_register c]" using part [of 4 8] by simp
  show "load m (a + 12) 4 = le_bytes 4 (fpscr c)" using part [of 12 4] by simp
  show "load m (a + 16) 128 = dwords (take 16 (vfp_registers c))" using part [of 16 128] l by simp
  show "load m (a + 144) 128 = dwords (drop 16 (vfp_registers c))" using part [of 144 128] l by simp
  show "load m (a + 272) 56 = words (registers c @ [program_counter c])" using part [of 272 56] l by simp
qed

section \<open>The way back\<close>

text \<open>Everything but the program status and the banked registers is still in the frame.\<close>

definition frame_rest :: "debug_event_context \<Rightarrow> cpu \<Rightarrow> bool" where
  "frame_rest c s \<longleftrightarrow> load (ram s) (abt_sp s) 4 = le_bytes 4 (fpscr c) \<and>
     load (ram s) (abt_sp s + 4) 128 = dwords (take 16 (vfp_registers c)) \<and>
     load (ram s) (abt_sp s + 132) 128 = dwords (drop 16 (vfp_registers c)) \<and>
     load (ram s) (abt_sp s + 260) 56 = words (registers c @ [program_counter c])"

lemma word_list_exact:
  assumes "\<And>w :: 'a::len word. le_word (le_bytes n w) = w" and "k = length ws"
  shows "word_list n k (concat (map (le_bytes n) ws)) = (ws :: 'a word list)"
  using word_list_bytes [OF assms(1), of ws "[]"] assms(2) by simp

lemma return_from_event_eq:
  assumes "frame_rest c s" and "wf_context c" and "core_regs s \<noteq> []"
  shows "return_from_event s =
     s\<lparr>core_regs := registers c, fp_status := fpscr c, fp_regs := vfp_registers c, cur_psr := abt_spsr s,
       cur_pc := return_address (abt_spsr s) (program_counter c), abt_sp := abt_sp s + 316\<rparr>"
proof -
  have l: "length (registers c) = 13" "length (vfp_registers c) = 32" using assms(2) by (simp_all add: wf_context_def)
  have m: "load (ram s) (abt_sp s) 4 = le_bytes 4 (fpscr c)"
    "load (ram s) (abt_sp s + 4) 128 = dwords (take 16 (vfp_registers c))"
    "load (ram s) (abt_sp s + 132) 128 = dwords (drop 16 (vfp_registers c))"
    "load (ram s) (abt_sp s + 260) 56 = words (registers c @ [program_counter c])"
    using assms(1) by (simp_all add: frame_rest_def)
  have low: "word_list 8 16 (dwords (take 16 (vfp_registers c))) = take 16 (vfp_registers c)"
    by (rule word_list_exact) (use l in simp_all)
  have high: "word_list 8 16 (dwords (drop 16 (vfp_registers c))) = drop 16 (vfp_registers c)"
    by (rule word_list_exact) (use l in simp_all)
  have rs: "word_list 4 14 (words (registers c @ [program_counter c])) = registers c @ [program_counter c]"
    by (rule word_list_exact) (use l in simp_all)
  show ?thesis
    unfolding return_from_event_def Let_def top_abt_def
    using assms(3) l by (simp add: drop_abt_def set_r_def m low high rs add.assoc nth_append del: map_append concat_append)
qed

text \<open>
  \<open>xTaskResumeAll\<close> as the code relies on it: a function that keeps the stack it is called on, the stack and the saved
  status of abort mode and what lies on both stacks.
\<close>

definition resumes :: "(cpu \<Rightarrow> cpu) \<Rightarrow> bool" where
  "resumes g \<longleftrightarrow> (\<forall>s. core_regs (g s) \<noteq> [] \<and> usr_sp (g s) = usr_sp s \<and> abt_sp (g s) = abt_sp s \<and> abt_spsr (g s) = abt_spsr s \<and>
     (\<forall>x. in_range (abt_sp s) 316 x \<or> in_range (usr_sp s) 8 x \<longrightarrow> ram (g s) x = ram s x))"

lemma resume_scheduler_keeps:
  assumes "resumes g" and "core_regs s \<noteq> []" and "apart ((usr_sp s AND NOT 7) - 8) 8 (abt_sp s) 316"
  shows "usr_sp (resume_scheduler g s) = usr_sp s" and "usr_lr (resume_scheduler g s) = usr_lr s"
    and "abt_sp (resume_scheduler g s) = abt_sp s" and "abt_spsr (resume_scheduler g s) = abt_spsr s"
    and "in_range (abt_sp s) 316 x \<Longrightarrow> ram (resume_scheduler g s) x = ram s x"
    and "core_regs (resume_scheduler g s) \<noteq> []"
proof -
  let ?sp = "(usr_sp s AND NOT 7) - 8"
  define s1 where "s1 = s\<lparr>cur_psr := set_mode MODE_SYS (cur_psr s), core_regs := (core_regs s)[0 := usr_sp s], usr_sp := ?sp,
    ram := store (ram s) ?sp (words [usr_sp s, usr_lr s])\<rparr>"
  have g: "core_regs (g s1) \<noteq> []" "usr_sp (g s1) = ?sp" "abt_sp (g s1) = abt_sp s" "abt_spsr (g s1) = abt_spsr s"
    "\<And>x. in_range (abt_sp s) 316 x \<or> in_range ?sp 8 x \<Longrightarrow> ram (g s1) x = ram s1 x"
    using assms(1) by (auto simp: resumes_def s1_def)
  have p: "load (ram (g s1)) ?sp 8 = words [usr_sp s, usr_lr s]"
  proof -
    have "load (ram (g s1)) ?sp 8 = load (ram s1) ?sp 8" by (rule load_cong) (use g(5) in simp_all)
    also have "\<dots> = words [usr_sp s, usr_lr s]" unfolding s1_def by (simp add: load_store_same)
    finally show ?thesis .
  qed
  have "to_program_stack s = s1" using assms(2) by (simp add: to_program_stack_def Let_def set_r_def s1_def)
  then have r: "resume_scheduler g s = (g s1)\<lparr>core_regs := (core_regs (g s1))[0 := usr_sp s], usr_lr := usr_lr s,
      usr_sp := usr_sp s, cur_psr := set_mode MODE_ABT (cur_psr (g s1))\<rparr>"
    using g(1,2) p by (simp add: resume_scheduler_def back_to_abort_mode_def Let_def set_r_def)
  show "usr_sp (resume_scheduler g s) = usr_sp s" "usr_lr (resume_scheduler g s) = usr_lr s"
    "abt_sp (resume_scheduler g s) = abt_sp s" "abt_spsr (resume_scheduler g s) = abt_spsr s"
    "core_regs (resume_scheduler g s) \<noteq> []"
    using g unfolding r by simp_all
  show "ram (resume_scheduler g s) x = ram s x" if x: "in_range (abt_sp s) 316 x"
  proof -
    have "\<not> in_range ?sp 8 x" using apart_disjoint [OF assms(3)] x by blast
    then show ?thesis using g(5) x unfolding r by (simp add: s1_def store_out)
  qed
qed

lemma unat_neg_u32: "d \<noteq> 0 \<Longrightarrow> unat (- d :: u32) = 2 ^ 32 - unat d"
proof -
  assume "d \<noteq> 0"
  then have "unat d \<noteq> 0" by (simp only: unat_eq_0 not_False_eq_True)
  then show ?thesis using unat_sub_if' [of 0 d] by simp
qed

lemma apart_drop:
  assumes "apart u n a (m + k)" and "0 < k"
  shows "apart u n (a + of_nat m) k"
proof -
  define d where "d = u - a"
  define e where "e = d - of_nat m"
  have w: "a - u = - d" "a + of_nat m - u = - e" "u - (a + of_nat m) = e" by (simp_all add: d_def e_def)
  have h: "n \<le> unat (- d)" "m + k \<le> unat d" using assms(1) unfolding apart_def w(1) d_def [symmetric] by blast+
  have "m < 2 ^ 32" using h(2) unat_u32_less [of d] by simp
  then have "unat (of_nat m :: u32) = m" by (simp add: unat_of_nat)
  then have e: "unat e = unat d - m" unfolding e_def by (subst unat_sub) (use h(2) in \<open>simp_all add: word_le_nat_alt\<close>)
  have "d \<noteq> 0" "e \<noteq> 0" using h(2) e assms(2) by auto
  then have neg: "unat (- d) = 2 ^ 32 - unat d" "unat (- e) = 2 ^ 32 - unat e" using unat_neg_u32 by blast+
  have "n \<le> N - (D - m) \<and> k \<le> D - m" if "n \<le> N - D" "m + k \<le> D" for N D :: nat
    using that by (intro conjI) linarith+
  from this [OF h [unfolded neg]] show ?thesis unfolding apart_def w neg e by blast
qed

lemma frame_rest_cong:
  assumes "frame_rest c s" and "abt_sp s' = abt_sp s" and "\<And>x. in_range (abt_sp s) 316 x \<Longrightarrow> ram s' x = ram s x"
  shows "frame_rest c s'"
proof -
  have "load (ram s') (abt_sp s) 316 = load (ram s) (abt_sp s) 316" by (rule load_cong) (use assms(3) in simp_all)
  then have "load (ram s') (abt_sp s + of_nat k) n = load (ram s) (abt_sp s + of_nat k) n" if "k + n \<le> 316" for k n
    using load_part [OF that, of "ram s'"] load_part [OF that, of "ram s"] by simp
  from this [of 0 4] this [of 4 128] this [of 132 128] this [of 260 56]
  show ?thesis using assms(1,2) by (simp add: frame_rest_def)
qed

text \<open>Restoring a frame, whatever the scheduler does meanwhile.\<close>

lemma restore_context_eq:
  assumes "load (ram s) (abt_sp s) FRAME_SIZE = context_bytes c" and "wf_context c" and "wf_cpu s" and "resumes g"
    and "apart ((stack_pointer c AND NOT 7) - 8) 8 (abt_sp s) FRAME_SIZE"
  shows "running (restore_context rtos g s) = c\<lparr>program_counter := return_address (cpsr c) (program_counter c)\<rparr>"
    and "abt_sp (restore_context rtos g s) = abt_sp s + of_nat FRAME_SIZE"
    and "abt_spsr (restore_context rtos g s) = cpsr c"
proof -
  note f = frame_parts [OF assms(1,2)]
  have ne: "length (core_regs s) = 13" using assms(3) by (simp add: wf_cpu_def)
  define s1 where "s1 = s\<lparr>cur_psr := with_bit 7 True (cur_psr s), core_regs := (core_regs s)[1 := cpsr c], abt_spsr := cpsr c,
    usr_sp := stack_pointer c, usr_lr := link_register c, abt_sp := abt_sp s + 12\<rparr>"
  have s1: "frame_rest c s1" using f by (simp add: frame_rest_def s1_def add.assoc)
  have n1: "core_regs s1 \<noteq> []" using ne by (auto simp: s1_def)
  define s2 where "s2 = (if rtos \<and> core_regs s1 ! 0 \<noteq> 0 then resume_scheduler g s1 else s1)"
  have r: "restore_context rtos g s = return_from_event s2"
    unfolding restore_context_def Let_def using f ne
    by (simp add: set_r_def drop_abt_def top_abt_def s2_def s1_def add.assoc)
  have ap: "apart ((usr_sp s1 AND NOT 7) - 8) 8 (abt_sp s1) 316"
    using apart_drop [of "(stack_pointer c AND NOT 7) - 8" 8 "abt_sp s" 12 316] assms(5) by (simp add: s1_def FRAME_SIZE_def)
  note k = resume_scheduler_keeps [OF assms(4) n1 ap]
  have s2: "frame_rest c s2" "core_regs s2 \<noteq> []" "usr_sp s2 = stack_pointer c" "usr_lr s2 = link_register c"
    "abt_sp s2 = abt_sp s + 12" "abt_spsr s2 = cpsr c"
    using frame_rest_cong [OF s1 k(3) k(5)] s1 n1 k unfolding s2_def by (auto simp: s1_def)
  show "running (restore_context rtos g s) = c\<lparr>program_counter := return_address (cpsr c) (program_counter c)\<rparr>"
    "abt_sp (restore_context rtos g s) = abt_sp s + of_nat FRAME_SIZE" "abt_spsr (restore_context rtos g s) = cpsr c"
    unfolding r return_from_event_eq [OF s2(1) assms(2) s2(2)]
    using s2 by (simp_all add: running_def FRAME_SIZE_def)
qed


section \<open>Whole events\<close>

text \<open>
  The function called for an event: it is given the address of the context in r0, may change what is there, and
  answers in r0 whether the scheduler is to be resumed. \<open>f\<close> is what it does to the context, as \<open>handle_debug_event\<close>
  of the debugger does.
\<close>

definition runs_handler :: "(debug_event_context \<Rightarrow> bool \<times> debug_event_context) \<Rightarrow> (cpu \<Rightarrow> cpu) \<Rightarrow> bool" where
  "runs_handler f h \<longleftrightarrow>
     (\<forall>s c. wf_context c \<longrightarrow> load (ram s) (core_regs s ! 0) FRAME_SIZE = context_bytes c \<longrightarrow>
        wf_cpu (h s) \<and> abt_sp (h s) = abt_sp s \<and> (core_regs (h s) ! 0 \<noteq> 0 \<longleftrightarrow> fst (f c)) \<and> wf_context (snd (f c)) \<and>
        load (ram (h s)) (core_regs s ! 0) FRAME_SIZE = context_bytes (snd (f c)))"

lemma wf_interrupted: "wf_cpu s \<Longrightarrow> wf_context (interrupted s)"
  by (simp add: wf_cpu_def wf_context_def interrupted_def)

lemma saved_frame:
  assumes "wf_cpu s"
  shows "load (ram (save_context s)) (abt_sp (save_context s)) FRAME_SIZE = context_bytes (interrupted s)"
    and "abt_sp (save_context s) = abt_sp s - of_nat FRAME_SIZE" and "wf_cpu (save_context s)"
  using assms length_context_bytes [OF wf_interrupted [OF assms]]
  by (simp_all add: save_context_eq push_abt_def Let_def load_store_same FRAME_SIZE_def wf_cpu_def)

lemma catch_debug_event_eq:
  assumes "wf_cpu s" and "runs_handler f h" and "resumes g" and "c = snd (f (interrupted s))"
    and "apart ((stack_pointer c AND NOT 7) - 8) 8 (abt_sp s - of_nat FRAME_SIZE) FRAME_SIZE"
  shows "running (catch_debug_event rtos h g s) = c\<lparr>program_counter := return_address (cpsr c) (program_counter c)\<rparr>"
    and "abt_sp (catch_debug_event rtos h g s) = abt_sp s" and "abt_spsr (catch_debug_event rtos h g s) = cpsr c"
proof -
  let ?s = "set_r 0 (abt_sp (save_context s)) (save_context s)"
  note sv = saved_frame [OF assms(1)]
  have r0: "core_regs ?s ! 0 = abt_sp ?s" using sv(3) by (simp add: wf_cpu_def)
  have h: "wf_cpu (h ?s)" "abt_sp (h ?s) = abt_sp s - of_nat FRAME_SIZE" "wf_context c"
    "load (ram (h ?s)) (abt_sp (h ?s)) FRAME_SIZE = context_bytes c"
    using assms(2) [unfolded runs_handler_def, rule_format, of "interrupted s" ?s] wf_interrupted [OF assms(1)] sv r0 assms(4)
    by simp_all
  have eq: "catch_debug_event rtos h g s = restore_context rtos g (h ?s)" by (simp add: catch_debug_event_def Let_def)
  note r = restore_context_eq [OF h(4,3,1) assms(3) assms(5) [folded h(2)], of rtos]
  show "running (catch_debug_event rtos h g s) = c\<lparr>program_counter := return_address (cpsr c) (program_counter c)\<rparr>"
    "abt_sp (catch_debug_event rtos h g s) = abt_sp s" "abt_spsr (catch_debug_event rtos h g s) = cpsr c"
    unfolding eq r by (simp_all add: h(2))
qed

text \<open>The dispatch on the fault status touches the flags and the word below the stack.\<close>

lemma compare_equal: "bit (compare_flags a b psr) 30 \<longleftrightarrow> a = b"
  by (simp add: compare_flags_def)

lemma abort_handler_eq:
  assumes "wf_cpu s"
  shows "abort_handler status original offset rtos h g s =
     (let t = s\<lparr>cur_psr := compare_flags (status AND 15) 2 (cur_psr s),
                ram := store (ram s) (abt_sp s - 4) (words [core_regs s ! 0])\<rparr> in
      if status AND 15 = 2 then catch_debug_event rtos h g (t\<lparr>abt_lr := abt_lr t - offset\<rparr>)
      else t\<lparr>cur_pc := original\<rparr>)"
proof -
  obtain r rs where r: "core_regs s = r # rs" using assms by (cases "core_regs s") (auto simp: wf_cpu_def)
  have "load (store (ram s) (abt_sp s - 4) (le_bytes 4 r)) (abt_sp s - 4) 4 = le_bytes 4 r" by (simp add: load_store_same)
  with r show ?thesis
    by (cases s) (simp add: abort_handler_def push_abt_def set_r_def drop_abt_def top_abt_def compare_equal Let_def)
qed


lemma taken_abort:
  "interrupted ((take_abort offset s)\<lparr>cur_psr := psr, ram := m, abt_lr := abt_lr (take_abort offset s) - offset\<rparr>) = running s"
  by (simp add: take_abort_def interrupted_def running_def)

lemma abort_event:
  assumes "wf_cpu s" and "status AND 15 = 2" and "runs_handler f h" and "resumes g" and "c = snd (f (running s))"
    and "apart ((stack_pointer c AND NOT 7) - 8) 8 (abt_sp s - of_nat FRAME_SIZE) FRAME_SIZE"
  shows "running (abort_handler status original offset rtos h g (take_abort offset s)) =
      c\<lparr>program_counter := return_address (cpsr c) (program_counter c)\<rparr>"
    and "abt_sp (abort_handler status original offset rtos h g (take_abort offset s)) = abt_sp s"
    and "abt_spsr (abort_handler status original offset rtos h g (take_abort offset s)) = cpsr c"
proof -
  let ?s = "take_abort offset s"
  let ?t = "?s\<lparr>cur_psr := compare_flags 2 2 (cur_psr ?s), ram := store (ram ?s) (abt_sp ?s - 4) (words [core_regs ?s ! 0]),
    abt_lr := abt_lr ?s - offset\<rparr>"
  have wf: "wf_cpu ?s" "wf_cpu ?t" using assms(1) by (simp_all add: wf_cpu_def take_abort_def)
  have sp: "abt_sp ?t = abt_sp s" by (simp add: take_abort_def)
  have "abort_handler status original offset rtos h g ?s = catch_debug_event rtos h g ?t"
    using abort_handler_eq [OF wf(1), of status original offset rtos h g] assms(2) by (simp add: Let_def)
  then show "running (abort_handler status original offset rtos h g ?s) =
      c\<lparr>program_counter := return_address (cpsr c) (program_counter c)\<rparr>"
    "abt_sp (abort_handler status original offset rtos h g ?s) = abt_sp s"
    "abt_spsr (abort_handler status original offset rtos h g ?s) = cpsr c"
    using catch_debug_event_eq [OF wf(2) assms(3,4) _ assms(6) [folded sp], of rtos] assms(5)
    unfolding taken_abort sp by simp_all
qed

section \<open>Interrupts\<close>

lemma push_irq_push:
  assumes "length cs + length bs \<le> 2 ^ 32"
  shows "push_irq cs (push_irq bs s) = push_irq (cs @ bs) s"
  using store_append [of cs bs "ram s" "irq_sp s - of_nat (length (cs @ bs))"] assms
  by (simp add: push_irq_def Let_def algebra_simps)

definition irq_frame :: "cpu \<Rightarrow> u8 list" where
  "irq_frame s =
     words [fp_status s, core_regs s ! 1] @ dwords (take 8 (fp_regs s)) @ dwords (drop 16 (fp_regs s)) @
     words (take 4 (core_regs s) @ [core_regs s ! 12, irq_lr s])"

lemma irq_save_eq:
  assumes "wf_cpu s"
  shows "irq_save s = set_r 0 (fp_status s) (push_irq (irq_frame s) s)"
proof -
  have l: "length (core_regs s) = 13" "length (fp_regs s) = 32" using assms by (simp_all add: wf_cpu_def)
  then obtain a b rs where rs: "core_regs s = a # b # rs" by (cases "core_regs s"; cases "tl (core_regs s)") auto
  have f: "core_regs (push_irq bs t) = core_regs t" "fp_regs (push_irq bs t) = fp_regs t" "fp_status (push_irq bs t) = fp_status t"
    "push_irq bs (set_r i v t) = set_r i v (push_irq bs t)" for bs i v t
    by (simp_all add: push_irq_def set_r_def Let_def)
  show ?thesis
    unfolding irq_save_def Let_def f irq_frame_def using l
    by (simp add: f rs push_irq_push)
qed

text \<open>The poll, as a function called by the procedure call standard.\<close>

definition keeps_callee_saved :: "(cpu \<Rightarrow> cpu) \<Rightarrow> bool" where
  "keeps_callee_saved p \<longleftrightarrow>
     (\<forall>s. wf_cpu s \<longrightarrow> wf_cpu (p s) \<and> irq_sp (p s) = irq_sp s \<and>
        (\<forall>i \<in> {4..11}. core_regs (p s) ! i = core_regs s ! i) \<and> (\<forall>i \<in> {8..15}. fp_regs (p s) ! i = fp_regs s ! i) \<and>
        (\<forall>x. in_range (irq_sp s) 224 x \<longrightarrow> ram (p s) x = ram s x))"

lemma irq_restore_eq:
  assumes "load (ram t) (irq_sp t) 224 = irq_frame s" and "wf_cpu s" and "wf_cpu t"
    and "\<forall>i \<in> {4..11}. core_regs t ! i = core_regs s ! i" and "\<forall>i \<in> {8..15}. fp_regs t ! i = fp_regs s ! i"
  shows "irq_restore t = t\<lparr>core_regs := core_regs s, fp_regs := fp_regs s, fp_status := fp_status s, irq_lr := irq_lr s,
           irq_sp := irq_sp t + 224\<rparr>"
proof -
  have l: "length (core_regs s) = 13" "length (fp_regs s) = 32" "length (core_regs t) = 13" "length (fp_regs t) = 32"
    using assms(2,3) by (simp_all add: wf_cpu_def)
  note part = load_part [where m = "ram t" and a = "irq_sp t" and N = 224, unfolded assms(1), unfolded irq_frame_def]
  have m: "load (ram t) (irq_sp t) 8 = words [fp_status s, core_regs s ! 1]"
    "load (ram t) (irq_sp t + 8) 64 = dwords (take 8 (fp_regs s))"
    "load (ram t) (irq_sp t + 72) 128 = dwords (drop 16 (fp_regs s))"
    "load (ram t) (irq_sp t + 200) 24 = words (take 4 (core_regs s) @ [core_regs s ! 12, irq_lr s])"
    using part [of 0 8] part [of 8 64] part [of 72 128] part [of 200 24] l by simp_all
  have w: "word_list 4 2 (words [fp_status s, core_regs s ! 1]) = [fp_status s, core_regs s ! 1]"
    "word_list 8 8 (dwords (take 8 (fp_regs s))) = take 8 (fp_regs s)"
    "word_list 8 16 (dwords (drop 16 (fp_regs s))) = drop 16 (fp_regs s)"
    "word_list 4 6 (words (take 4 (core_regs s) @ [core_regs s ! 12, irq_lr s])) = take 4 (core_regs s) @ [core_regs s ! 12, irq_lr s]"
    by (rule word_list_exact; use l in simp)+
  have core: "(take 4 (core_regs s) @ drop 4 ((core_regs t)[Suc 0 := a, 0 := b]))[12 := core_regs s ! 12] = core_regs s" for a b
  proof (rule nth_equalityI)
    fix i
    assume "i < length ((take 4 (core_regs s) @ drop 4 ((core_regs t)[Suc 0 := a, 0 := b]))[12 := core_regs s ! 12])"
    then have "i < 4 \<or> i \<in> {4..11} \<or> i = 12" using l by auto
    then show "(take 4 (core_regs s) @ drop 4 ((core_regs t)[Suc 0 := a, 0 := b]))[12 := core_regs s ! 12] ! i = core_regs s ! i"
      using assms(4) l by (auto simp: nth_append nth_list_update)
  qed (use l in simp)
  have fp: "take 8 (fp_regs s) @ take 8 (drop 8 (fp_regs t)) @ drop 16 (fp_regs s) = fp_regs s"
  proof (rule nth_equalityI)
    fix i
    assume "i < length (take 8 (fp_regs s) @ take 8 (drop 8 (fp_regs t)) @ drop 16 (fp_regs s))"
    then have "i < 8 \<or> i \<in> {8..15} \<or> 16 \<le> i \<and> i < 32" using l by auto
    then show "(take 8 (fp_regs s) @ take 8 (drop 8 (fp_regs t)) @ drop 16 (fp_regs s)) ! i = fp_regs s ! i"
      using assms(5) l by (auto simp: nth_append)
  qed (use l in simp)
  show ?thesis
    unfolding irq_restore_def Let_def top_irq_def drop_irq_def set_r_def
    using l fp core
    by (simp add: m w w(1) [unfolded One_nat_def] add.assoc nth_append del: map_append concat_append list.map concat.simps)
qed


section \<open>Preemption\<close>

text \<open>The program state of a task that is switched in.\<close>

definition load_task :: "debug_event_context \<Rightarrow> cpu \<Rightarrow> cpu" where
  "load_task c s =
     s\<lparr>core_regs := registers c, usr_sp := stack_pointer c, usr_lr := link_register c, fp_status := fpscr c,
       fp_regs := vfp_registers c, cur_psr := cpsr c, cur_pc := program_counter c\<rparr>"

text \<open>
  \<open>xTaskResumeAll\<close> yields to another task, something happens while that one runs, and the first is switched in again.
  FreeRTOS keeps the registers of each task; it does not keep those of abort mode.
\<close>

definition yields :: "debug_event_context \<Rightarrow> (cpu \<Rightarrow> cpu) \<Rightarrow> cpu \<Rightarrow> cpu" where
  "yields other event s = load_task (running s) (event (load_task other s))"

lemma running_load_task [simp]: "running (load_task c s) = c"
  by (simp add: running_def load_task_def)

lemma restore_after_yield:
  assumes "load (ram s) (abt_sp s) FRAME_SIZE = context_bytes c" and "wf_context c" and "wf_cpu s" and "core_regs s ! 0 \<noteq> 0"
  obtains s1 where "cur_psr (restore_context True g s) = abt_spsr (g s1)" "abt_sp s1 = abt_sp s + 12" "wf_cpu s1"
proof -
  note f = frame_parts [OF assms(1,2)]
  have l: "length (core_regs s) = 13" "length (fp_regs s) = 32" using assms(3) by (simp_all add: wf_cpu_def)
  define s0 where "s0 = s\<lparr>cur_psr := with_bit 7 True (cur_psr s), core_regs := (core_regs s)[1 := cpsr c], abt_spsr := cpsr c,
    usr_sp := stack_pointer c, usr_lr := link_register c, abt_sp := abt_sp s + 12\<rparr>"
  have r: "restore_context True g s = return_from_event (resume_scheduler g s0)"
    unfolding restore_context_def Let_def using f l assms(4)
    by (simp add: set_r_def drop_abt_def top_abt_def s0_def add.assoc)
  have "cur_psr (return_from_event t) = abt_spsr t" for t
    by (simp add: return_from_event_def Let_def)
  moreover have "abt_spsr (resume_scheduler g s0) = abt_spsr (g (to_program_stack s0))"
    by (simp add: resume_scheduler_def back_to_abort_mode_def Let_def)
  ultimately have "cur_psr (restore_context True g s) = abt_spsr (g (to_program_stack s0))" unfolding r by simp
  then show thesis
    by (rule that) (use l in \<open>simp_all add: to_program_stack_def Let_def s0_def wf_cpu_def\<close>)
qed

section \<open>A processor for the witnesses\<close>

definition demo_cpu :: cpu where
  "demo_cpu = \<lparr>core_regs = map of_nat [0..<13], usr_sp = 0x03900004, usr_lr = 0x03800010, abt_sp = 0x03a00000, abt_lr = 0x03800104,
     abt_spsr = 0x3f, irq_sp = 0x03b00000, irq_lr = 0x03800200, cur_psr = 0x3f, cur_pc = 0x03800100, fp_status = 7,
     fp_regs = map of_nat [0..<32], ram = (\<lambda>_. 0)\<rparr>"

definition demo_vectors :: vectors where
  "demo_vectors = \<lparr>vbar = 0x03800040, original_vector_addresses = map (\<lambda>i. 0x100 + of_nat (4 * i)) [0..<8],
     original_vector_addresses_set = True\<rparr>"

definition demo_handle :: "cpu \<Rightarrow> cpu" where
  "demo_handle s = s\<lparr>core_regs := 1 # replicate 12 0, fp_regs := replicate 32 0\<rparr>"

definition demo_call :: "cpu \<Rightarrow> cpu" where
  "demo_call s = s\<lparr>core_regs := replicate 4 0 @ map (\<lambda>i. core_regs s ! i) [4..<12] @ [0],
     fp_regs := replicate 8 0 @ map (\<lambda>i. fp_regs s ! i) [8..<16] @ replicate 16 0, fp_status := 0, irq_lr := 0\<rparr>"

lemma demo_cpu_ok: "wf_cpu demo_cpu" "runs_handler (\<lambda>c. (True, c)) demo_handle" "resumes demo_call" "keeps_callee_saved demo_call"
proof -
  show "wf_cpu demo_cpu" by (simp add: wf_cpu_def demo_cpu_def)
  show "runs_handler (\<lambda>c. (True, c)) demo_handle" by (simp add: runs_handler_def demo_handle_def wf_cpu_def)
  show "resumes demo_call" by (simp add: resumes_def demo_call_def)
  have k: "(replicate a x @ map f [a..<b] @ xs) ! i = f i" if "a \<le> i" "i < b" for a b i and f :: "nat \<Rightarrow> 'b" and x xs
    using that diff_less_mono [of i b a] by (simp add: nth_append)
  have "(replicate 4 0 @ map (\<lambda>i. core_regs s ! i) [4..<12] @ [0]) ! i = core_regs s ! i" if "i \<in> {4..11}" for i and s :: cpu
    by (rule k) (use that in simp_all)
  moreover have "(replicate 8 0 @ map (\<lambda>i. fp_regs s ! i) [8..<16] @ replicate 16 0) ! i = fp_regs s ! i" if "i \<in> {8..15}" for i and s :: cpu
    by (rule k) (use that in simp_all)
  ultimately show "keeps_callee_saved demo_call"
    unfolding keeps_callee_saved_def demo_call_def wf_cpu_def by (simp del: upt_rec_numeral)
qed

section \<open>Properties\<close>

text \<open>
  C10: What the assembly pushes for an event is a \<open>DebugEventContext\<close>: the bytes from the stack pointer on, read with
  the layout of the Rust structure, are the interrupted program's status, stack pointer, link register, floating
  point state, core registers and address, 328 bytes that keep the alignment of the stack, and nothing else in memory
  changes.
\<close>
theorem frame_is_event_context:
  assumes "wf_cpu s"
  shows "abt_sp (save_context s) = abt_sp s - 328 \<and>
     context_of (load (ram (save_context s)) (abt_sp (save_context s)) 328) = interrupted s \<and> wf_context (interrupted s) \<and>
     (unat (abt_sp s) mod 8 = 0 \<longrightarrow> unat (abt_sp (save_context s)) mod 8 = 0) \<and>
     (\<forall>x. \<not> in_range (abt_sp s - 328) 328 x \<longrightarrow> ram (save_context s) x = ram s x)"
proof -
  note f = saved_frame [OF assms]
  have "unat (abt_sp s - 328) mod 8 = 0" if al: "unat (abt_sp s) mod 8 = 0"
  proof (cases "328 \<le> unat (abt_sp s)")
    case True
    then have "unat (abt_sp s - 328) = unat (abt_sp s) - 328" by (subst unat_sub) (simp_all add: word_le_nat_alt)
    then show ?thesis using al True by presburger
  next
    case False
    then have "unat (abt_sp s - 328) = 2 ^ 32 - 328 + unat (abt_sp s)"
      using unat_sub_if' [of "abt_sp s" 328] by simp
    moreover obtain k where "unat (abt_sp s) = 8 * k" using al by (blast elim: dvdE dest: mod_0_imp_dvd)
    ultimately have "unat (abt_sp s - 328) = 8 * (536870871 + k)" by simp
    then show ?thesis by simp
  qed
  moreover have "ram (save_context s) x = ram s x" if "\<not> in_range (abt_sp s - 328) 328 x" for x
    using that length_context_bytes [OF wf_interrupted [OF assms]]
    by (simp add: save_context_eq [OF assms] push_abt_def Let_def FRAME_SIZE_def store_out)
  ultimately show ?thesis
    using f wf_interrupted [OF assms] context_of_bytes [OF wf_interrupted [OF assms]] by (simp add: FRAME_SIZE_def)
qed

theorem frame_is_event_context_witness:
  "abt_sp (save_context demo_cpu) = 0x039ffeb8 \<and>
   context_of (load (ram (save_context demo_cpu)) (abt_sp (save_context demo_cpu)) 328) = interrupted demo_cpu"
proof -
  have "abt_sp demo_cpu = 0x03a00000" by (simp add: demo_cpu_def)
  moreover note frame_is_event_context [OF demo_cpu_ok(1)]
  ultimately show ?thesis by (intro conjI) (simp, blast)
qed



text \<open>
  C12: An abort that is not a debug event reaches the handler the system had installed as if the debugger were not
  there: every register, the return address and the saved status are as the processor left them, and only the
  condition flags and the word below the stack differ.
\<close>
theorem other_aborts_pass:
  assumes "wf_cpu s" and "status AND 15 \<noteq> 2"
  shows "interrupted (prefetch_abort_handler status v rtos h g s) = interrupted s \<and>
     cur_pc (prefetch_abort_handler status v rtos h g s) = original_vector_addresses v ! 3 \<and>
     interrupted (data_abort_handler status v rtos h g s) = interrupted s \<and>
     cur_pc (data_abort_handler status v rtos h g s) = original_vector_addresses v ! 4 \<and>
     abt_sp (prefetch_abort_handler status v rtos h g s) = abt_sp s \<and> abt_sp (data_abort_handler status v rtos h g s) = abt_sp s \<and>
     (\<forall>x. \<not> in_range (abt_sp s - 4) 4 x \<longrightarrow>
        ram (prefetch_abort_handler status v rtos h g s) x = ram s x \<and> ram (data_abort_handler status v rtos h g s) x = ram s x)"
  using assms(2)
  by (simp add: prefetch_abort_handler_def data_abort_handler_def abort_handler_eq [OF assms(1)] interrupted_def store_out Let_def)

theorem other_aborts_pass_witness:
  "interrupted (data_abort_handler 0x805 demo_vectors True demo_handle demo_call demo_cpu) = interrupted demo_cpu"
  using other_aborts_pass [OF demo_cpu_ok(1), of "0x805"] by simp

text \<open>
  C13: The hook on interrupts is transparent: whatever the poll does with the registers a called function may use, the
  original handler finds all of them, the return address and the stack as they were.
\<close>
theorem irq_hook_transparent:
  assumes "wf_cpu s" and "keeps_callee_saved p"
  shows "core_regs (irq_handler v p s) = core_regs s \<and> fp_regs (irq_handler v p s) = fp_regs s \<and>
     fp_status (irq_handler v p s) = fp_status s \<and> irq_lr (irq_handler v p s) = irq_lr s \<and>
     irq_sp (irq_handler v p s) = irq_sp s \<and> cur_pc (irq_handler v p s) = original_vector_addresses v ! 6"
proof -
  let ?s = "irq_save s"
  have l: "length (core_regs s) = 13" "length (fp_regs s) = 32" using assms(1) by (simp_all add: wf_cpu_def)
  then have len: "length (irq_frame s) = 224" by (simp add: irq_frame_def)
  have sv: "irq_sp ?s = irq_sp s - 224" "fp_regs ?s = fp_regs s" "core_regs ?s = (core_regs s)[0 := fp_status s]"
    "load (ram ?s) (irq_sp s - 224) 224 = irq_frame s" "wf_cpu ?s"
    using l by (simp_all add: irq_save_eq [OF assms(1)] push_irq_def Let_def len load_store_same wf_cpu_def)
  have p: "wf_cpu (p ?s)" "irq_sp (p ?s) = irq_sp s - 224" "\<forall>i \<in> {4..11}. core_regs (p ?s) ! i = core_regs s ! i"
    "\<forall>i \<in> {8..15}. fp_regs (p ?s) ! i = fp_regs s ! i"
    "\<And>x. in_range (irq_sp s - 224) 224 x \<Longrightarrow> ram (p ?s) x = ram ?s x"
    using assms(2) [unfolded keeps_callee_saved_def, rule_format, OF sv(5)] sv(1-3) by simp_all
  have "load (ram (p ?s)) (irq_sp (p ?s)) 224 = irq_frame s"
    unfolding p(2) sv(4) [symmetric] by (rule load_cong) (use p(5) in simp_all)
  from irq_restore_eq [OF this assms(1) p(1,3,4)] show ?thesis by (simp add: irq_handler_def p(2))
qed

theorem irq_hook_transparent_witness:
  "core_regs (irq_handler demo_vectors demo_call demo_cpu) = core_regs demo_cpu \<and> irq_lr (irq_handler demo_vectors demo_call demo_cpu) = 0x03800200"
  using irq_hook_transparent [OF demo_cpu_ok(1,4)] by (simp add: demo_cpu_def)



end
