(* ===== verification/Exported_Handlers.thy ===== *)
theory Exported_Handlers
  imports Session_Reachability
begin

text \<open>
  The functions \<open>overlay.s\<close> calls, \<open>v5gdb_handle_debug_event\<close> and \<open>v5gdb_irq_poll\<close> of \<open>src/src/exceptions/mod.rs\<close>, on
  the statics of the crate: the installed debugger and the time of the last poll. What they do to the installed
  debugger are the steps \<open>system_step\<close> knows.
\<close>

section \<open>The handlers\<close>

record 'g statics = "'g installation" +
  last_poll_time_ms :: u32

text \<open>\<open>V5Debugger::poll\<close> runs only when the interval has passed, and only on an installed debugger.\<close>

definition v5gdb_irq_poll :: "nat \<Rightarrow> 'g gdbstub \<Rightarrow> u32 \<Rightarrow> 'g statics \<Rightarrow> 'g statics outcome option" where
  "v5gdb_irq_poll fuel api now i =
     (case irq_poll now (last_poll_time_ms i) of (prev, due) \<Rightarrow>
        if \<not> due then Some (ok i)
        else let i = i\<lparr>last_poll_time_ms := prev\<rparr> in
          (case installed i of
             None \<Rightarrow> Some (ok i)
           | Some d \<Rightarrow> map_option (\<lambda>r. and_then r (\<lambda>d. ok (i\<lparr>installed := Some d\<rparr>))) (poll fuel api d)))"

text \<open>
  The event locks the session. The lock spins: an event while it is held, by code the event has interrupted, does not
  return, which is None for every fuel.
\<close>

definition v5gdb_handle_debug_event ::
  "nat \<Rightarrow> 'g gdbstub \<Rightarrow> nat \<Rightarrow> debug_event_context \<Rightarrow> 'g statics \<Rightarrow> brain \<Rightarrow>
   (bool \<times> debug_event_context \<times> 'g statics \<times> brain) outcome option" where
  "v5gdb_handle_debug_event fuel api max_ports ctx i b =
     (case installed i of
        None \<Rightarrow> Some (panic ''handle_debug_event: unwrap'')
      | Some d \<Rightarrow>
          if session_locked d then None
          else map_option (\<lambda>r. and_then r (\<lambda>(unpause, ctx, s, b).
                 ok (unpause, ctx, i\<lparr>installed := Some (d\<lparr>session := s\<rparr>)\<rparr>, b)))
               (handle_debug_event fuel api max_ports ctx (session d) b))"

section \<open>What they do\<close>

text \<open>Both leave the vectors alone.\<close>

lemma irq_poll_vectors:
  assumes "v5gdb_irq_poll fuel api now i = Some (Inr i')"
  shows "vectors.truncate i' = vectors.truncate i"
  using assms
  by (auto simp: v5gdb_irq_poll_def and_then_Inr_iff vectors.defs Let_def split: prod.splits option.splits if_splits)

text \<open>While an event is handled the interrupts' polls do not touch the debugger, whose connection carries packets then.\<close>

lemma irq_poll_during_event:
  assumes "installed i = Some d" and "session_locked d"
  shows "\<exists>i'. v5gdb_irq_poll fuel api now i = Some (Inr i') \<and> installed i' = Some d"
  using assms by (cases "irq_poll now (last_poll_time_ms i)") (simp add: v5gdb_irq_poll_def poll_def Let_def)

text \<open>Between events an interrupt is a step of the timer or nothing.\<close>

lemma irq_poll_step:
  assumes "v5gdb_irq_poll fuel api now i = Some (Inr i')" and "installed i = Some d"
  shows "\<exists>d'. installed i' = Some d' \<and> (d' = d \<or> system_step api n (d, b) (d', b))"
  using assms
  by (auto simp: v5gdb_irq_poll_def and_then_Inr_iff Let_def split: prod.splits if_splits intro: system_step.timer)

text \<open>The polls of consecutive interrupts are at least the interval apart, also when the clock wraps around.\<close>

lemma irq_poll_interval:
  assumes "v5gdb_irq_poll fuel api now i = Some (Inr i')" and "i' \<noteq> i"
  shows "10 \<le> now - last_poll_time_ms i" and "last_poll_time_ms i' = now"
  using assms
  by (auto simp: v5gdb_irq_poll_def irq_poll_def IRQ_POLL_INTERVAL_MS_def and_then_Inr_iff Let_def not_less
      split: option.splits if_splits)

lemma event_step:
  assumes "v5gdb_handle_debug_event fuel api n ctx i b = Some (Inr (unpause, ctx', i', b'))"
    and "wf_context ctx" and "fetchable ctx"
  shows "\<exists>d d'. installed i = Some d \<and> installed i' = Some d' \<and> system_step api n (d, b) (d', overlay_restore unpause b')"
  using assms
  by (auto simp: v5gdb_handle_debug_event_def and_then_Inr_iff split: option.splits if_splits intro: system_step.debug_event)

text \<open>An event inside the debugger hangs; one before a debugger is installed panics.\<close>

lemma nested_event_hangs:
  "installed i = Some d \<Longrightarrow> session_locked d \<Longrightarrow> v5gdb_handle_debug_event fuel api n ctx i b = None"
  by (simp add: v5gdb_handle_debug_event_def)

lemma event_without_debugger:
  "installed i = None \<Longrightarrow> v5gdb_handle_debug_event fuel api n ctx i b = Some (panic ''handle_debug_event: unwrap'')"
  by (simp add: v5gdb_handle_debug_event_def)

text \<open>The invariant of the system holds after every return of either.\<close>

lemma handlers_keep:
  assumes "gdb_polite api env" and "installed i = Some d" and "system_inv depth (d, b)"
  shows "v5gdb_irq_poll fuel api now i = Some (Inr i') \<Longrightarrow> \<exists>d'. installed i' = Some d' \<and> system_inv depth (d', b)"
    and "v5gdb_handle_debug_event fuel api n ctx i b = Some (Inr (unpause, ctx', i', b')) \<Longrightarrow> wf_context ctx \<Longrightarrow> fetchable ctx \<Longrightarrow>
      \<exists>d'. installed i' = Some d' \<and> system_inv depth (d', overlay_restore unpause b')"
proof -
  show "\<exists>d'. installed i' = Some d' \<and> system_inv depth (d', b)" if "v5gdb_irq_poll fuel api now i = Some (Inr i')"
    using irq_poll_step [OF that assms(2)] system_step_keeps [OF _ assms(1,3)] assms(3) by blast
  show "\<exists>d'. installed i' = Some d' \<and> system_inv depth (d', overlay_restore unpause b')"
    if "v5gdb_handle_debug_event fuel api n ctx i b = Some (Inr (unpause, ctx', i', b'))" "wf_context ctx" "fetchable ctx"
    using event_step [OF that] system_step_keeps [OF _ assms(1,3)] assms(2) by auto
qed

end
