(* ===== verification/Whole_Event.thy ===== *)
theory Whole_Event
  imports Exception_Properties Exported_Handlers
begin

text \<open>
  The assembly of \<open>overlay.s\<close> and \<open>v5gdb_handle_debug_event\<close> together: the context the first saves is the argument of
  the second, and what the second leaves in it is what the program goes on with.
\<close>

text \<open>A function that does to the context in memory what \<open>f\<close> says, and a processor about to abort with given registers.\<close>

definition handler_of :: "(debug_event_context \<Rightarrow> bool \<times> debug_event_context) \<Rightarrow> cpu \<Rightarrow> cpu" where
  "handler_of f s =
     (case f (context_of (load (ram s) (core_regs s ! 0) FRAME_SIZE)) of (unpause, c) \<Rightarrow>
        s\<lparr>core_regs := (if unpause then 1 else 0) # replicate 12 0, fp_regs := replicate 32 0,
          ram := store (ram s) (core_regs s ! 0) (context_bytes c)\<rparr>)"

lemma runs_handler_of:
  assumes "\<And>c. wf_context c \<Longrightarrow> wf_context (snd (f c))"
  shows "runs_handler f (handler_of f)"
  unfolding runs_handler_def
proof (intro allI impI)
  have n: "FRAME_SIZE \<le> 2 ^ 32" by (simp add: FRAME_SIZE_def)
  fix s :: cpu and c assume c: "wf_context c" "load (ram s) (core_regs s ! 0) FRAME_SIZE = context_bytes c"
  show "wf_cpu (handler_of f s) \<and> abt_sp (handler_of f s) = abt_sp s \<and>
      (core_regs (handler_of f s) ! 0 \<noteq> 0 \<longleftrightarrow> fst (f c)) \<and> wf_context (snd (f c)) \<and>
      load (ram (handler_of f s)) (core_regs s ! 0) FRAME_SIZE = context_bytes (snd (f c))"
    using assms [OF c(1)] length_context_bytes [OF assms [OF c(1)]] load_store_same [of "context_bytes (snd (f c))"] n
    by (cases "f c") (simp add: handler_of_def c(2) context_of_bytes [OF c(1)] wf_cpu_def)
qed

definition cpu_of :: "debug_event_context \<Rightarrow> u32 \<Rightarrow> cpu" where
  "cpu_of c sp = demo_cpu\<lparr>core_regs := registers c, usr_sp := stack_pointer c, usr_lr := link_register c, abt_sp := sp,
     cur_psr := cpsr c, cur_pc := program_counter c, fp_status := fpscr c, fp_regs := vfp_registers c\<rparr>"

lemma cpu_of: "wf_context c \<Longrightarrow> wf_cpu (cpu_of c sp) \<and> running (cpu_of c sp) = c \<and> abt_sp (cpu_of c sp) = sp"
  by (simp add: cpu_of_def wf_cpu_def wf_context_def running_def)

lemma apart_below: "apart (a :: u32) 8 (a - 328) 328"
  by (simp add: apart_def)


text \<open>An event at a breakpoint of the program, handled with a GDB that resumes at once.\<close>

definition demo_debugger :: "unit v5_debugger" where
  "demo_debugger = \<lparr>session = demo_session, config_stop_motors = False, session_locked = False\<rparr>"

definition demo_statics :: "unit statics" where
  "demo_statics = vectors.extend demo_vectors \<lparr>installed = Some demo_debugger, last_poll_time_ms = 0\<rparr>"

lemma demo_statics_ok: "installed demo_statics = Some demo_debugger" "system_inv 0 (demo_debugger, demo_brain False)"
  using demo_brain_inv [of 12 False] by (auto simp: demo_statics_def demo_debugger_def vectors.defs system_inv_def)


text \<open>
  The same on the stack \<open>install_vectors\<close> provides: the frame and everything the handler pushes below it are in the
  region set aside for it, so a program whose stack is elsewhere meets the last condition.
\<close>

lemma frame_on_abort_stack:
  assumes "\<And>x. in_range abort_stack ABORT_STACK_SIZE x \<Longrightarrow> \<not> in_range a 8 x"
  shows "\<not> (in_range (abt_sp (use_abort_stack abort_stack s) - 328) 328 x \<and> in_range a 8 x)"
  using assms abort_stack_room [of 328 abort_stack s x] by (auto simp: ABORT_STACK_SIZE_def)

end
