(* ===== verification/Coprocessor.thy ===== *)
theory Coprocessor
  imports Hw_Breakpoints Registers
begin

text \<open>
  The registers behind \<open>mrc\<close> and \<open>mcr\<close>: the coordinates of \<open>src/src/cpu/debug.rs\<close>, \<open>vmsa.rs\<close> and \<open>exception.rs\<close>
  and of the fault address in \<open>src/src/exceptions/mod.rs\<close>, on a register file indexed by them. The records the other
  theories use for these registers are its abstraction. Also the rest of the registers \<open>debug.rs\<close> and \<open>vmsa.rs\<close>
  declare: watchpoint control and section descriptors.
\<close>

section \<open>Coordinates\<close>

text \<open>Coprocessor, first operation code, CRn, CRm, second operation code.\<close>

type_synonym coords = "nat \<times> nat \<times> nat \<times> nat \<times> nat"
type_synonym coproc = "coords \<Rightarrow> u32"

definition SDER :: coords where "SDER = (15, 0, 1, 1, 1)"
definition TTBCR :: coords where "TTBCR = (15, 0, 2, 0, 2)"
definition TTBR0 :: coords where "TTBR0 = (15, 0, 2, 0, 0)"
definition TTBR1 :: coords where "TTBR1 = (15, 0, 2, 0, 1)"
definition DACR :: coords where "DACR = (15, 0, 3, 0, 0)"
definition VBAR :: coords where "VBAR = (15, 0, 12, 0, 0)"

definition dbgreg :: "u32 \<Rightarrow> coords" where
  "dbgreg regnum = (case get_cp14_encoding regnum of (crn, crm, op2) \<Rightarrow> (14, 0, unat crn, unat crm, unat op2))"

definition read_raw :: "coords \<Rightarrow> coproc \<Rightarrow> u32" where "read_raw reg c = c reg"
definition write_raw :: "coords \<Rightarrow> u32 \<Rightarrow> coproc \<Rightarrow> coproc" where "write_raw reg v c = c(reg := v)"

definition read_dbgreg :: "u32 \<Rightarrow> coproc \<Rightarrow> u32" where "read_dbgreg reg c = read_raw (dbgreg reg) c"
definition write_dbgreg :: "u32 \<Rightarrow> u32 \<Rightarrow> coproc \<Rightarrow> coproc" where "write_dbgreg reg v c = write_raw (dbgreg reg) v c"

section \<open>The registers the debugger reads and writes\<close>

definition debug_id_read :: "coproc \<Rightarrow> u32" where "debug_id_read = read_dbgreg DBGDIDR"
definition rom_address_read :: "coproc \<Rightarrow> u32" where "rom_address_read = read_dbgreg DBGDRAR"
definition self_address_read :: "coproc \<Rightarrow> u32" where "self_address_read = read_dbgreg DBGDSAR"
definition sder_read :: "coproc \<Rightarrow> u32" where "sder_read = read_raw SDER"
definition sder_write :: "u32 \<Rightarrow> coproc \<Rightarrow> coproc" where "sder_write = write_raw SDER"
definition ttbcr_read :: "coproc \<Rightarrow> u32" where "ttbcr_read = read_raw TTBCR"
definition read_tt0 :: "coproc \<Rightarrow> u32" where "read_tt0 c = c TTBR0"
definition read_tt1 :: "coproc \<Rightarrow> u32" where "read_tt1 c = c TTBR1"
definition dacr_read :: "coproc \<Rightarrow> u32" where "dacr_read = read_raw DACR"
definition dacr_write :: "u32 \<Rightarrow> coproc \<Rightarrow> coproc" where "dacr_write = write_raw DACR"
definition vbar_read :: "coproc \<Rightarrow> u32" where "vbar_read = read_raw VBAR"
definition vbar_write :: "u32 \<Rightarrow> coproc \<Rightarrow> coproc" where "vbar_write = write_raw VBAR"

text \<open>\<open>DebugEventContext::target\<close>\<close>

definition event_target :: "coproc \<Rightarrow> u32" where
  "event_target c = c (15, 0, 6, 0, 1)"

section \<open>The records are an abstraction of the register file\<close>

definition debug_sysregs_of :: "coproc \<Rightarrow> debug_sysregs" where
  "debug_sysregs_of c = \<lparr>sder = sder_read c, dbgdidr = debug_id_read c, dbgdrar = rom_address_read c, dbgdsar = self_address_read c\<rparr>"

definition with_sysregs :: "coproc \<Rightarrow> 'm vmsa_scheme \<Rightarrow> 'm vmsa_scheme" where
  "with_sysregs c m = m\<lparr>ttbcr := ttbcr_read c, ttbr0 := read_tt0 c, ttbr1 := read_tt1 c, dacr := dacr_read c\<rparr>"

lemmas sysreg_defs = SDER_def TTBCR_def TTBR0_def TTBR1_def DACR_def VBAR_def read_raw_def write_raw_def read_dbgreg_def
  debug_id_read_def rom_address_read_def self_address_read_def sder_read_def sder_write_def ttbcr_read_def read_tt0_def
  read_tt1_def dacr_read_def dacr_write_def vbar_read_def vbar_write_def

lemma dbgreg_coprocessor: "fst (dbgreg n) = 14"
  by (simp add: dbgreg_def split: prod.splits)

lemma dbgreg_values:
  "dbgreg DBGDIDR = (14, 0, 0, 0, 0)" "dbgreg DBGDSCRint = (14, 0, 0, 1, 0)" "dbgreg DBGDSCRext = (14, 0, 0, 2, 2)"
  "dbgreg DBGDRAR = (14, 0, 1, 0, 0)" "dbgreg DBGDSAR = (14, 0, 2, 0, 0)"
  by (simp_all add: dbgreg_def get_cp14_encoding_def DBGDIDR_def DBGDSCRint_def DBGDSCRext_def DBGDRAR_def DBGDSAR_def
      drop_bit_eq_div)

text \<open>Each write is the update of one field, and leaves the other records alone.\<close>

lemma sder_write_refines:
  "debug_sysregs_of (sder_write v c) = (debug_sysregs_of c)\<lparr>sder := v\<rparr>" "with_sysregs (sder_write v c) m = with_sysregs c m"
  "vbar_read (sder_write v c) = vbar_read c"
  by (simp_all add: debug_sysregs_of_def with_sysregs_def sysreg_defs dbgreg_values)

lemma dacr_write_refines:
  "with_sysregs (dacr_write v c) m = (with_sysregs c m)\<lparr>dacr := v\<rparr>" "debug_sysregs_of (dacr_write v c) = debug_sysregs_of c"
  "vbar_read (dacr_write v c) = vbar_read c"
  by (simp_all add: debug_sysregs_of_def with_sysregs_def sysreg_defs dbgreg_values)

lemma vbar_write_refines:
  "vbar_read (vbar_write v c) = v" "debug_sysregs_of (vbar_write v c) = debug_sysregs_of c"
  "with_sysregs (vbar_write v c) m = with_sysregs c m"
  by (simp_all add: debug_sysregs_of_def with_sysregs_def sysreg_defs dbgreg_values)

text \<open>
  The instruction fault address is at operation code 2 of c6, c0 (ARMv7-A B4.1.52): the register \<open>target\<close> reads
  does not follow it.
\<close>

definition IFAR :: coords where "IFAR = (15, 0, 6, 0, 2)"

lemma event_target_not_ifar: "event_target (c(IFAR := addr)) = event_target c"
  by (simp add: event_target_def IFAR_def)

section \<open>Watchpoint control\<close>

datatype watchpoint_type = UnlinkedDataAddressMatch | LinkedDataAddressMatch

definition watchpoint_type_of :: "bool \<Rightarrow> watchpoint_type" where
  "watchpoint_type_of b = (if b then LinkedDataAddressMatch else UnlinkedDataAddressMatch)"

definition watchpoint_type_raw :: "watchpoint_type \<Rightarrow> bool" where
  "watchpoint_type_raw t = (t = LinkedDataAddressMatch)"

datatype load_store_filter = LoadSwapOnly | StoreSwapOnly | LoadStoreAll

fun load_store_raw :: "load_store_filter \<Rightarrow> u32" where
  "load_store_raw LoadSwapOnly = 1"
| "load_store_raw StoreSwapOnly = 2"
| "load_store_raw LoadStoreAll = 3"

definition load_store_of :: "u32 \<Rightarrow> load_store_filter option" where
  "load_store_of v = (if v = 1 then Some LoadSwapOnly else if v = 2 then Some StoreSwapOnly
     else if v = 3 then Some LoadStoreAll else None)"

datatype privileged_access_filter = PrivLevel1Only | PrivUserOnly | PrivAny

fun privileged_access_raw :: "privileged_access_filter \<Rightarrow> u32" where
  "privileged_access_raw PrivLevel1Only = 1"
| "privileged_access_raw PrivUserOnly = 2"
| "privileged_access_raw PrivAny = 3"

definition privileged_access_of :: "u32 \<Rightarrow> privileged_access_filter option" where
  "privileged_access_of v = (if v = 1 then Some PrivLevel1Only else if v = 2 then Some PrivUserOnly
     else if v = 3 then Some PrivAny else None)"

text \<open>\<open>WatchpointControl\<close>, a struct in the source's order of fields; \<open>wc_read\<close> and \<open>wc_with\<close> are its readers and writers.\<close>

record watchpoint_control =
  wc_type :: watchpoint_type
  wc_linked_index :: u32
  wc_byte_address_select :: u32
  wc_load_store :: "load_store_filter option"
  wc_privileged :: "privileged_access_filter option"
  wc_enabled :: bool

definition wc_read :: "u32 \<Rightarrow> watchpoint_control" where
  "wc_read r = \<lparr>wc_type = watchpoint_type_of (bit r 20), wc_linked_index = field 16 4 r, wc_byte_address_select = field 5 4 r,
     wc_load_store = load_store_of (field 3 2 r), wc_privileged = privileged_access_of (field 1 2 r), wc_enabled = bit r 0\<rparr>"

definition wc_with :: "watchpoint_type \<Rightarrow> u32 \<Rightarrow> u32 \<Rightarrow> load_store_filter \<Rightarrow> privileged_access_filter \<Rightarrow> bool \<Rightarrow> u32 \<Rightarrow> u32" where
  "wc_with ty linked bas ls priv enabled r =
     with_bit 0 enabled (with_field 1 2 (privileged_access_raw priv) (with_field 3 2 (load_store_raw ls)
       (with_field 5 4 bas (with_field 16 4 linked (with_bit 20 (watchpoint_type_raw ty) r)))))"

lemma wc_roundtrip:
  "wc_read (wc_with ty linked bas ls priv enabled r) =
     \<lparr>wc_type = ty, wc_linked_index = linked AND mask 4, wc_byte_address_select = bas AND mask 4, wc_load_store = Some ls,
      wc_privileged = Some priv, wc_enabled = enabled\<rparr>"
proof -
  have m: "(1 :: u32) AND mask 2 = 1" "(2 :: u32) AND mask 2 = 2" "(3 :: u32) AND mask 2 = 3"
    by (simp_all add: mask_eq_exp_minus_1)
  have ls: "load_store_of (load_store_raw ls AND mask 2) = Some ls" by (cases ls) (simp_all add: load_store_of_def m)
  have pr: "privileged_access_of (privileged_access_raw priv AND mask 2) = Some priv"
    by (cases priv) (simp_all add: privileged_access_of_def m)
  have ty: "watchpoint_type_of (watchpoint_type_raw ty) = ty"
    by (cases ty) (simp_all add: watchpoint_type_of_def watchpoint_type_raw_def)
  show ?thesis
    unfolding wc_read_def wc_with_def
    by (simp add: field_with_field_other field_with_field_same field_with_bit_other bit_with_field_other bit_with_bit ls pr ty)
qed

section \<open>Section descriptors\<close>

record section_descriptor =
  physical_address :: u32
  non_secure :: bool
  not_global :: bool
  tex :: u32
  access_permissions :: "access_permissions option"
  domain_id :: u32
  no_execute :: bool
  c_bit :: bool
  b_bit :: bool

definition section_of :: "u32 \<Rightarrow> section_descriptor" where
  "section_of d = \<lparr>physical_address = field 20 12 d, non_secure = bit d 19, not_global = bit d 17, tex = field 12 3 d,
     access_permissions = access_permissions_of d, domain_id = field 5 4 d, no_execute = bit d 4, c_bit = bit d 3, b_bit = bit d 2\<rparr>"

text \<open>Memory attributes depend on \<open>tex\<close>, \<open>c\<close> and \<open>b\<close> alone.\<close>

lemma mem_attrs_fields:
  "tex (section_of d) = tex (section_of d') \<Longrightarrow> c_bit (section_of d) = c_bit (section_of d') \<Longrightarrow>
   b_bit (section_of d) = b_bit (section_of d') \<Longrightarrow> mem_attrs d = mem_attrs d'"
  by (simp add: section_of_def mem_attrs_def Let_def)

section \<open>Showing the manager\<close>

text \<open>
  The registers the \<open>Debug\<close> implementation of \<open>HwBreakpointManager\<close> collects into arrays of 16 and slices.
\<close>

fun collect_registers :: "nat list \<Rightarrow> debug_logic \<Rightarrow> u32 list \<times> u32 list \<Rightarrow> (u32 list \<times> u32 list) outcome" where
  "collect_registers [] d acc = ok acc"
| "collect_registers (i # is) d (vs, cs) =
     and_then (unwrap ''fmt'' (read_breakpoint_value i d)) (\<lambda>v.
     and_then (unwrap ''fmt'' (read_breakpoint_ctrl i d)) (\<lambda>c.
       collect_registers is d (vs[i := v], cs[i := c])))"

definition manager_registers :: "hw_manager \<Rightarrow> (u32 list \<times> u32 list) outcome" where
  "manager_registers h =
     (let n = unat (num_breakpoints (capabilities h)) in
      and_then (collect_registers [0..<min n 16] (mmio h) (replicate 16 0, replicate 16 0)) (\<lambda>(vs, cs).
      and_then (assert_that (n \<le> 16) ''fmt: slice'') (\<lambda>_. ok (take n vs, take n cs))))"

lemma collect_registers_eq:
  "k \<le> n \<Longrightarrow> n \<le> 16 \<Longrightarrow> length (breakpoint_value d) = 16 \<Longrightarrow> length (breakpoint_ctrl d) = 16 \<Longrightarrow>
   length vs = 16 \<Longrightarrow> length cs = 16 \<Longrightarrow>
   collect_registers [k..<n] d (take k (breakpoint_value d) @ drop k vs, take k (breakpoint_ctrl d) @ drop k cs) =
     Inr (take n (breakpoint_value d) @ drop n vs, take n (breakpoint_ctrl d) @ drop n cs)"
proof (induction "n - k" arbitrary: k)
  case 0
  then show ?case by simp
next
  case (Suc j)
  then have k: "k < n" "k < 16" by simp_all
  have u: "(take k xs @ drop k ys)[k := xs ! k] = take (Suc k) xs @ drop (Suc k) ys"
    if "length xs = 16" "length ys = 16" for xs ys :: "u32 list"
    using that k by (simp add: list_update_append take_Suc_conv_app_nth Cons_nth_drop_Suc [symmetric])
  show ?case
    using Suc.hyps(1) [of "Suc k"] Suc.hyps(2) Suc.prems k by (simp add: upt_conv_Cons u)
qed

text \<open>Showing a manager never panics and shows its comparators.\<close>

lemma manager_registers_shown:
  assumes "hw_inv h"
  shows "manager_registers h = Inr (take (num h) (breakpoint_value (mmio h)), take (num h) (breakpoint_ctrl (mmio h)))"
proof -
  have h: "num h \<le> 16" "length (breakpoint_value (mmio h)) = 16" "length (breakpoint_ctrl (mmio h)) = 16"
    using assms by (simp_all add: hw_inv_def hw_wf_def)
  show ?thesis
    using collect_registers_eq [of 0 "num h" "mmio h" "replicate 16 0" "replicate 16 0"] h
    by (simp add: manager_registers_def num_def [symmetric] Let_def min_def)
qed

end
