(* ===== verification/Host_Start.thy ===== *)
theory Host_Start
  imports Host_Proxy
begin

text \<open>
  \<open>main\<close> and the start of \<open>serve_device_serial\<close> (\<open>src/cli/src/bin/v5gdb.rs\<close>): which device and which GDB are
  taken, what GDB is told, how the proxy gets its two connections, and the wait for GDB, through which the signals of
  the terminal pass. Finding devices, the sockets, looking up executables, running them and the signals are parameters.
\<close>

section \<open>The server's task\<close>

datatype connection_error = ConnectFailed | AcceptFailed

text \<open>
  An error of the function is a value; only the task around it, which unwraps the result, panics. No result is the
  task still running.
\<close>

definition serve_device_serial ::
  "bool \<Rightarrow> bool \<Rightarrow> bool \<Rightarrow> nat \<Rightarrow> 'd cobs_decoder \<Rightarrow> proxy_event list \<Rightarrow> 'd \<Rightarrow> proxy_out \<Rightarrow>
   (connection_error + bool \<times> 'd \<times> proxy_out) outcome option" where
  "serve_device_serial connected accepted debug_io fuel dec events d w =
     (if \<not> connected then Some (ok (Inl ConnectFailed))
      else if \<not> accepted then Some (ok (Inl AcceptFailed))
      else map_option (\<lambda>r. and_then r (\<lambda>served. ok (Inr served))) (serve_turns debug_io fuel dec events d w))"

datatype task = Pending | Finished | Panicked

fun server_task :: "(connection_error + bool \<times> 'd \<times> proxy_out) outcome option \<Rightarrow> task" where
  "server_task None = Pending"
| "server_task (Some (Inl site)) = Panicked"
| "server_task (Some (Inr (Inl e))) = Panicked"
| "server_task (Some (Inr (Inr (again, d, w)))) = (if again then Pending else Finished)"

section \<open>Waiting for GDB\<close>

text \<open>
  What may end a turn of the wait: GDB, with whether its status could be had, or one of the two signals, which are
  SIGINT and SIGTERM on Unix and the events of Ctrl-C and Ctrl-Break on Windows.
\<close>

datatype wait_event = GdbExit bool | FirstSignal | SecondSignal

datatype main_exit = Waiting | Returned bool | Exited int

fun wait_gdb :: "wait_event list \<Rightarrow> main_exit" where
  "wait_gdb [] = Waiting"
| "wait_gdb (GdbExit status # events) = Returned status"
| "wait_gdb (FirstSignal # events) = wait_gdb events"
| "wait_gdb (SecondSignal # events) = wait_gdb events"

section \<open>Starting\<close>

record cli_args =
  tcp :: "string option"
  elf_files_to_debug :: "string list"
  debug_io :: bool

record 'd host =
  find_devices :: "'d list option"
  bind_addr :: "string \<Rightarrow> bool"
  which_path :: "string \<Rightarrow> string option"
  spawns :: "string \<Rightarrow> string list \<Rightarrow> bool"
  takes_signals :: bool

definition DEFAULT_ADDR :: string where "DEFAULT_ADDR = ''127.0.0.1:35537''"

definition known_gdb_names :: "string list" where
  "known_gdb_names = [''arm-none-eabi-gdb'', ''gdb-multiarch'', ''gdb'']"

fun find_map :: "('a \<Rightarrow> 'b option) \<Rightarrow> 'a list \<Rightarrow> 'b option" where
  "find_map f [] = None"
| "find_map f (x # xs) = (case f x of Some y \<Rightarrow> Some y | None \<Rightarrow> find_map f xs)"

definition gdb_args :: "string list \<Rightarrow> string list" where
  "gdb_args elves =
     (case elves of [] \<Rightarrow> [] | main_elf_file # elves \<Rightarrow>
        (''--eval-command=file '' @ main_elf_file) # map (\<lambda>elf_file. ''--eval-command=add-symbol-file '' @ elf_file) elves) @
     [''--eval-command=target remote :35537'']"

text \<open>
  A run: what became of \<open>main\<close> (\<open>Returned False\<close> for an error passed up), and the server and GDB it started. The
  server's task runs beside it; \<open>main\<close> looks at it only when there is no GDB to wait for.
\<close>

datatype 'd action = Serve 'd string | StartGdb string "string list"

definition cli_main ::
  "'d host \<Rightarrow> cli_args \<Rightarrow> task \<Rightarrow> wait_event list \<Rightarrow> main_exit \<times> 'd action list" where
  "cli_main host args server events =
     (case find_devices host of
        None \<Rightarrow> (Returned False, [])
      | Some [] \<Rightarrow> (Exited 1, [])
      | Some (device # _) \<Rightarrow>
          let addr = (case tcp args of Some a \<Rightarrow> a | None \<Rightarrow> DEFAULT_ADDR) in
          if \<not> bind_addr host addr then (Returned False, [])
          else if tcp args \<noteq> None then
            (case server of Pending \<Rightarrow> Waiting | Finished \<Rightarrow> Returned True | Panicked \<Rightarrow> Returned False, [Serve device addr])
          else case find_map (which_path host) known_gdb_names of
              None \<Rightarrow> (Exited 1, [Serve device addr])
            | Some resolved_gdb \<Rightarrow>
                let cmd = gdb_args (elf_files_to_debug args) in
                if \<not> spawns host resolved_gdb cmd then (Returned False, [Serve device addr])
                else if \<not> takes_signals host then (Returned False, [Serve device addr, StartGdb resolved_gdb cmd])
                else (wait_gdb events, [Serve device addr, StartGdb resolved_gdb cmd]))"

section \<open>Facts\<close>

lemma find_map_None: "find_map f xs = None \<longleftrightarrow> (\<forall>x \<in> set xs. f x = None)"
  by (induction xs) (auto split: option.splits)

text \<open>A signal never ends the wait, however many come: only GDB does.\<close>

lemma wait_gdb_Waiting: "wait_gdb events = Waiting \<longleftrightarrow> (\<forall>status. GdbExit status \<notin> set events)"
  by (induction events rule: wait_gdb.induct) auto

lemma wait_gdb_signals: "set signals \<subseteq> {FirstSignal, SecondSignal} \<Longrightarrow> wait_gdb (signals @ events) = wait_gdb events"
  by (induction signals) auto

text \<open>The process exits with a code of its own exactly without a device, or without both an address and a GDB.\<close>

lemma cli_exits_iff:
  "(\<exists>c. fst (cli_main host args server events) = Exited c) \<longleftrightarrow>
     find_devices host = Some [] \<or>
     (\<exists>d ds. find_devices host = Some (d # ds)) \<and> tcp args = None \<and> bind_addr host DEFAULT_ADDR \<and>
     (\<forall>n \<in> set known_gdb_names. which_path host n = None)"
proof -
  have "wait_gdb events \<noteq> Exited c" for c by (induction events rule: wait_gdb.induct) auto
  then show ?thesis
    by (cases "find_map (which_path host) known_gdb_names")
      (auto simp: cli_main_def Let_def find_map_None [symmetric] split: list.splits option.splits task.splits)
qed

text \<open>GDB is started after the server listens, against the address it listens on and with the symbols loaded first.\<close>

lemma gdb_connects_last:
  assumes "StartGdb gdb cmd \<in> set (snd (cli_main host args server events))"
  shows "\<exists>d. snd (cli_main host args server events) = [Serve d ''127.0.0.1:35537'', StartGdb gdb cmd]"
    and "last cmd = ''--eval-command=target remote :35537''" and "length cmd = Suc (length (elf_files_to_debug args))"
    and "\<exists>n \<in> set known_gdb_names. which_path host n = Some gdb"
proof -
  have f: "find_map f xs = Some y \<Longrightarrow> \<exists>x \<in> set xs. f x = Some y" for f :: "string \<Rightarrow> string option" and xs y
    by (induction xs) (auto split: option.splits)
  show "\<exists>d. snd (cli_main host args server events) = [Serve d ''127.0.0.1:35537'', StartGdb gdb cmd]"
    "last cmd = ''--eval-command=target remote :35537''" "length cmd = Suc (length (elf_files_to_debug args))"
    "\<exists>n \<in> set known_gdb_names. which_path host n = Some gdb"
    using assms f [of "which_path host" known_gdb_names gdb]
    by (auto simp: cli_main_def gdb_args_def DEFAULT_ADDR_def Let_def split: list.splits option.splits if_splits)
qed

text \<open>
  Without a GDB of its own the proxy ends with the client: the run returns when the client closes its connection, and
  with an error when the device cannot be reached.
\<close>

lemma tcp_ends_with_client:
  assumes "find_devices host = Some (d # ds)" and "tcp args = Some addr" and "bind_addr host addr"
  shows "fst (cli_main host args (server_task (serve_device_serial True True dio fuel dec [ClientRead (Some []) written] x w)) events) =
           Returned True"
    and "fst (cli_main host args (server_task (serve_device_serial False accepted dio fuel dec reads x w)) events) = Returned False"
  using assms by (simp_all add: cli_main_def serve_device_serial_def serve_turn_def)

end
