(* ===== verification/Pros_Template.thy ===== *)
theory Pros_Template
  imports Build_Tool "HOL-Library.Sublist"
begin

text \<open>
  \<open>make_pros_template\<close> of \<open>src/xtask/src/main.rs\<close>: the package for PROS, made on a file system. A file system is the
  list of its files, a path the list of its components; a directory exists through its files. The contents of files,
  the serialization of the manifest and the result of running \<open>zip\<close> are parameters.
\<close>

section \<open>The file system\<close>

type_synonym path = "string list"
type_synonym 'c file_system = "(path \<times> 'c) list"

definition remove_dir_all :: "path \<Rightarrow> 'c file_system \<Rightarrow> 'c file_system" where
  "remove_dir_all d fs = filter (\<lambda>(p, _). \<not> prefix d p) fs"

definition write_file :: "path \<Rightarrow> 'c \<Rightarrow> 'c file_system \<Rightarrow> 'c file_system" where
  "write_file p c fs = (p, c) # filter (\<lambda>(q, _). q \<noteq> p) fs"

definition copy_file :: "path \<Rightarrow> path \<Rightarrow> 'c file_system \<Rightarrow> 'c file_system outcome" where
  "copy_file src dst fs = and_then (unwrap ''fs::copy'' (map_of fs src)) (\<lambda>c. ok (write_file dst c fs))"

text \<open>The contents of a directory, with those below it; there is an error when there is no such directory.\<close>

definition copy_dir :: "path \<Rightarrow> path \<Rightarrow> 'c file_system \<Rightarrow> 'c file_system outcome" where
  "copy_dir src dst fs =
     and_then (assert_that (\<exists>p \<in> set (map fst fs). prefix src p) ''fs_extra::dir::copy'') (\<lambda>_.
       ok (fold (\<lambda>(p, c). write_file (dst @ drop (length src) p) c) (filter (\<lambda>(p, _). prefix src p) fs) fs))"

definition dir_content :: "path \<Rightarrow> 'c file_system \<Rightarrow> path list" where
  "dir_content d fs = filter (prefix d) (map fst fs)"

section \<open>The package\<close>

fun path_str :: "path \<Rightarrow> string" where
  "path_str [] = []"
| "path_str [c] = c"
| "path_str (c # cs) = c @ ''/'' @ path_str cs"

definition json_as_str :: "json \<Rightarrow> str option" where
  "json_as_str v = (case v of JStr s \<Rightarrow> Some s | _ \<Rightarrow> None)"

text \<open>The end is the zip file, or the exit code for a \<open>zip\<close> that failed, None for one that was killed.\<close>

definition make_pros_template ::
  "path \<Rightarrow> (json \<Rightarrow> 'c) \<Rightarrow> (path \<Rightarrow> 'c file_system \<Rightarrow> int option) \<Rightarrow> (str \<Rightarrow> string) \<Rightarrow> json \<Rightarrow> path \<Rightarrow> 'c file_system \<Rightarrow>
   ((int + path) \<times> 'c file_system) outcome" where
  "make_pros_template ffi_dist_dir to_vec run_zip display cargo_manifest library fs =
     and_then (unwrap ''version'' (json_as_str (jget (jget cargo_manifest ''package'') ''version''))) (\<lambda>package_version.
     and_then (assert_that (library \<noteq> []) ''library.parent()'') (\<lambda>_.
     let template_staging_dir = butlast library @ [''pros-template''];
         template_id = ''v5gdb@'' @ display package_version;
         template_dir = template_staging_dir @ [template_id];
         fs = remove_dir_all template_staging_dir fs in
     and_then (copy_dir ffi_dist_dir template_dir fs) (\<lambda>fs.
     and_then (copy_file library (template_dir @ [''firmware'', last library]) fs) (\<lambda>fs.
     let files = map (drop (length template_dir)) (dir_content template_dir fs);
         manifest = make_pros_manifest cargo_manifest (map (\<lambda>p. lit (path_str p)) files);
         fs = write_file (template_dir @ [''template.pros'']) (to_vec manifest) fs in
     let status = run_zip template_dir fs in
     ok (if status = Some 0 then Inr (template_staging_dir @ [template_id @ ''.zip''])
         else Inl (case status of Some c \<Rightarrow> c | None \<Rightarrow> 1), fs)))))"

section \<open>What is in it\<close>

definition paths :: "'c file_system \<Rightarrow> path set" where "paths fs = fst ` set fs"

lemma paths_write: "paths (write_file p c fs) = insert p (paths fs)"
  unfolding paths_def write_file_def by force

lemma paths_copy:
  "paths (fold (\<lambda>(p, c). write_file (dst @ drop n p) c) xs fs) = paths fs \<union> (\<lambda>p. dst @ drop n p) ` paths xs"
proof (induction xs arbitrary: fs)
  case (Cons x xs)
  have "paths (x # xs) = insert (fst x) (paths xs)" by (simp add: paths_def)
  then show ?case using Cons by (cases x) (simp add: paths_write)
qed (simp add: paths_def)

lemma paths_filter: "paths (filter (\<lambda>(p, _). P p) fs) = {p \<in> paths fs. P p}"
  unfolding paths_def by force

lemma set_dir_content: "set (dir_content d fs) = {p \<in> paths fs. prefix d p}"
  by (auto simp: dir_content_def paths_def)

text \<open>
  The package holds the distribution, the library and the manifest, nothing of an earlier build, and the manifest
  lists all of it but itself.
\<close>

lemma template_contents:
  assumes "make_pros_template dist to_vec run_zip display m library fs = Inr (r, fs')"
    and "staging = butlast library @ [''pros-template'']" and "\<not> prefix staging dist" and "\<not> prefix dist staging"
    and "json_as_str (jget (jget m ''package'') ''version'') = Some version" and "template = staging @ [''v5gdb@'' @ display version]"
  shows "\<exists>files. {p. template @ p \<in> paths fs'} = insert [''template.pros''] (set files) \<and>
     set files = insert [''firmware'', last library] {p. dist @ p \<in> paths fs} \<and>
     map_of fs' (template @ [''template.pros'']) = Some (to_vec (make_pros_manifest m (map (\<lambda>p. lit (path_str p)) files)))"
proof -
  let ?fs0 = "remove_dir_all staging fs"
  let ?fs1 = "fold (\<lambda>(p, c). write_file (template @ drop (length dist) p) c) (filter (\<lambda>(p, _). prefix dist p) ?fs0) ?fs0"
  obtain c where run: "map_of ?fs1 library = Some c"
    "fs' = write_file (template @ [''template.pros'']) (to_vec (make_pros_manifest m (map (\<lambda>p. lit (path_str p))
       (map (drop (length template)) (dir_content template (write_file (template @ [''firmware'', last library]) c ?fs1))))))
       (write_file (template @ [''firmware'', last library]) c ?fs1)"
    using assms(1,5) unfolding make_pros_template_def assms(2) [symmetric] Let_def
    by (auto simp: and_then_Inr_iff copy_dir_def copy_file_def unwrap_def assms(6) split: option.splits)
  let ?fs2 = "write_file (template @ [''firmware'', last library]) c ?fs1"
  let ?files = "map (drop (length template)) (dir_content template ?fs2)"
  have old: "paths ?fs0 = {p \<in> paths fs. \<not> prefix staging p}" unfolding remove_dir_all_def by (rule paths_filter)
  have none: "template @ p \<notin> paths ?fs0" for p unfolding old assms(6) by simp
  have kept: "dist @ p \<in> paths ?fs0 \<longleftrightarrow> dist @ p \<in> paths fs" for p
    unfolding old using assms(3,4) prefix_same_cases [of staging "dist @ p" dist] by auto
  have copied: "template @ p \<in> paths ?fs1 \<longleftrightarrow> dist @ p \<in> paths fs" for p
  proof -
    have "template @ p \<in> paths ?fs1 \<longleftrightarrow> (\<exists>q \<in> paths ?fs0. prefix dist q \<and> drop (length dist) q = p)"
      using none [of p] unfolding paths_copy paths_filter by auto
    also have "\<dots> \<longleftrightarrow> dist @ p \<in> paths ?fs0" by (auto simp: prefix_def)
    finally show ?thesis by (simp add: kept)
  qed
  have "{p. template @ p \<in> paths ?fs2} = insert [''firmware'', last library] {p. dist @ p \<in> paths fs}"
    using copied unfolding paths_write by auto
  moreover have files: "set ?files = {p. template @ p \<in> paths ?fs2}"
    unfolding set_map set_dir_content by (force simp: prefix_def)
  moreover have "{p. template @ p \<in> paths fs'} = insert [''template.pros''] {p. template @ p \<in> paths ?fs2}"
    unfolding run(2) paths_write by auto
  moreover have "map_of fs' (template @ [''template.pros'']) = Some (to_vec (make_pros_manifest m (map (\<lambda>p. lit (path_str p)) ?files)))"
    unfolding run(2) by (simp add: write_file_def)
  ultimately show ?thesis by blast
qed

end
