(* ===== verification/Sdk_Trampoline.thy ===== *)
theory Sdk_Trampoline
  imports Sdk_Patching Exception_Entry
begin

text \<open>
  \<open>src/src/sdk/sdk_trampoline.s\<close>: the code \<open>redirect_function\<close> writes over a function, instruction by instruction,
  and what a call of the redirected function does. The instructions run at any address; the slot behind the code is
  read through the data side.
\<close>

section \<open>The instructions\<close>

text \<open>Interworking branch (ARMv7-A A2.3.1): an ARM address that is no multiple of 4 is unpredictable, here a panic.\<close>

definition bx :: "u32 \<Rightarrow> cpu \<Rightarrow> cpu outcome" where
  "bx a s =
     (if bit a 0 then ok (s\<lparr>cur_psr := with_bit 5 True (cur_psr s), cur_pc := a AND NOT 1\<rparr>)
      else and_then (assert_that (\<not> bit a 1) ''bx: unpredictable'') (\<lambda>_.
        ok (s\<lparr>cur_psr := with_bit 5 False (cur_psr s), cur_pc := a\<rparr>)))"

text \<open>
  In ARM code a label is found relative to the address of the instruction and 8, rounded down to a multiple of 4; in
  Thumb code \<open>pc\<close> reads as the address of the instruction and 4. Instructions are at \<open>cur_pc\<close>.
\<close>

definition v5gdb_sdk_trampoline_arm :: "cpu \<Rightarrow> cpu outcome" where
  "v5gdb_sdk_trampoline_arm s =
     (let s = (set_r 12 (read_word (ram s) ((cur_pc s + 8) AND NOT 3)) s)\<lparr>cur_pc := cur_pc s + 4\<rparr>
      in bx (core_regs s ! 12) s)"

definition v5gdb_sdk_trampoline_thumb :: "cpu \<Rightarrow> cpu outcome" where
  "v5gdb_sdk_trampoline_thumb s =
     (let s = (set_r 12 (cur_pc s + 4) s)\<lparr>cur_pc := cur_pc s + 2\<rparr>;
          s = (set_r 12 (read_word (ram s) (core_regs s ! 12 + 4)) s)\<lparr>cur_pc := cur_pc s + 4\<rparr>
      in bx (core_regs s ! 12) s)"

text \<open>A call of a redirected function: \<open>bx\<close> to its address, and the trampoline of its instruction set.\<close>

definition call_redirected :: "u32 \<Rightarrow> cpu \<Rightarrow> cpu outcome" where
  "call_redirected target s =
     and_then (bx target s) (\<lambda>s. if ps_thumb (cur_psr s) then v5gdb_sdk_trampoline_thumb s else v5gdb_sdk_trampoline_arm s)"

section \<open>Facts\<close>

definition demo_caller :: cpu where
  "demo_caller = \<lparr>core_regs = replicate 13 0, usr_sp = 0x03900000, usr_lr = 0x03800200, abt_sp = 0, abt_lr = 0, abt_spsr = 0,
     irq_sp = 0, irq_lr = 0, cur_psr = 0x1f, cur_pc = 0x03800100, fp_status = 0, fp_regs = replicate 32 0, ram = (\<lambda>_. 0)\<rparr>"

lemma bx_eq:
  assumes "bit a 0 \<or> \<not> bit a 1"
  shows "bx a s = Inr (s\<lparr>cur_psr := with_bit 5 (bit a 0) (cur_psr s), cur_pc := a AND NOT 1\<rparr>)"
proof (cases "bit a 0")
  case False
  then have "a AND NOT 1 = a" by (intro bit_word_eqI) (auto simp: bit_simps intro: gr0I)
  then show ?thesis using False assms by (simp add: bx_def)
qed (simp add: bx_def)

lemma multiple_of_4: "take_bit 2 w = 0 \<longleftrightarrow> \<not> bit w 0 \<and> \<not> bit (w :: u32) 1"
proof
  assume w: "take_bit 2 w = 0"
  have "bit w i = bit (take_bit 2 w) i" if "i < 2" for i using that by (simp add: bit_simps)
  then show "\<not> bit w 0 \<and> \<not> bit w 1" unfolding w by simp
next
  assume "\<not> bit w 0 \<and> \<not> bit w 1"
  then show "take_bit 2 w = 0" by (intro bit_word_eqI) (auto simp: bit_simps numeral_2_eq_2 less_Suc_eq)
qed

lemma arm_literal:
  assumes "\<not> bit a 0" and "\<not> bit a 1"
  shows "(a + 8) AND NOT 3 = a + (8 :: u32)"
proof -
  have m: "take_bit 2 w = 0 \<longleftrightarrow> unat w mod 4 = 0" for w :: u32
    by (simp add: word_unat_eq_iff unsigned_take_bit_eq take_bit_eq_mod unat_mod)
  have "take_bit 2 a = 0" using assms by (simp add: multiple_of_4)
  then have "unat a mod 4 = 0" by (simp only: m)
  moreover have "unat (a + 8) mod 4 = (unat a + 8) mod 4"
    unfolding unat_word_ariths(1) by (subst mod_mod_cancel) simp_all
  ultimately have "unat (a + 8) mod 4 = 0" by presburger
  then have "\<not> bit (a + 8) 0 \<and> \<not> bit (a + 8) 1" unfolding m [symmetric] by (rule multiple_of_4 [THEN iffD1])
  then have low: "\<not> bit (a + 8) i" if "i < 2" for i using that by (auto simp: numeral_2_eq_2 less_Suc_eq)
  have three: "(3 :: u32) = mask 2" by (simp add: mask_eq_exp_minus_1)
  show ?thesis
    unfolding three using low by (intro bit_word_eqI) (auto simp only: bit_and_iff bit_not_iff bit_mask_iff possible_bit_word)
qed

lemma with_bit_twice: "with_bit i b (with_bit i c w) = with_bit i b (w :: u32)"
  by (intro bit_word_eqI) (simp add: bit_with_bit)

lemma trampoline_arm_eq:
  assumes "\<not> bit (cur_pc s) 0" "\<not> bit (cur_pc s) 1" and "length (core_regs s) = 13"
    and "read_word (ram s) (cur_pc s + 8) = destination" and "bit destination 0 \<or> \<not> bit destination 1"
  shows "v5gdb_sdk_trampoline_arm s =
     Inr (s\<lparr>core_regs := (core_regs s)[12 := destination], cur_psr := with_bit 5 (bit destination 0) (cur_psr s),
            cur_pc := destination AND NOT 1\<rparr>)"
  unfolding v5gdb_sdk_trampoline_arm_def arm_literal [OF assms(1,2)] using assms(3-5)
  by (simp add: set_r_def bx_eq Let_def)

lemma trampoline_thumb_eq:
  assumes "length (core_regs s) = 13" and "read_word (ram s) (cur_pc s + 8) = destination"
    and "bit destination 0 \<or> \<not> bit destination 1"
  shows "v5gdb_sdk_trampoline_thumb s =
     Inr (s\<lparr>core_regs := (core_regs s)[12 := destination], cur_psr := with_bit 5 (bit destination 0) (cur_psr s),
            cur_pc := destination AND NOT 1\<rparr>)"
  using assms by (simp add: v5gdb_sdk_trampoline_thumb_def set_r_def bx_eq Let_def add.assoc)

lemma call_redirected_eq:
  assumes "bit target 0 \<or> \<not> bit target 1" and "length (core_regs s) = 13"
    and "read_word (ram s) ((target AND NOT 1) + 8) = destination" and "bit destination 0 \<or> \<not> bit destination 1"
  shows "call_redirected target s =
     Inr (s\<lparr>core_regs := (core_regs s)[12 := destination], cur_psr := with_bit 5 (bit destination 0) (cur_psr s),
            cur_pc := destination AND NOT 1\<rparr>)"
  using assms
  by (cases "bit target 0")
    (simp_all add: call_redirected_def bx_eq ps_thumb_def bit_with_bit trampoline_arm_eq trampoline_thumb_eq
      with_bit_twice bit_and_iff bit_not_iff bit_1_iff)

text \<open>
  C37: A redirected function does what it is redirected to: the processor fetches the trampoline at its entry, also
  when that lies across two cache lines, no byte outside the first three words of the function changes, and a call of
  it, from either instruction set and to either, arrives at the destination in the destination's instruction set with
  every register as the caller left it but r12.
\<close>
theorem redirected_call_reaches_destination:
  assumes "src = (if target AND 1 \<noteq> 0 then trampoline_thumb syms else trampoline_arm syms) AND NOT 1"
    and "(if target AND 1 \<noteq> 0 then trampoline_thumb_end syms else trampoline_arm_end syms) = src + 8"
    and "entry = target AND NOT 1" and "src \<noteq> 0" and "entry \<noteq> 0" and "unat src + 8 < 2 ^ 32" and "unat entry + 12 < 2 ^ 32"
    and "apart src 8 entry 12" and "bit target 0 \<or> \<not> bit target 1" and "bit destination 0 \<or> \<not> bit destination 1"
    and "wf_cpu s"
  shows "\<exists>m'. redirect_function syms target destination m = Inr m' \<and> load (iview m') entry 8 = load (dview m) src 8 \<and>
     (\<forall>x. \<not> in_range entry 12 x \<longrightarrow> dview m' x = dview m x) \<and>
     call_redirected target (s\<lparr>ram := dview m'\<rparr>) =
       Inr (s\<lparr>ram := dview m', core_regs := (core_regs s)[12 := destination],
              cur_psr := with_bit 5 (bit destination 0) (cur_psr s), cur_pc := destination AND NOT 1\<rparr>)"
proof -
  obtain m' where m': "redirect_function syms target destination m = Inr m'" "load (iview m') entry 8 = load (dview m) src 8"
    "read_word (dview m') (entry + 8) = destination" "\<forall>x. \<not> in_range entry 12 x \<longrightarrow> dview m' x = dview m x"
    using redirect_spec [OF assms(1-8), of destination m] by blast
  have l: "length (core_regs s) = 13" using assms(11) by (simp add: wf_cpu_def)
  have "call_redirected target (s\<lparr>ram := dview m'\<rparr>) =
       Inr (s\<lparr>ram := dview m', core_regs := (core_regs s)[12 := destination],
              cur_psr := with_bit 5 (bit destination 0) (cur_psr s), cur_pc := destination AND NOT 1\<rparr>)"
    using m'(3) l by (subst call_redirected_eq [OF assms(9) _ _ assms(10)]) (simp_all add: assms(3))
  then show ?thesis using m'(1,2,4) by blast
qed

text \<open>A Thumb function on an odd halfword, redirected to ARM code.\<close>

theorem redirected_call_reaches_destination_witness:
  "\<exists>m' s'. redirect_function \<lparr>trampoline_arm = 0x1000, trampoline_arm_end = 0x1008, trampoline_thumb = 0x1011, trampoline_thumb_end = 0x1018\<rparr>
       0x201b 0x3000 demo_vmsa = Inr m' \<and> call_redirected 0x201b (demo_caller\<lparr>ram := dview m'\<rparr>) = Inr s' \<and>
     cur_pc s' = 0x3000 \<and> \<not> ps_thumb (cur_psr s')"
proof -
  have a: "apart 0x1010 8 0x201a 12" by (simp add: apart_def)
  have b: "bit (0x201b :: u32) 0" "\<not> bit (0x3000 :: u32) 0" "\<not> bit (0x3000 :: u32) 1" by (simp_all add: bit_numeral_rec)
  show ?thesis
    using redirected_call_reaches_destination [of "0x1010" "0x201b"
        "\<lparr>trampoline_arm = 0x1000, trampoline_arm_end = 0x1008, trampoline_thumb = 0x1011, trampoline_thumb_end = 0x1018\<rparr>"
        "0x201a" "0x3000" demo_caller demo_vmsa] a b
    by (auto simp: ps_thumb_def bit_with_bit demo_caller_def wf_cpu_def)
qed

end
