(* ===== verification/Transport_Contract.thy ===== *)
theory Transport_Contract
  imports Exported_Handlers C_Interface
begin

text \<open>
  The trait \<open>Transport\<close> of \<open>src/src/transport/mod.rs\<close> as a contract: what the poll of \<open>src/src/debugger/mod.rs\<close> relies
  on, whichever connection the debugger is installed with, and the two connections of the repository that keep it, the
  serial line and the callbacks of a C program.
\<close>

section \<open>The contract\<close>

text \<open>\<open>pending\<close> are the bytes that have arrived and are not read. None is a call that does not return.\<close>

locale transport =
  fixes valid :: "'t \<Rightarrow> bool"
    and pending :: "'t \<Rightarrow> u8 list"
    and try_read :: "'t \<Rightarrow> (('e + u8 option) \<times> 't) option"
  assumes no_byte: "valid t \<Longrightarrow> pending t = [] \<Longrightarrow> \<exists>t'. try_read t = Some (Inr None, t') \<and> valid t' \<and> pending t' = []"
    and next_byte: "valid t \<Longrightarrow> pending t = c # cs \<Longrightarrow> \<exists>t'. try_read t = Some (Inr (Some c), t') \<and> valid t' \<and> pending t' = cs"

text \<open>A connection that can be looked at without reading, as \<open>ConnectionExt\<close> of gdbstub asks.\<close>

locale peekable =
  fixes valid :: "'t \<Rightarrow> bool"
    and pending :: "'t \<Rightarrow> u8 list"
    and peek :: "'t \<Rightarrow> (('e + u8 option) \<times> 't) option"
    and read :: "'t \<Rightarrow> (('e + u8) \<times> 't) option"
  assumes peeks: "valid t \<Longrightarrow> \<exists>t'. peek t = Some (Inr (if pending t = [] then None else Some (hd (pending t))), t') \<and>
      valid t' \<and> pending t' = pending t"
    and reads: "valid t \<Longrightarrow> pending t = c # cs \<Longrightarrow> \<exists>t'. read t = Some (Inr c, t') \<and> valid t' \<and> pending t' = cs"

text \<open>The default method of the trait makes a transport of it.\<close>

sublocale peekable \<subseteq> transport valid pending "default_try_read peek read"
proof
  fix t c cs
  assume v: "valid t"
  obtain t' where p: "peek t = Some (Inr (if pending t = [] then None else Some (hd (pending t))), t')" "valid t'" "pending t' = pending t"
    using peeks [OF v] by blast
  show "\<exists>t'. default_try_read peek read t = Some (Inr None, t') \<and> valid t' \<and> pending t' = []" if "pending t = []"
    using p that by (simp add: default_try_read_def)
  show "\<exists>t'. default_try_read peek read t = Some (Inr (Some c), t') \<and> valid t' \<and> pending t' = cs" if "pending t = c # cs"
    using p that reads [of t' c cs] by (auto simp: default_try_read_def)
qed

section \<open>The poll over any transport\<close>

text \<open>What the code relies on of gdbstub: \<open>borrow_conn\<close> gives the connection, so its bytes come from there.\<close>

definition connected :: "'g gdbstub \<Rightarrow> ('g \<Rightarrow> 't) \<Rightarrow> ('t \<Rightarrow> (('e + u8 option) \<times> 't) option) \<Rightarrow> bool" where
  "connected api conn try_read \<longleftrightarrow>
     (\<forall>g r t. try_read (conn g) = Some (r, t) \<longrightarrow>
        (\<exists>g'. conn_try_read api g = (map_sum (\<lambda>_. ()) id r, g') \<and> conn g' = t))"

lemma connectedE:
  assumes "connected api conn try_read" and "try_read (conn g) = Some (r, t)"
  obtains g' where "conn_try_read api g = (map_sum (\<lambda>_. ()) id r, g')" and "conn g' = t"
  using assms unfolding connected_def by blast

context transport
begin

lemma connected_byte:
  assumes "connected api conn try_read" and "valid (conn g)" and "pending (conn g) = c # cs"
  obtains g' where "conn_try_read api g = (Inr (Some c), g')" "valid (conn g')" "pending (conn g') = cs"
proof -
  obtain t where t: "try_read (conn g) = Some (Inr (Some c), t)" "valid t" "pending t = cs" using next_byte [OF assms(2,3)] by blast
  show thesis by (rule connectedE [OF assms(1) t(1)]) (use t(2,3) that in simp)
qed

lemma connected_none:
  assumes "connected api conn try_read" and "valid (conn g)" and "pending (conn g) = []"
  obtains g' where "conn_try_read api g = (Inr None, g')" "valid (conn g')" "pending (conn g') = []"
proof -
  obtain t where t: "try_read (conn g) = Some (Inr None, t)" "valid t" "pending t = []" using no_byte [OF assms(2,3)] by blast
  show thesis by (rule connectedE [OF assms(1) t(1)]) (use t(2,3) that in simp)
qed

lemma scan_finds:
  assumes "connected api conn try_read" and "target_inv orig depth t m" and "\<not> breaks_paused t"
  shows "valid (conn g) \<Longrightarrow> pending (conn g) = bs \<Longrightarrow> length bs < fuel \<Longrightarrow>
    \<exists>g' t'. poll_scan fuel api g t = Some (Inr (g', t')) \<and> valid (conn g') \<and> pending (conn g') = after_poll bs \<and>
      interrupt_pending t' = (interrupt_pending t \<or> CTRL_C \<in> set bs) \<and> (CTRL_C \<notin> set bs \<longrightarrow> t' = t)"
proof (induction bs arbitrary: g fuel)
  case Nil
  then obtain k where "fuel = Suc k" by (cases fuel) auto
  moreover obtain g1 where "conn_try_read api g = (Inr None, g1)" "valid (conn g1)" "pending (conn g1) = []"
    by (rule connected_none [OF assms(1) Nil(1,2)])
  ultimately show ?case by simp
next
  case (Cons c cs)
  then obtain k where k: "fuel = Suc k" "length cs < k" by (cases fuel) auto
  obtain g1 where read: "conn_try_read api g = (Inr (Some c), g1)" "valid (conn g1)" "pending (conn g1) = cs"
    by (rule connected_byte [OF assms(1) Cons.prems(1,2)])
  show ?case
  proof (cases "c = CTRL_C")
    case True
    show ?thesis
      by (rule request_interrupt_spec [OF assms(2,3)]) (use True k read in auto)
  next
    case False
    then show ?thesis using Cons.IH [OF read(2,3) k(2)] k(1) read(1) by auto
  qed
qed

text \<open>The interrupt's poll when it is due, between events.\<close>

lemma due_poll:
  assumes "connected api conn try_read" and "installed i = Some d" and "system_inv depth (d, b)"
    and "stage (session d) = SessionActive (Running g)" and "\<not> session_locked d" and "10 \<le> now - last_poll_time_ms i"
    and "valid (conn g)" and "length (pending (conn g)) < fuel"
  shows "\<exists>g' t' d'. v5gdb_irq_poll fuel api now i = Some (Inr (i\<lparr>last_poll_time_ms := now, installed := Some d'\<rparr>)) \<and>
     d' = d\<lparr>session := (session d)\<lparr>stage := SessionActive (Running g'), sess_target := t'\<rparr>\<rparr> \<and>
     system_inv depth (d', b) \<and> pending (conn g') = after_poll (pending (conn g)) \<and>
     interrupt_pending t' = (interrupt_pending (sess_target (session d)) \<or> CTRL_C \<in> set (pending (conn g))) \<and>
     (CTRL_C \<notin> set (pending (conn g)) \<longrightarrow> t' = sess_target (session d))"
proof -
  obtain orig where o: "target_inv orig depth (sess_target (session d)) b" "\<not> breaks_paused (sess_target (session d))"
    using assms(3) by (auto simp: system_inv_def)
  obtain g' t' where p: "poll_scan fuel api g (sess_target (session d)) = Some (Inr (g', t'))"
    "pending (conn g') = after_poll (pending (conn g))"
    "interrupt_pending t' = (interrupt_pending (sess_target (session d)) \<or> CTRL_C \<in> set (pending (conn g)))"
    "CTRL_C \<notin> set (pending (conn g)) \<longrightarrow> t' = sess_target (session d)"
    using scan_finds [OF assms(1) o assms(7) refl assms(8)] by blast
  let ?d = "d\<lparr>session := (session d)\<lparr>stage := SessionActive (Running g'), sess_target := t'\<rparr>\<rparr>"
  have r: "v5gdb_irq_poll fuel api now i = Some (Inr (i\<lparr>last_poll_time_ms := now, installed := Some ?d\<rparr>))"
    using assms(2,4-6) p(1) by (simp add: v5gdb_irq_poll_def irq_poll_def IRQ_POLL_INTERVAL_MS_def poll_def not_less [symmetric] Let_def)
  have "system_inv depth (?d, b)"
    using poll_scan_keeps [OF p(1) o] assms(3) by (auto simp: system_inv_def)
  then show ?thesis using r p(2-4) by blast
qed

end

section \<open>The serial line\<close>

text \<open>
  What VEXos documents of a read from the user channel: the next byte that has arrived, or -1 when there is none.
  \<open>stdio_next\<close> is \<open>StdioTransport::try_read\<close>; the functions of VEXos are part of the state here.
\<close>

definition receives :: "'p sdk_serial \<Rightarrow> ('p \<Rightarrow> u8 list) \<Rightarrow> bool" where
  "receives sdk arrived \<longleftrightarrow>
     (\<forall>p. \<exists>p'. sys_read sdk CH_USER p = (case arrived p of [] \<Rightarrow> -1 | c # _ \<Rightarrow> int (unat c), p') \<and> arrived p' = tl (arrived p))"

definition stdio_valid :: "'p sdk_serial \<times> ('p \<Rightarrow> u8 list) \<times> 'p \<Rightarrow> bool" where
  "stdio_valid x = (case x of (sdk, arrived, _) \<Rightarrow> receives sdk arrived)"

definition stdio_pending :: "'p sdk_serial \<times> ('p \<Rightarrow> u8 list) \<times> 'p \<Rightarrow> u8 list" where
  "stdio_pending x = (case x of (_, arrived, p) \<Rightarrow> arrived p)"

definition stdio_next ::
  "'p sdk_serial \<times> ('p \<Rightarrow> u8 list) \<times> 'p \<Rightarrow> ((unit + u8 option) \<times> 'p sdk_serial \<times> ('p \<Rightarrow> u8 list) \<times> 'p) option" where
  "stdio_next x = (case x of (sdk, arrived, p) \<Rightarrow> case stdio_try_read sdk p of (r, p) \<Rightarrow> Some (Inr r, sdk, arrived, p))"

lemma receives_read:
  assumes "receives sdk arrived"
  obtains p' where "stdio_try_read sdk p = (if arrived p = [] then None else Some (hd (arrived p)), p')" "arrived p' = tl (arrived p)"
proof -
  obtain p' where p': "sys_read sdk CH_USER p = (case arrived p of [] \<Rightarrow> -1 | c # _ \<Rightarrow> int (unat c), p')" "arrived p' = tl (arrived p)"
    using assms unfolding receives_def by blast
  have "int (unat c) \<noteq> -1" for c :: u8 by linarith
  then show thesis
    using that [of p'] p' by (cases "arrived p") (simp_all add: stdio_try_read_def serial_read_byte_def)
qed

interpretation stdio: transport stdio_valid stdio_pending stdio_next
proof
  fix t :: "'p sdk_serial \<times> ('p \<Rightarrow> u8 list) \<times> 'p" and c cs
  assume v: "stdio_valid t"
  obtain sdk arrived p where t: "t = (sdk, arrived, p)" by (cases t)
  have r: "receives sdk arrived" using v t by (simp add: stdio_valid_def)
  obtain p' where p': "stdio_try_read sdk p = (if arrived p = [] then None else Some (hd (arrived p)), p')" "arrived p' = tl (arrived p)"
    by (rule receives_read [OF r])
  show "\<exists>t'. stdio_next t = Some (Inr None, t') \<and> stdio_valid t' \<and> stdio_pending t' = []" if "stdio_pending t = []"
    using that p' r by (simp add: t stdio_next_def stdio_pending_def stdio_valid_def)
  show "\<exists>t'. stdio_next t = Some (Inr (Some c), t') \<and> stdio_valid t' \<and> stdio_pending t' = cs" if "stdio_pending t = c # cs"
    using that p' r by (simp add: t stdio_next_def stdio_pending_def stdio_valid_def)
qed

section \<open>The callbacks of a C program\<close>

text \<open>What the header asks of the callbacks: peeking shows the next byte, reading takes it.\<close>

definition queue_api :: "'c transport_impl \<Rightarrow> ('c \<Rightarrow> u8 list) \<Rightarrow> bool" where
  "queue_api api arrived \<longleftrightarrow>
     (\<forall>c. \<exists>c'. cb_peek_byte api c = (case arrived c of [] \<Rightarrow> PeekEmpty | b # _ \<Rightarrow> PeekOk b, c') \<and> arrived c' = arrived c) \<and>
     (\<forall>c b bs. arrived c = b # bs \<longrightarrow> (\<exists>c'. cb_read_byte api c = (ReadOk b, c') \<and> arrived c' = bs))"

record 'c c_connection =
  conn_fuel :: nat
  conn_mem :: memory
  conn_api :: "'c transport_impl"
  conn_arrived :: "'c \<Rightarrow> u8 list"
  conn_data :: 'c

definition c_valid :: "'c c_connection \<Rightarrow> bool" where "c_valid x = queue_api (conn_api x) (conn_arrived x)"
definition c_pending :: "'c c_connection \<Rightarrow> u8 list" where "c_pending x = conn_arrived x (conn_data x)"

definition c_peek :: "'c c_connection \<Rightarrow> ((str + u8 option) \<times> 'c c_connection) option" where
  "c_peek x = map_option (\<lambda>(r, c). (r, x\<lparr>conn_data := c\<rparr>)) (impl_peek (conn_fuel x) (conn_mem x) (conn_api x) (conn_data x))"

definition c_read :: "'c c_connection \<Rightarrow> ((str + u8) \<times> 'c c_connection) option" where
  "c_read x = map_option (\<lambda>(r, c). (r, x\<lparr>conn_data := c\<rparr>)) (impl_read (conn_fuel x) (conn_mem x) (conn_api x) (conn_data x))"

interpretation callbacks: peekable c_valid c_pending c_peek c_read
proof
  fix t :: "'c c_connection" and c cs
  assume v: "c_valid t"
  have q: "\<forall>c. \<exists>c'. cb_peek_byte (conn_api t) c = (case conn_arrived t c of [] \<Rightarrow> PeekEmpty | b # _ \<Rightarrow> PeekOk b, c') \<and>
      conn_arrived t c' = conn_arrived t c"
    "\<forall>c b bs. conn_arrived t c = b # bs \<longrightarrow> (\<exists>c'. cb_read_byte (conn_api t) c = (ReadOk b, c') \<and> conn_arrived t c' = bs)"
    using v by (simp_all add: c_valid_def queue_api_def)
  obtain c' where p: "cb_peek_byte (conn_api t) (conn_data t) =
      (case c_pending t of [] \<Rightarrow> PeekEmpty | b # _ \<Rightarrow> PeekOk b, c')" "conn_arrived t c' = c_pending t"
    using q(1) by (auto simp: c_pending_def)
  show "\<exists>t'. c_peek t = Some (Inr (if c_pending t = [] then None else Some (hd (c_pending t))), t') \<and>
      c_valid t' \<and> c_pending t' = c_pending t"
    using p v by (cases "c_pending t") (simp_all add: c_peek_def impl_peek_def c_valid_def c_pending_def)
  show "\<exists>t'. c_read t = Some (Inr c, t') \<and> c_valid t' \<and> c_pending t' = cs" if e: "c_pending t = c # cs"
  proof -
    obtain c' where "cb_read_byte (conn_api t) (conn_data t) = (ReadOk c, c')" "conn_arrived t c' = cs"
      using q(2) e [unfolded c_pending_def] by blast
    then show ?thesis using v by (simp add: c_read_def impl_read_def c_valid_def c_pending_def)
  qed
qed

section \<open>Ctrl-C\<close>

text \<open>What the C transport reads is the default method over its callbacks.\<close>

lemma c_try_read:
  "default_try_read c_peek c_read x =
     map_option (\<lambda>(r, c). (r, x\<lparr>conn_data := c\<rparr>)) (transport_try_read (conn_fuel x) (conn_mem x) (conn_api x) (conn_data x))"
  by (auto simp: default_try_read_def transport_try_read_def c_peek_def c_read_def option.map_comp comp_def case_prod_unfold
      map_sum.id split: option.splits sum.splits)

lemma callbacks_poll:
  assumes "queue_api impl arrived" and "connected api conn (transport_try_read k mem impl)"
    and "installed i = Some d" and "system_inv depth (d, b)" and "stage (session d) = SessionActive (Running g)"
    and "\<not> session_locked d" and "10 \<le> now - last_poll_time_ms i" and "length (arrived (conn g)) < fuel"
  shows "\<exists>g' t' d'. v5gdb_irq_poll fuel api now i = Some (Inr (i\<lparr>last_poll_time_ms := now, installed := Some d'\<rparr>)) \<and>
     d' = d\<lparr>session := (session d)\<lparr>stage := SessionActive (Running g'), sess_target := t'\<rparr>\<rparr> \<and>
     system_inv depth (d', b) \<and> arrived (conn g') = after_poll (arrived (conn g)) \<and>
     interrupt_pending t' = (interrupt_pending (sess_target (session d)) \<or> CTRL_C \<in> set (arrived (conn g))) \<and>
     (CTRL_C \<notin> set (arrived (conn g)) \<longrightarrow> t' = sess_target (session d))"
proof -
  let ?conn = "\<lambda>g. \<lparr>conn_fuel = k, conn_mem = mem, conn_api = impl, conn_arrived = arrived, conn_data = conn g\<rparr>"
  have c: "connected api ?conn (default_try_read c_peek c_read)"
    using assms(2) by (fastforce simp: connected_def c_try_read)
  have "c_valid (?conn g)" "length (c_pending (?conn g)) < fuel" using assms(1,8) by (simp_all add: c_valid_def c_pending_def)
  from callbacks.due_poll [OF c assms(3-7) this] show ?thesis by (simp only: c_pending_def c_connection.simps)
qed

text \<open>
  C7: When an interrupt's poll is due while the program runs, it takes what the host has sent over the serial line up
  to a Ctrl-C and asks for the interrupt exactly when there is one. It ends after one look per byte, loses no byte
  behind the Ctrl-C, without one leaves the target alone, notes the time, and keeps the invariant of the system.
\<close>
theorem serial_poll_interrupts:
  assumes "receives sdk arrived" and "connected api conn (\<lambda>p. case stdio_try_read sdk p of (r, p) \<Rightarrow> Some (Inr r :: unit + u8 option, p))"
    and "installed i = Some d" and "system_inv depth (d, b)" and "stage (session d) = SessionActive (Running g)"
    and "\<not> session_locked d" and "10 \<le> now - last_poll_time_ms i" and "length (arrived (conn g)) < fuel"
  shows "\<exists>g' t' d'. v5gdb_irq_poll fuel api now i = Some (Inr (i\<lparr>last_poll_time_ms := now, installed := Some d'\<rparr>)) \<and>
     d' = d\<lparr>session := (session d)\<lparr>stage := SessionActive (Running g'), sess_target := t'\<rparr>\<rparr> \<and>
     system_inv depth (d', b) \<and> arrived (conn g') = after_poll (arrived (conn g)) \<and>
     interrupt_pending t' = (interrupt_pending (sess_target (session d)) \<or> CTRL_C \<in> set (arrived (conn g))) \<and>
     (CTRL_C \<notin> set (arrived (conn g)) \<longrightarrow> t' = sess_target (session d))"
proof -
  let ?conn = "\<lambda>g. (sdk, arrived, conn g)"
  have c: "connected api ?conn stdio_next"
    using assms(2) by (fastforce simp: connected_def stdio_next_def split: prod.splits)
  have "stdio_valid (?conn g)" "length (stdio_pending (?conn g)) < fuel" using assms(1,8) by (simp_all add: stdio_valid_def stdio_pending_def)
  from stdio.due_poll [OF c assms(3-7) this] show ?thesis by (simp only: stdio_pending_def prod.case)
qed

text \<open>A line on which the host has sent an acknowledgement, a Ctrl-C and the start of a packet.\<close>

definition demo_line :: "u8 list sdk_serial" where
  "demo_line = \<lparr>sys_write_char = (\<lambda>_ _ p. (1, p)), sys_write_buf = (\<lambda>_ buf p. (int (length buf), p)),
     sys_read = (\<lambda>_ p. (case p of [] \<Rightarrow> -1 | c # _ \<Rightarrow> int (unat c), tl p)),
     sys_peek = (\<lambda>_ p. (case p of [] \<Rightarrow> -1 | c # _ \<Rightarrow> int (unat c), p)), sys_write_free = (\<lambda>_ _. 2048), vex_tasks_run = id\<rparr>"

definition polled_statics :: "u8 list statics" where
  "polled_statics = vectors.extend \<lparr>vbar = 0, original_vector_addresses = [], original_vector_addresses_set = True\<rparr>
     \<lparr>installed = Some polled_demo, last_poll_time_ms = 100\<rparr>"

theorem serial_poll_interrupts_witness:
  "\<exists>t' d'. v5gdb_irq_poll 4 pending_demo 110 polled_statics = Some (Inr (polled_statics\<lparr>last_poll_time_ms := 110, installed := Some d'\<rparr>)) \<and>
     stage (session d') = SessionActive (Running [0x24]) \<and> sess_target (session d') = t' \<and> interrupt_pending t'"
proof -
  have r: "receives demo_line id" by (auto simp: receives_def demo_line_def split: list.splits)
  have u: "uint c \<noteq> -1" for c :: u8 using uint_ge_0 [of c] by linarith
  have c: "connected pending_demo id (\<lambda>p. case stdio_try_read demo_line p of (r, p) \<Rightarrow> Some (Inr r :: unit + u8 option, p))"
    unfolding connected_def
    by (auto simp: pending_demo_def Let_def stdio_try_read_def serial_read_byte_def demo_line_def u split: list.splits)
  have d: "installed polled_statics = Some polled_demo" "system_inv 0 (polled_demo, demo_brain False)" "\<not> session_locked polled_demo"
    "stage (session polled_demo) = SessionActive (Running [0x2B, 3, 0x24])" "(10 :: u32) \<le> 110 - last_poll_time_ms polled_statics"
    using demo_brain_inv [of 12 False]
    by (auto simp: polled_statics_def vectors.defs system_inv_def polled_demo_def demo_target_def)
  have "length (id (id [0x2B, 3, 0x24 :: u8])) < 4" by simp
  from serial_poll_interrupts [OF r c d(1,2,4,3,5) this] show ?thesis by (auto simp: CTRL_C_def)
qed

end
