(* ===== verification/Step_Properties.thy ===== *)
theory Step_Properties
  imports Session_Reachability
begin

text \<open>
  A single step from the request to the next stop: the request of GDB, the way out of the monitor, the one
  instruction of the program with the other tasks held, and the way back in. Before it, the breakpoint a program
  sets itself (\<open>breakpoint!\<close> of \<open>src/src/lib.rs\<close>, \<open>v5gdb_breakpoint\<close> of \<open>src/ffi/src/lib.rs\<close>).
\<close>

lemma hw_reports_simps [simp]:
  "breaks_paused (hw_reports status t) = breaks_paused t" "breaks (hw_reports status t) = breaks t"
  "single_step_request (hw_reports status t) = single_step_request t"
  "interrupt_pending (hw_reports status t) = interrupt_pending t"
  "last_break_reason (target_hw (hw_reports status t)) = method_of_entry status"
  "match_keys (target_hw (hw_reports status t)) = match_keys (target_hw t)"
proof -
  show "match_keys (target_hw (hw_reports status t)) = match_keys (target_hw t)"
    by (simp add: match_keys_def hw_keys_def held_def num_def hw_reports_def Let_def)
qed (simp_all add: hw_reports_def last_break_reason_def)

section \<open>A breakpoint of the program's own\<close>

text \<open>What the assembler makes of \<open>bkpt\<close> in either instruction set.\<close>

definition manual_breakpoint :: "bool \<Rightarrow> instruction" where
  "manual_breakpoint thumb = (if thumb then Thumb16 0xBE00 else Arm 0xE1200070)"

text \<open>It is reported to GDB as a trap, and the program goes on behind it.\<close>

lemma manual_breakpoint_passed:
  assumes "target_inv orig depth t m" and "\<not> breaks_paused t" and ctx: "wf_context ctx" "fetchable ctx"
    and "last_break_reason (target_hw t) = Some BkptInstr" and "query_sw_breakpoint (program_counter ctx) t = None"
    and "read_instr orig ctx = Inr (manual_breakpoint thumb)"
  shows "\<exists>t' m'. enter_breakpoint ctx t m = Inr (UntrackedSoftwareBreak, t', m') \<and>
           exception_ctx t' = ctx\<lparr>program_counter := program_counter ctx + (if thumb then 2 else 4)\<rparr> \<and>
           gdb_stop_reason m' t' = and_then (current_thread m') (\<lambda>tid. ok (SignalWithThread SIGTRAP tid))"
proof -
  have untracked: "stop_class (program_counter ctx) t = UntrackedSoftwareBreak" using assms(5,6) by (simp add: stop_class_def)
  show ?thesis
  proof (rule enter_breakpoint_spec [OF assms(1,2) ctx])
    fix r t' m' pc
    assume r: "enter_breakpoint ctx t m = Inr (r, t', m')" "r = stop_class (program_counter ctx) t" "stop_reason t' = r"
      "monitor_status t' = Active" "exception_ctx t' = ctx\<lparr>program_counter := pc\<rparr>"
      "if r = UntrackedSoftwareBreak then unat pc = unat (program_counter ctx) + instr_size (projr (read_instr orig ctx))
       else pc = program_counter ctx"
    have "unat pc = unat (program_counter ctx) + (if thumb then 2 else 4)"
      using r(2,6) untracked assms(7) by (simp add: manual_breakpoint_def)
    then have "pc = program_counter ctx + (if thumb then 2 else 4)"
      using ctx(2) unat_add_u32 [of "program_counter ctx" "if thumb then 2 else 4"]
      by (cases thumb) (simp_all add: fetchable_def word_unat_eq_iff)
    then show ?thesis
      using r untracked by (intro exI [of _ t'] exI [of _ m']) (simp add: gdb_stop_reason_def)
  qed
qed

section \<open>A single step\<close>

text \<open>
  The monitor \<open>(t, m)\<close> again, one instruction later: stopped in \<open>ctx\<close>, with the breakpoints, comparators and
  suspensions it had.
\<close>

definition stopped_again ::
  "nat \<Rightarrow> debug_event_context \<Rightarrow> 't v5_target_scheme \<Rightarrow> 'm machine_scheme \<Rightarrow> 't v5_target_scheme \<Rightarrow> 'm machine_scheme \<Rightarrow> bool" where
  "stopped_again depth ctx t m t' m' \<longleftrightarrow>
     target_inv (dview m') depth t' m' \<and> breaks_paused t' \<and> exception_ctx t' = ctx \<and>
     gdb_stop_reason m' t' = and_then (current_thread m') (\<lambda>tid. ok (HwBreak tid)) \<and>
     single_step_request t' = None \<and> hw_keys (target_hw t') = hw_keys (target_hw t) \<and> breaks t' = breaks t \<and>
     (freertos m \<longrightarrow> suspend_depth m' = suspend_depth m)"

text \<open>
  C18: A single step works. In the monitor, whatever hardware breakpoints GDB holds, a step from an aligned program
  counter is set up, and the way out leaves the scheduler suspended once more than the program had it and arms one
  comparator, which stops the processor at every address outside the instruction. Whatever the program then does to
  its memory beside the breakpoints, the stop that comparator causes is taken, is reported to GDB as a hardware
  breakpoint of the current thread with the registers as the instruction left them, and the monitor is as it was
  before the step: the comparators, the software breakpoints and the suspension are the same and no step is pending.
\<close>
theorem single_step_completes:
  assumes inv: "target_inv orig depth t m" and paused: "breaks_paused t" and none: "single_step_request t = None"
    and al: "unat (program_counter (exception_ctx t)) mod instr_align (ps_thumb (cpsr (exception_ctx t))) = 0"
  shows "\<exists>t1 t2 m2 w bas.
           step t = Inr t1 \<and> leave_breakpoint t1 m = Inr (False, exception_ctx t, t2, m2) \<and>
           (freertos m \<longrightarrow> suspend_depth (overlay_restore False m2) = depth + 1) \<and>
           step_keys (target_hw t2) = {(Some UnlinkedInstrAddressMismatch, w, bas)} \<and>
           (\<forall>pc. hw_hit w bas pc \<longleftrightarrow>
              in_range (program_counter (exception_ctx t)) (instr_align (ps_thumb (cpsr (exception_ctx t)))) pc) \<and>
           (\<forall>m3 ctx status.
              spares_breaks t2 (dview m2) (dview m3) \<longrightarrow> freertos m3 = freertos m2 \<longrightarrow>
              suspend_depth m3 = suspend_depth (overlay_restore False m2) \<longrightarrow>
              wf_context ctx \<longrightarrow> fetchable ctx \<longrightarrow> method_of_entry status = Some Breakpoint \<longrightarrow>
              (\<exists>t4 m4. enter_breakpoint ctx (hw_reports status t2) m3 = Inr (HardwareBreak, t4, m4) \<and>
                 stopped_again depth ctx t m t4 m4))"
proof -
  obtain t1 w bas where s: "step t = Inr t1" "target_inv orig depth t1 m" "single_step_request t1 \<noteq> None"
    "breaks_paused t1" "\<not> interrupt_pending t1" "breaks t1 = breaks t" "exception_ctx t1 = exception_ctx t"
    "match_keys (target_hw t1) = match_keys (target_hw t)"
    "step_keys (target_hw t1) = {(Some UnlinkedInstrAddressMismatch, w, bas)}"
    "\<forall>pc. hw_hit w bas pc \<longleftrightarrow>
       in_range (program_counter (exception_ctx t)) (instr_align (ps_thumb (cpsr (exception_ctx t)))) pc"
    using single_step_always_possible [OF assms] by blast
  obtain t2 m2 where l: "leave_breakpoint t1 m = Inr (False, exception_ctx t, t2, m2)"
    "target_inv orig depth t2 (overlay_restore False m2)" "\<not> breaks_paused t2"
    "single_step_request t2 = single_step_request t1" "breaks t2 = map (enable_slot True) (breaks t1)"
    "freertos m2 = freertos m" "hw_keys (target_hw t2) = hw_keys (target_hw t1)" "interrupt_pending t2 = interrupt_pending t1"
    by (rule leave_breakpoint_spec [OF s(2,4)]) (use s(3,7) in auto)
  have keys: "match_keys (target_hw t2) = match_keys (target_hw t)" "step_keys (target_hw t2) = step_keys (target_hw t1)"
    using l(7) s(8) by (simp_all add: match_keys_def step_keys_def)
  have susp: "freertos m \<longrightarrow> suspend_depth m = depth + 1" "freertos m \<longrightarrow> suspend_depth (overlay_restore False m2) = depth + 1"
    using inv paused l(2,4,6) s(3) by (auto simp: target_inv_def sched_inv_def overlay_restore_def Let_def)
  have t_keys: "hw_keys (target_hw t) = match_keys (target_hw t)"
    using inv paused none hw_keys_parts(1) [of "target_hw t"]
    by (simp add: target_inv_def hw_target_inv_def pending_keys_def)
  have again: "map (enable_slot False) (breaks t2) = breaks t"
    unfolding l(5) s(6) by (rule disarm) (use inv paused in \<open>simp add: target_inv_def sw_inv_def\<close>)
  have "\<exists>t4 m4. enter_breakpoint ctx (hw_reports status t2) m3 = Inr (HardwareBreak, t4, m4) \<and> stopped_again depth ctx t m t4 m4"
    if run: "spares_breaks t2 (dview m2) (dview m3)" "freertos m3 = freertos m2"
      "suspend_depth m3 = suspend_depth (overlay_restore False m2)"
      and ctx: "wf_context ctx" "fetchable ctx" and status: "method_of_entry status = Some Breakpoint" for m3 ctx status
  proof -
    obtain orig' where o: "target_inv orig' depth (hw_reports status t2) m3"
      using program_keeps [OF l(2), of m3] run by (auto simp: hw_reports_inv overlay_restore_def Let_def)
    have "stop_class (program_counter ctx) (hw_reports status t2) = HardwareBreak"
      using status l(8) s(5) by (simp add: stop_class_def)
    then obtain t4 m4 where e:
      "enter_breakpoint ctx (hw_reports status t2) m3 = Inr (HardwareBreak, t4, m4)"
      "target_inv orig' depth t4 m4" "breaks_paused t4" "single_step_request t4 = None" "monitor_status t4 = Active"
      "dview m4 = orig'" "stop_reason t4 = HardwareBreak" "exception_ctx t4 = ctx"
      "match_keys (target_hw t4) = match_keys (target_hw t2)" "freertos m4 = freertos m3"
      "breaks t4 = map (enable_slot False) (breaks t2)"
      by (cases rule: enter_breakpoint_spec [OF o _ ctx]) (use l(3) in auto)
    have "hw_keys (target_hw t4) = match_keys (target_hw t4)"
      using e(2,3,4) hw_keys_parts(1) [of "target_hw t4"] by (simp add: target_inv_def hw_target_inv_def pending_keys_def)
    then show ?thesis
      using e keys(1) t_keys again susp(1) run(2) l(6)
      by (intro exI [of _ t4] exI [of _ m4]) (auto simp: stopped_again_def gdb_stop_reason_def stopped_inv_def target_inv_def sched_inv_def)
  qed
  then show ?thesis
    using s(1,9,10) l(1) keys(2) susp(2)
    by (intro exI [of _ t1] exI [of _ t2] exI [of _ m2] exI [of _ w] exI [of _ bas]) simp
qed

text \<open>The demonstration target, stopped at an address, steps one instruction.\<close>

theorem single_step_completes_witness:
  "\<exists>t1 t2 m2. step (write_registers (demo_ctx 0x03801000) (demo_target 12 True)) = Inr t1 \<and>
     leave_breakpoint t1 (demo_system True) = Inr (False, demo_ctx 0x03801000, t2, m2) \<and>
     (\<exists>t4 m4. enter_breakpoint (demo_ctx 0x03801004) (hw_reports 4 t2) (overlay_restore False m2) =
        Inr (HardwareBreak, t4, m4) \<and> single_step_request t4 = None \<and> hw_keys (target_hw t4) = {} \<and> suspend_depth m4 = 1)"
proof -
  let ?t = "write_registers (demo_ctx 0x03801000) (demo_target 12 True)"
  have t: "exception_ctx ?t = demo_ctx 0x03801000" "breaks_paused ?t" "single_step_request ?t = None"
    "hw_keys (target_hw ?t) = {}" "freertos (demo_system True)" "suspend_depth (demo_system True) = 1"
    by (simp_all add: write_registers_def demo_target_def demo_system_def)
  have inv: "target_inv demo_mem 0 ?t (demo_system True)"
    using demo_target_inv [of 12 True]
    by (simp add: write_registers_def target_inv_def hw_target_inv_def sched_inv_def pending_keys_def sw_inv_def)
  have al: "unat (program_counter (exception_ctx ?t)) mod instr_align (ps_thumb (cpsr (exception_ctx ?t))) = 0"
    by (simp add: t(1) instr_align_def)
  have st: "method_of_entry 4 = Some Breakpoint"
    by (simp add: method_of_entry_def field_def mask_eq_exp_minus_1 drop_bit_eq_div debug_event_reason_of_def)
  obtain t1 t2 m2 where r: "step ?t = Inr t1" "leave_breakpoint t1 (demo_system True) = Inr (False, exception_ctx ?t, t2, m2)"
    "\<forall>m3 ctx status. spares_breaks t2 (dview m2) (dview m3) \<longrightarrow> freertos m3 = freertos m2 \<longrightarrow>
       suspend_depth m3 = suspend_depth (overlay_restore False m2) \<longrightarrow> wf_context ctx \<longrightarrow> fetchable ctx \<longrightarrow>
       method_of_entry status = Some Breakpoint \<longrightarrow>
       (\<exists>t4 m4. enter_breakpoint ctx (hw_reports status t2) m3 = Inr (HardwareBreak, t4, m4) \<and>
          stopped_again 0 ctx ?t (demo_system True) t4 m4)"
    using single_step_completes [OF inv t(2,3) al] by blast
  have "spares_breaks t2 (dview m2) (dview (overlay_restore False m2))" "freertos (overlay_restore False m2) = freertos m2"
    by (simp_all add: spares_breaks_def overlay_restore_def Let_def)
  then obtain t4 m4 where "enter_breakpoint (demo_ctx 0x03801004) (hw_reports 4 t2) (overlay_restore False m2) = Inr (HardwareBreak, t4, m4)"
    "stopped_again 0 (demo_ctx 0x03801004) ?t (demo_system True) t4 m4"
    using r(3) [rule_format, of "overlay_restore False m2" "demo_ctx 0x03801004" 4] st by auto
  then show ?thesis using r(1,2) t by (auto simp: stopped_again_def)
qed

end
