(* ===== verification/Target_Description.thy ===== *)
theory Target_Description
  imports Sys_Threads
begin

text \<open>
  \<open>target_description_xml\<close> (\<open>src/src/gdb_target/arch/mod.rs\<close>), the registers \<open>target.full.xml\<close> describes to GDB, and
  that description against the code that serves the registers. How GDB reads a description is its documentation:
  a register without a number follows the one before it, and the packet of all registers holds them by number.
  Besides, what the target offers to \<open>gdbstub\<close>, and the memory map, which GDB reads piece by piece.
\<close>

section \<open>The description\<close>

record xml_reg =
  reg_name :: string
  reg_bitsize :: nat
  reg_regnum :: "nat option"

definition xml_regs :: "nat \<Rightarrow> string list \<Rightarrow> xml_reg list" where
  "xml_regs bitsize = map (\<lambda>name. \<lparr>reg_name = name, reg_bitsize = bitsize, reg_regnum = None\<rparr>)"

text \<open>The features \<open>org.gnu.gdb.arm.core\<close>, \<open>org.gnu.gdb.arm.vfp\<close> and \<open>org.gnu.gdb.arm.neon\<close>.\<close>

definition core_feature :: "xml_reg list" where
  "core_feature =
     xml_regs 32 [''r0'', ''r1'', ''r2'', ''r3'', ''r4'', ''r5'', ''r6'', ''r7'', ''r8'', ''r9'', ''r10'', ''r11'', ''r12'',
       ''sp'', ''lr'', ''pc''] @ [\<lparr>reg_name = ''cpsr'', reg_bitsize = 32, reg_regnum = Some 25\<rparr>]"

definition vfp_feature :: "xml_reg list" where
  "vfp_feature =
     xml_regs 64 [''d0'', ''d1'', ''d2'', ''d3'', ''d4'', ''d5'', ''d6'', ''d7'', ''d8'', ''d9'', ''d10'', ''d11'', ''d12'',
       ''d13'', ''d14'', ''d15'', ''d16'', ''d17'', ''d18'', ''d19'', ''d20'', ''d21'', ''d22'', ''d23'', ''d24'', ''d25'',
       ''d26'', ''d27'', ''d28'', ''d29'', ''d30'', ''d31''] @ xml_regs 32 [''fpscr'']"

definition neon_feature :: "xml_reg list" where
  "neon_feature = []"

definition target_description_xml :: "xml_reg list option" where
  "target_description_xml = Some (core_feature @ vfp_feature @ neon_feature)"

section \<open>How GDB reads it\<close>

text \<open>Name, number, place in the packet and size in bytes of each register.\<close>

fun gdb_layout :: "nat \<Rightarrow> nat \<Rightarrow> xml_reg list \<Rightarrow> (string \<times> nat \<times> nat \<times> nat) list" where
  "gdb_layout number offset [] = []"
| "gdb_layout number offset (r # rs) =
     (let n = (case reg_regnum r of Some n \<Rightarrow> n | None \<Rightarrow> number); sz = reg_bitsize r div 8 in
      (reg_name r, n, offset, sz) # gdb_layout (n + 1) (offset + sz) rs)"

definition described_layout :: "(string \<times> nat \<times> nat \<times> nat) list" where
  "described_layout = (case target_description_xml of Some rs \<Rightarrow> gdb_layout 0 0 rs | None \<Rightarrow> [])"

text \<open>What the names stand for.\<close>

definition number_text :: "nat \<Rightarrow> string" where
  "number_text i = map (\<lambda>d. char_of (48 + d)) (if i < 10 then [i] else [i div 10, i mod 10])"

definition register_names :: "(string \<times> arm_register_id) list" where
  "register_names =
     map (\<lambda>i. (CHR ''r'' # number_text i, Gpr (of_nat i))) [0..<13] @
     [(''sp'', Sp), (''lr'', Lr), (''pc'', Pc), (''cpsr'', Cpsr)] @
     map (\<lambda>i. (CHR ''d'' # number_text i, Fpr (of_nat i))) [0..<32] @ [(''fpscr'', Fpscr)]"

section \<open>The two sides\<close>

lemma layout_numbers: "map (\<lambda>(_, n, _, _). n) described_layout = [0..<16] @ [25..<59]"
  by code_simp

lemma layout_names: "map fst described_layout = map fst register_names"
  by code_simp

lemma layout_registers:
  "map (\<lambda>(_, n, _, sz). (from_raw_id n, sz)) described_layout =
     map (\<lambda>(_, reg). (Some (reg, register_size reg), register_size reg)) register_names"
  by code_simp

lemma layout_places: "\<forall>(_, n, off, sz) \<in> set described_layout. off = packet_offset n \<and> off + sz \<le> 328"
  by code_simp

lemma distinct_names: "distinct (map fst register_names)"
  by code_simp

lemma layout_row:
  assumes "(name, n, off, sz) \<in> set described_layout"
  obtains reg where "map_of register_names name = Some reg" "from_raw_id n = Some (reg, sz)" "off = packet_offset n" "off + sz \<le> 328"
proof -
  obtain i where i: "i < length described_layout" "described_layout ! i = (name, n, off, sz)"
    using assms by (auto simp: in_set_conv_nth)
  obtain name' reg where r: "register_names ! i = (name', reg)" by fastforce
  have l: "i < length register_names" using i(1) arg_cong [OF layout_names, of length] by simp
  have "name' = name" using arg_cong [OF layout_names, of "\<lambda>xs. xs ! i"] i r l by simp
  moreover have "from_raw_id n = Some (reg, sz)"
    using arg_cong [OF layout_registers, of "\<lambda>xs. xs ! i"] i r l by simp
  moreover have "(name', reg) \<in> set register_names" using r l by (metis nth_mem)
  ultimately show thesis
    using that [of reg] distinct_names bspec [OF layout_places assms] by (auto intro: map_of_is_SomeI)
qed

lemma layout_total: "sum_list (map (\<lambda>(_, _, _, sz). sz) described_layout) = 328"
  by code_simp

lemma from_raw_id_known: "from_raw_id n \<noteq> None \<longleftrightarrow> n \<in> {0..<16} \<union> {25..<59}"
  by (auto simp: from_raw_id_def)

text \<open>
  C28: The description GDB is given and the code that serves the registers agree. Every register described has the
  number under which the target knows it, and the size; reading it alone answers the bytes at its place in the packet
  of all registers, where GDB looks for it; and the target knows no other number. The places fill the packet.
\<close>
theorem description_matches_target:
  assumes "wf_context c" and "(name, n, off, sz) \<in> set described_layout"
  shows "\<exists>reg. map_of register_names name = Some reg \<and> from_raw_id n = Some (reg, sz) \<and>
           off + sz \<le> length (gdb_serialize c) \<and>
           read_register c reg (replicate sz 0) = Inr (Inr sz, take sz (drop off (gdb_serialize c))) \<and>
           sum_list (map (\<lambda>(_, _, _, sz). sz) described_layout) = length (gdb_serialize c) \<and>
           {n. from_raw_id n \<noteq> None} = set (map (\<lambda>(_, n, _, _). n) described_layout)"
proof -
  obtain reg where r: "map_of register_names name = Some reg" "from_raw_id n = Some (reg, sz)" "off = packet_offset n" "off + sz \<le> 328"
    by (rule layout_row [OF assms(2)])
  moreover have "{n. from_raw_id n \<noteq> None} = set (map (\<lambda>(_, n, _, _). n) described_layout)"
    unfolding layout_numbers from_raw_id_known by (auto simp del: upt_rec_numeral)
  ultimately show ?thesis
    using single_register_matches_packet [OF r(2) assms(1), of "replicate sz 0"] length_gdb_serialize [OF assms(1)]
    by (simp add: layout_total)
qed

theorem description_matches_target_witness:
  "read_register context_default Cpsr [0, 0, 0, 0] = Inr (Inr 4, take 4 (drop 64 (gdb_serialize context_default)))"
proof -
  have "(''cpsr'', 25, 64, 4) \<in> set described_layout" by code_simp
  moreover have "wf_context context_default" by (simp add: wf_context_def context_default_def)
  moreover have "map_of register_names ''cpsr'' = Some Cpsr" by code_simp
  ultimately show ?thesis
    using description_matches_target [of context_default "''cpsr''" 25 64 4] by (auto simp: numeral_eq_Suc)
qed

section \<open>What the target offers\<close>

text \<open>
  The extensions \<open>gdbstub\<close> asks for, one field for each \<open>support_\<close> function. A FreeRTOS build is multi-threaded; both
  kinds of operations offer the same.
\<close>

record target_offers =
  offered_ops :: base_ops
  support_breakpoints :: bool
  support_sw_breakpoint :: bool
  support_hw_breakpoint :: bool
  support_monitor_cmd :: bool
  support_memory_map :: bool
  support_resume :: bool
  support_single_step :: bool
  support_single_register_access :: bool
  support_thread_extra_info :: bool
  use_no_ack_mode :: bool

definition offers :: "'m machine_scheme \<Rightarrow> target_offers" where
  "offers m =
     \<lparr>offered_ops = target_base_ops m, support_breakpoints = True,
      support_sw_breakpoint = True, support_hw_breakpoint = True, support_monitor_cmd = True, support_memory_map = True,
      support_resume = True, support_single_step = True, support_single_register_access = True,
      support_thread_extra_info = (target_base_ops m = MultiThread), use_no_ack_mode = False\<rparr>"

text \<open>Only a multi-threaded target is asked about threads, and only there a thread other than the first is current.\<close>

lemma single_thread_current: "offered_ops (offers m) = SingleThread \<Longrightarrow> current_thread m = Inr 1"
  by (simp add: offers_def target_base_ops_def current_thread_def split: if_splits)

section \<open>The memory map\<close>

text \<open>The regions \<open>memory_map.xml\<close> declares.\<close>

datatype region_type = Rom | Ram

record memory_region =
  region_kind :: region_type
  region_start :: nat
  region_bytes :: nat

definition memory_map :: "memory_region list" where
  "memory_map =
     [\<lparr>region_kind = Rom, region_start = 0x100000, region_bytes = 0x2b00000\<rparr>,
      \<lparr>region_kind = Ram, region_start = 0x02c00000, region_bytes = 0x5400000\<rparr>]"

definition region_of :: "u32 \<Rightarrow> region_type option" where
  "region_of addr =
     map_option region_kind (find (\<lambda>r. region_start r \<le> unat addr \<and> unat addr < region_start r + region_bytes r) memory_map)"

lemma region_of_eq:
  "region_of addr =
     (if unat addr < 0x100000 then None else if unat addr < 0x02c00000 then Some Rom
      else if unat addr < 0x08000000 then Some Ram else None)"
  by (simp add: region_of_def memory_map_def)

text \<open>
  The map and the breakpoints disagree: the first four megabytes of what it calls RAM, where GDB therefore sets software
  breakpoints, are below the address from which the target accepts them.
\<close>

lemma ram_without_breakpoints:
  assumes "0x02c00000 \<le> unat addr" and "unat addr < 0x03000000"
  shows "region_of addr = Some Ram" and "register_sw_breakpoint addr thumb internal t m = Inr (Inl CannotWrite, t, m)"
proof -
  show "region_of addr = Some Ram" using assms by (simp add: region_of_eq)
  have "addr < 0x03000000" using assms(2) by (simp add: word_less_nat_alt)
  then show "register_sw_breakpoint addr thumb internal t m = Inr (Inl CannotWrite, t, m)"
    by (simp add: register_sw_breakpoint_def)
qed

text \<open>How GDB reads the document: from where it is until there is no more.\<close>

fun read_map :: "u8 list \<Rightarrow> nat \<Rightarrow> nat \<Rightarrow> nat \<Rightarrow> u8 list outcome option" where
  "read_map doc len 0 offset = None"
| "read_map doc len (Suc fuel) offset =
     (case memory_map_xml doc offset len (replicate len 0) of
        Inl e \<Rightarrow> Some (Inl e)
      | Inr (count, buf) \<Rightarrow>
          if count = 0 then Some (ok [])
          else map_option (\<lambda>r. and_then r (\<lambda>rest. ok (take count buf @ rest))) (read_map doc len fuel (offset + count)))"

text \<open>
  Whatever the size of the pieces, GDB gets the document, whole, in one piece more than it takes to hold it; an offset
  beyond its end answers nothing.
\<close>

lemma read_map_from:
  "0 < len \<Longrightarrow> offset \<le> length doc \<Longrightarrow> length doc - offset < fuel \<Longrightarrow>
   read_map doc len fuel offset = Some (Inr (drop offset doc))"
proof (induction fuel arbitrary: offset)
  case (Suc fuel)
  let ?n = "min (length doc - offset) len"
  have read: "memory_map_xml doc offset len (replicate len 0) =
      Inr (?n, take ?n (drop offset doc) @ drop ?n (replicate len 0))"
    using Suc.prems(2) by (simp add: memory_map_xml_def Let_def)
  show ?case
  proof (cases "offset = length doc")
    case True
    then show ?thesis using read by simp
  next
    case False
    then have "0 < ?n" "offset + ?n \<le> length doc" "length doc - (offset + ?n) < fuel" using Suc.prems by simp_all
    then have "read_map doc len fuel (offset + ?n) = Some (Inr (drop (offset + ?n) doc))"
      using Suc.IH Suc.prems(1) by blast
    moreover have "take ?n (drop offset doc) @ drop (offset + ?n) doc = drop offset doc"
      by (metis add.commute append_take_drop_id drop_drop)
    ultimately show ?thesis using read \<open>0 < ?n\<close> by simp
  qed
qed simp

lemma read_map_whole: "0 < len \<Longrightarrow> read_map doc len (length doc + 1) 0 = Some (Inr doc)"
  using read_map_from [of len 0 doc "length doc + 1"] by simp

lemma memory_map_beyond: "length doc < offset \<Longrightarrow> memory_map_xml doc offset len buf = Inr (0, buf)"
  by (simp add: memory_map_xml_def)

end
