(* ===== verification/Examples.thy ===== *)
theory Examples
  imports Sdk_Patching
begin

text \<open>
  The functions of the example programs (\<open>src/examples\<close>): the loop a debugging session watches, the motors that spin
  until a breakpoint stops them, and the counter of the loop.
\<close>

section \<open>Fibonacci numbers\<close>

text \<open>The loop of \<open>fib\<close>, on checked 64-bit integers.\<close>

function fib_loop :: "nat \<Rightarrow> nat \<Rightarrow> nat \<Rightarrow> nat \<Rightarrow> nat outcome" where
  "fib_loop n count a b =
     (if count < n then
        and_then (assert_that (a + b < 2 ^ 64) ''fib: overflow'') (\<lambda>_. fib_loop n (count + 1) (a + b) a)
      else ok b)"
  by auto
termination by (relation "measure (\<lambda>(n, count, a, b). n - count)") auto

declare fib_loop.simps [simp del]

definition example_fib :: "nat \<Rightarrow> nat outcome" where
  "example_fib n = fib_loop n 0 1 0"

fun fib :: "nat \<Rightarrow> nat" where
  "fib 0 = 0"
| "fib (Suc 0) = 1"
| "fib (Suc (Suc n)) = fib (Suc n) + fib n"

lemma fib_mono: "fib n \<le> fib (Suc n)"
  by (induction n rule: fib.induct) simp_all

lemma fib_le: "m \<le> n \<Longrightarrow> fib m \<le> fib n"
  by (rule lift_Suc_mono_le [of fib]) (simp_all add: fib_mono)

lemma fib_loop_eq:
  assumes "count \<le> n" and "fib (Suc n) < 2 ^ 64"
  shows "fib_loop n count (fib (Suc count)) (fib count) = Inr (fib n)"
  using assms(1)
proof (induction "n - count" arbitrary: count)
  case 0
  then show ?case by (simp add: fib_loop.simps)
next
  case (Suc k)
  then have "fib (Suc (Suc count)) \<le> fib (Suc n)" by (intro fib_le) simp
  then have "fib (Suc count) + fib count < 2 ^ 64" using assms(2) by simp
  moreover have "count < n" using Suc.hyps(2) by simp
  ultimately show ?case
    using Suc.hyps(1) [of "Suc count"] Suc.hyps(2) by (subst fib_loop.simps) (simp add: add.commute)
qed

text \<open>The number the example prints is the 40th, and it is reached without overflow.\<close>

lemma example_fib_correct: "fib (Suc n) < 2 ^ 64 \<Longrightarrow> example_fib n = Inr (fib n)"
  using fib_loop_eq [of 0 n] by (simp add: example_fib_def)

section \<open>Motors\<close>

fun set_motors :: "int \<Rightarrow> nat list \<Rightarrow> 'b brain_scheme \<Rightarrow> 'b brain_scheme" where
  "set_motors voltage_mv [] b = b"
| "set_motors voltage_mv (port # ports) b =
     (if \<not> device_present b port then set_motors voltage_mv ports b
      else set_motors voltage_mv ports (b\<lparr>motor_mv := (motor_mv b)(port := voltage_mv)\<rparr>))"

definition set_all_motors :: "nat \<Rightarrow> int \<Rightarrow> 'b brain_scheme \<Rightarrow> 'b brain_scheme" where
  "set_all_motors max_device_ports voltage_mv b = set_motors voltage_mv [0..<max_device_ports] b"

definition motor_stop_loop :: "u32 \<Rightarrow> u32" where
  "motor_stop_loop iteration = iteration + 1"

text \<open>The example mirrors the loop of \<open>stop_all_motors\<close>: with a voltage of zero it is that loop.\<close>

lemma set_all_motors_zero: "set_all_motors n 0 b = stop_all_motors n b"
proof -
  have "set_motors 0 ports b = stop_motors ports b" for ports by (induction ports arbitrary: b) simp_all
  then show ?thesis by (simp add: set_all_motors_def stop_all_motors_def)
qed

text \<open>Spinning the motors again undoes a stop on every port that has a device.\<close>

lemma set_motors_after_stop:
  "set_all_motors n v (stop_all_motors n (set_all_motors n v b)) = set_all_motors n v b"
proof -
  have eq: "set_motors v ports b = b\<lparr>motor_mv := (\<lambda>i. if i \<in> set ports \<and> device_present b i then v else motor_mv b i)\<rparr>" for v ports and b :: "'a brain_scheme"
    by (induction ports arbitrary: b) (auto simp: fun_eq_iff intro!: brain.equality)
  show ?thesis
    by (simp add: set_all_motors_zero [symmetric] set_all_motors_def eq) (auto simp: fun_eq_iff intro!: brain.equality)
qed

end
