(* ===== verification/Motor_Properties.thy ===== *)
theory Motor_Properties
  imports Session_Runs
begin

text \<open>
  The motors during a stop (\<open>stop_motors_on_break\<close> of \<open>src/src/debugger/mod.rs\<close> and the commands of the monitor):
  when they are to be stopped, they stand still from the stop until the program goes on.
\<close>

definition motors_off :: "nat \<Rightarrow> 'b brain_scheme \<Rightarrow> bool" where
  "motors_off n b \<longleftrightarrow> (\<forall>p < n. device_present b p \<longrightarrow> motor_mv b p = 0)"

lemma motors_off_stop: "motors_off n (stop_all_motors n b)"
  by (simp add: motors_off_def stop_all_motors_exact)

lemma brain_more:
  assumes "caches.more (b :: 'b brain_scheme) = caches.more b'"
  shows "device_present b = device_present b'" "motor_mv b = motor_mv b'"
  using assms by (cases b; cases b'; simp)+

lemma motors_off_more: "caches.more b' = caches.more b \<Longrightarrow> motors_off n b \<Longrightarrow> motors_off n b'"
  using brain_more [of b' b] by (simp add: motors_off_def)

text \<open>No request of GDB starts a motor.\<close>

lemma callback_motors:
  assumes "gdb_callback env w w'" and "stopped_inv depth w" and "motors_off n (snd w)"
  shows "motors_off n (snd w')"
  using assms
proof (induction rule: gdb_callback.induct)
  case (add_sw b addr kind t r t' b')
  have sw: "sw_inv (dview b) t b" using stopped_invD(9) [OF add_sw(3)] by (simp add: target_inv_def)
  have "caches.more b' = caches.more b"
    by (rule register_sw_breakpoint_total [OF sw add_sw(1), of False])
      (use add_sw(2) in \<open>simp add: gdb_add_sw_breakpoint_def maintains_def\<close>)
  then show ?case using motors_off_more add_sw(4) by simp
next
  case (del_sw addr kind t b r t' b')
  have sw: "sw_inv (dview b) t b" using stopped_invD(9) [OF del_sw(2)] by (simp add: target_inv_def)
  have "caches.more b' = caches.more b"
    by (rule remove_sw_breakpoint_inv [OF sw, of addr False])
      (use del_sw(1) in \<open>auto simp: gdb_remove_sw_breakpoint_def maintains_def\<close>)
  then show ?case using motors_off_more del_sw(3) by simp
next
  case (write_regs regs tid t b t' b')
  then show ?case using mt_write_cases [OF write_regs(2)] motors_off_more by auto
next
  case (write_reg tid r val t b t' b')
  then show ?case using tid_write_cases [OF write_reg(1)] motors_off_more by auto
next
  case (write_mem addr val b r b' t)
  then show ?case using motors_off_more [OF write_addrs_more [OF write_mem(1)]] by simp
next
  case (monitor val t b level out t' b' level')
  have "motor_mv b' p = 0" if "p < n" "device_present b' p" for p
    using monitor_cmd_motors(1) [OF monitor(1)] monitor_cmd_motors(2) [OF monitor(1), of p] monitor(3) that by (auto simp: motors_off_def)
  then show ?case by (simp add: motors_off_def)
qed simp_all

interpretation still: monitor_invariant env "\<lambda>w. stopped_inv depth w \<and> motors_off n (snd w)" for env depth n
proof
  fix w w' :: world
  assume "gdb_callback env w w'" "stopped_inv depth w \<and> motors_off n (snd w)"
  then show "stopped_inv depth w' \<and> motors_off n (snd w')" using callback_keeps callback_motors by blast
qed (simp add: target_inv_monitor_status)

lemma leave_more:
  assumes "stopped_inv depth (t, b)" and "leave_breakpoint t b = Inr (u, ctx, t', b')"
  shows "caches.more b' = caches.more b"
proof -
  let ?t = "t\<lparr>target_hw := relocked (original_hw_lock_state t) (target_hw t)\<rparr>"
  have sw: "sw_inv (dview b) ?t b" using stopped_invD(9) [OF assms(1)] by (simp add: target_inv_def sw_inv_def)
  show ?thesis
    by (rule set_breakpoints_ignored_inv [OF sw, of False])
      (use assms(2) in \<open>simp add: leave_breakpoint_def with_hw_def set_locked_eq Let_def maintains_def\<close>)
qed

lemma motors_off_event:
  assumes "target_inv orig depth (sess_target s) b" and "\<not> breaks_paused (sess_target s)"
    and "wf_context ctx" and "fetchable ctx" and "gdb_polite api env" and "stage s \<noteq> Transitioning"
    and "stop_motors_on_break (sess_target s)"
    and "handle_debug_event fuel api n ctx s b = Some (Inr (unpause, ctx', s', b'))"
  shows "\<forall>p < n. device_present b' p \<longrightarrow> motor_mv b' p = 0"
proof (rule event_start [OF assms(1-4), of n])
  fix action t1 b1 s2 b2
  assume e: "enter_breakpoint ctx (sess_target s) b = Inr (stop_class (program_counter ctx) (sess_target s), t1, b1)"
    "handle_stop (stop_class (program_counter ctx) (sess_target s)) (s\<lparr>sess_target := t1\<rparr>)
       (if stop_motors_on_break t1 then stop_all_motors n b1 else b1) = Inr (action, s2, b2)"
    "stopped_inv depth (sess_target s2, b2)" "stop_motors_on_break t1 = stop_motors_on_break (sess_target s)"
    "caches.more b2 = caches.more (if stop_motors_on_break t1 then stop_all_motors n b1 else b1)"
  have "motors_off n b2" using motors_off_more [OF e(5)] motors_off_stop [of n b1] e(4) assms(7) by simp
  let ?console = "if action = EnterMonitor then run_debug_console fuel api s2 b2 else Some (ok (s2, b2))"
  obtain s3 b3 where c: "?console = Some (Inr (s3, b3))" "leave_breakpoint (sess_target s3) b3 = Inr (unpause, ctx', sess_target s', b')"
    by (rule event_split [OF e(1,2) assms(8)])
  have "stopped_inv depth (sess_target s3, b3) \<and> motors_off n b3"
    using c(1) still.run_console_inv [OF assms(5), of fuel s2 b2 s3 b3 depth n] e(3) \<open>motors_off n b2\<close> by (auto split: if_splits)
  moreover from this have "caches.more b' = caches.more b3"
    using leave_more [OF _ c(2)] by blast
  ultimately show ?thesis using motors_off_more by (auto simp: motors_off_def)
qed



end
