(* ===== verification/Debugger_Interface.thy ===== *)
theory Debugger_Interface
  imports Session_Reachability
begin

text \<open>
  The trait \<open>Debugger\<close> and the installation of any implementation of it (\<open>src/src/lib.rs\<close>), with its two
  implementations: the debugger of the brain and the stub that stands in for it on other processors. What the trait
  asks of an implementation is a locale; the calls the crate makes to an installed debugger are its client.
\<close>

section \<open>Installing a debugger\<close>

text \<open>
  \<open>install_by_ref\<close>, with the initialisation of the debugger given and, as \<open>switch_vectors\<close>, the step that only the
  brain's processor has. The state is the debugger installed, the vectors and the rest of the machine.
\<close>

definition install_dyn ::
  "('v \<Rightarrow> 'v outcome) \<Rightarrow> ('d \<Rightarrow> 'w \<Rightarrow> ('d \<times> 'w) outcome) \<Rightarrow> 'd \<Rightarrow> 'd option \<times> 'v \<Rightarrow> 'w \<Rightarrow> (('d option \<times> 'v) \<times> 'w) outcome" where
  "install_dyn switch_vectors init d = (\<lambda>(current, v) w.
     and_then (assert_that (current = None) ''A debugger is already installed.'') (\<lambda>_.
     and_then (switch_vectors v) (\<lambda>v.
     and_then (init d w) (\<lambda>(d, w). ok ((Some d, v), w)))))"

text \<open>\<open>install\<close> moves the debugger to the heap first, where nothing frees it.\<close>

definition install_on_heap ::
  "('v \<Rightarrow> 'v outcome) \<Rightarrow> ('d \<Rightarrow> 'w \<Rightarrow> ('d \<times> 'w) outcome) \<Rightarrow> 'd \<Rightarrow> 'd option \<times> 'v \<Rightarrow> 'w \<Rightarrow> (('d option \<times> 'v) \<times> 'w) outcome" where
  "install_on_heap switch_vectors init d = install_dyn switch_vectors init d"

text \<open>On the brain this is the installation of \<open>Debug_Session\<close>.\<close>

lemma install_by_ref_dyn:
  "install_by_ref syms table d i b =
     map_sum id (map_prod (\<lambda>(current, v). vectors.extend v \<lparr>installed = current\<rparr>) id)
       (install_dyn (install_vectors table) (initialize syms) d (installed i, vectors.truncate i) b)"
  by (auto simp: install_by_ref_def install_dyn_def and_then_def split: sum.splits)

lemma install_twice: "current \<noteq> None \<Longrightarrow> install_dyn f init d (current, v) w = panic ''A debugger is already installed.''"
  by (cases current) (simp_all add: install_dyn_def)

lemma install_then_installed:
  "install_dyn f init d x w = Inr ((current, v), w') \<Longrightarrow> fst x = None \<and> (\<exists>d'. current = Some d' \<and> init d w = Inr (d', w'))"
  by (auto simp: install_dyn_def and_then_Inr_iff split: prod.splits)

text \<open>
  A debugger of the brain is made once: \<open>V5Debugger::new\<close> claims the packet buffer, a static, and a second claim
  panics. The flag says that the buffer is taken.
\<close>

definition v5_debugger_claim ::
  "bool \<Rightarrow> 'g \<Rightarrow> (u32 \<Rightarrow> debug_logic) \<Rightarrow> devcfg \<Rightarrow> debug_sysregs \<Rightarrow> 'm vmsa_scheme \<Rightarrow>
   (bool \<times> 'g v5_debugger \<times> devcfg \<times> debug_sysregs \<times> 'm vmsa_scheme) outcome" where
  "v5_debugger_claim taken gdb logic_at dc regs m =
     and_then (assert_that (\<not> taken) ''PACKET_BUFFER: already taken'') (\<lambda>_.
     and_then (v5_debugger_new gdb logic_at dc regs m) (\<lambda>made. ok (True, made)))"

lemma v5_debugger_once:
  "v5_debugger_claim False gdb logic_at dc regs m = Inr (taken, made) \<Longrightarrow>
   v5_debugger_claim taken gdb' logic_at' dc' regs' m' = panic ''PACKET_BUFFER: already taken''"
  by (auto simp: v5_debugger_claim_def and_then_Inr_iff)

section \<open>The stub for other processors\<close>

record stub_debugger =
  stub_stop_motors_on_break :: bool

definition stub_new :: stub_debugger where
  "stub_new = \<lparr>stub_stop_motors_on_break = False\<rparr>"

definition with_motor_stop :: "bool \<Rightarrow> stub_debugger \<Rightarrow> stub_debugger" where
  "with_motor_stop enabled d = d\<lparr>stub_stop_motors_on_break := enabled\<rparr>"

definition stub_initialize :: "stub_debugger \<Rightarrow> 'w \<Rightarrow> (stub_debugger \<times> 'w) outcome" where
  "stub_initialize d w = ok (d, w)"

definition stub_handle_debug_event ::
  "debug_event_context \<Rightarrow> stub_debugger \<Rightarrow> 'w \<Rightarrow> (bool \<times> debug_event_context \<times> stub_debugger \<times> 'w) outcome option" where
  "stub_handle_debug_event ctx d w = Some (panic ''not implemented'')"

text \<open>The poll of the trait, which an implementation may leave as it is: it does nothing.\<close>

definition default_poll :: "'d \<Rightarrow> 'd outcome option" where
  "default_poll d = Some (ok d)"

text \<open>Installing the stub leaves the machine and the vectors alone; it takes the place of a debugger, though.\<close>

lemma stub_install:
  "install_dyn ok stub_initialize (with_motor_stop enabled stub_new) (None, v) w =
     ok ((Some \<lparr>stub_stop_motors_on_break = enabled\<rparr>, v), w)"
  by (simp add: install_dyn_def stub_initialize_def with_motor_stop_def stub_new_def)

section \<open>The contract\<close>

text \<open>
  The calls the crate makes: a debug event, after which the program goes on with the scheduler as the debugger wants
  it, and the poll of the timer.
\<close>

datatype debugger_call = Event debug_event_context | Poll

fun serve_calls ::
  "(debug_event_context \<Rightarrow> 'd \<Rightarrow> 'w \<Rightarrow> (bool \<times> debug_event_context \<times> 'd \<times> 'w) outcome option) \<Rightarrow>
   ('d \<Rightarrow> 'd outcome option) \<Rightarrow> (bool \<Rightarrow> 'w \<Rightarrow> 'w) \<Rightarrow> debugger_call list \<Rightarrow> 'd \<times> 'w \<Rightarrow>
   (debug_event_context list \<times> 'd \<times> 'w) outcome option" where
  "serve_calls handle p restore [] (d, w) = Some (ok ([], d, w))"
| "serve_calls handle p restore (Event ctx # calls) (d, w) =
     (case handle ctx d w of
        None \<Rightarrow> None
      | Some (Inl e) \<Rightarrow> Some (Inl e)
      | Some (Inr (unpause, ctx', d, w)) \<Rightarrow>
          map_option (\<lambda>r. and_then r (\<lambda>(restored, x). ok (ctx' # restored, x)))
            (serve_calls handle p restore calls (d, restore unpause w)))"
| "serve_calls handle p restore (Poll # calls) (d, w) =
     (case p d of
        None \<Rightarrow> None
      | Some (Inl e) \<Rightarrow> Some (Inl e)
      | Some (Inr d) \<Rightarrow> serve_calls handle p restore calls (d, w))"

fun call_ok :: "debugger_call \<Rightarrow> bool" where
  "call_ok (Event ctx) \<longleftrightarrow> wf_context ctx \<and> fetchable ctx"
| "call_ok Poll \<longleftrightarrow> True"

text \<open>
  The trait's promise, that the saved state it is given stays valid, with what an implementation keeps between the
  calls.
\<close>

locale debugger_trait =
  fixes handle :: "debug_event_context \<Rightarrow> 'd \<Rightarrow> 'w \<Rightarrow> (bool \<times> debug_event_context \<times> 'd \<times> 'w) outcome option"
    and p :: "'d \<Rightarrow> 'd outcome option"
    and restore :: "bool \<Rightarrow> 'w \<Rightarrow> 'w"
    and live :: "'d \<times> 'w \<Rightarrow> bool"
  assumes handle_live: "live (d, w) \<Longrightarrow> wf_context ctx \<Longrightarrow> fetchable ctx \<Longrightarrow>
      handle ctx d w = Some (Inr (unpause, ctx', d', w')) \<Longrightarrow> live (d', restore unpause w') \<and> wf_context ctx'"
    and poll_live: "live (d, w) \<Longrightarrow> p d = Some (Inr d') \<Longrightarrow> live (d', w)"
begin

lemma calls_live:
  "serve_calls handle p restore calls x = Some (Inr (restored, y)) \<Longrightarrow> list_all call_ok calls \<Longrightarrow> live x \<Longrightarrow>
   live y \<and> list_all wf_context restored"
proof (induction calls arbitrary: x restored)
  case Nil
  then show ?case by (cases x) simp
next
  case (Cons call calls)
  obtain d w where x: "x = (d, w)" by fastforce
  show ?case
  proof (cases call)
    case (Event ctx)
    then obtain unpause ctx' d' w' where h: "handle ctx d w = Some (Inr (unpause, ctx', d', w'))"
      using Cons.prems(1) x by (auto split: option.splits sum.splits)
    then obtain rest where r: "serve_calls handle p restore calls (d', restore unpause w') = Some (Inr (rest, y))"
      "restored = ctx' # rest"
      using Cons.prems(1) x Event by (auto simp: and_then_Inr_iff)
    have "live (d', restore unpause w') \<and> wf_context ctx'"
      using handle_live [OF _ _ _ h] Cons.prems(2,3) x Event by simp
    then show ?thesis using Cons.IH [OF r(1)] r(2) Cons.prems(2) by simp
  next
    case Poll
    then show ?thesis using Cons x poll_live by (auto split: option.splits sum.splits)
  qed
qed

end

text \<open>The debugger of the brain, under any polite \<open>gdbstub\<close>, and the stub.\<close>

definition v5_handle ::
  "nat \<Rightarrow> 'g gdbstub \<Rightarrow> nat \<Rightarrow> debug_event_context \<Rightarrow> 'g v5_debugger \<Rightarrow> brain \<Rightarrow>
   (bool \<times> debug_event_context \<times> 'g v5_debugger \<times> brain) outcome option" where
  "v5_handle fuel api n ctx d b =
     map_option (map_sum id (\<lambda>(unpause, ctx, s, b). (unpause, ctx, d\<lparr>session := s\<rparr>, b)))
       (handle_debug_event fuel api n ctx (session d) b)"

interpretation v5: debugger_trait "v5_handle fuel api n" "poll fuel api" overlay_restore
    "\<lambda>x. gdb_polite api env \<and> system_inv depth x" for fuel api n env depth
proof
  fix d :: "'a v5_debugger" and w ctx unpause ctx' d' w'
  assume live: "gdb_polite api env \<and> system_inv depth (d, w)" and ctx: "wf_context ctx" "fetchable ctx"
    and h: "v5_handle fuel api n ctx d w = Some (Inr (unpause, ctx', d', w'))"
  obtain s' where s: "handle_debug_event fuel api n ctx (session d) w = Some (Inr (unpause, ctx', s', w'))" "d' = d\<lparr>session := s'\<rparr>"
  proof -
    obtain y where y: "handle_debug_event fuel api n ctx (session d) w = Some y" using h by (auto simp: v5_handle_def)
    show thesis using h that by (cases y) (auto simp: v5_handle_def y)
  qed
  have "system_inv depth (d', overlay_restore unpause w')"
    using system_step_keeps [OF debug_event [OF ctx s(1)]] live s(2) by blast
  moreover have "wf_context ctx'"
    using debug_event_keeps [OF _ _ ctx _ _ s(1)] live by (auto simp: system_inv_def)
  ultimately show "(gdb_polite api env \<and> system_inv depth (d', overlay_restore unpause w')) \<and> wf_context ctx'"
    using live by blast
qed (use poll_keeps in blast)

interpretation stub: debugger_trait stub_handle_debug_event default_poll "\<lambda>_ w. w" "\<lambda>_. True"
  by unfold_locales (simp_all add: stub_handle_debug_event_def)

text \<open>
  Any run of events and polls of an installed debugger leaves it sound, and every context it hands back is one the
  assembly can restore.
\<close>

lemma v5_calls_sound:
  assumes "serve_calls (v5_handle fuel api n) (poll fuel api) overlay_restore calls (d, b) = Some (Inr (restored, d', b'))"
    and "list_all call_ok calls" and "gdb_polite api env" and "system_inv depth (d, b)"
  shows "system_inv depth (d', b') \<and> list_all wf_context restored"
  using v5.calls_live [OF assms(1,2), of env depth] assms(3,4) by blast

text \<open>On another processor the first event ends the program.\<close>

lemma stub_event_panics:
  "serve_calls stub_handle_debug_event default_poll (\<lambda>_ w. w) (replicate k Poll @ Event ctx # calls) (d, w) =
     Some (panic ''not implemented'')"
  by (induction k) (simp_all add: stub_handle_debug_event_def default_poll_def)

end
