(* ===== verification/Example_Programs.thy ===== *)
theory Example_Programs
  imports Examples Motor_Properties Debugger_Interface
begin

text \<open>
  The main functions of the example programs (\<open>src/examples\<close>), from the installation of the debugger through the
  breakpoint to what they do for ever after, of which a number of rounds is taken. Printing and sleeping are left out.
\<close>

section \<open>Breaking into the installed debugger\<close>

text \<open>
  \<open>v5gdb::install\<close> and \<open>breakpoint!()\<close> in a row, with what the program does between them: the event goes to the debugger
  that is installed, and the program goes on with the machine as the return from the event leaves it.
\<close>

definition run_to_breakpoint ::
  "sdk_symbols \<Rightarrow> u32 \<Rightarrow> nat \<Rightarrow> 'g gdbstub \<Rightarrow> nat \<Rightarrow> debug_event_context \<Rightarrow> (brain \<Rightarrow> brain) \<Rightarrow> 'g v5_debugger \<Rightarrow>
   'g installation \<Rightarrow> brain \<Rightarrow> brain outcome option" where
  "run_to_breakpoint syms table fuel api n ctx between d i b =
     (case install_by_ref syms table d i b of
        Inl e \<Rightarrow> Some (Inl e)
      | Inr (i, b) \<Rightarrow>
          let b = between b in
          case installed i of
            None \<Rightarrow> Some (panic ''no debugger'')
          | Some d \<Rightarrow>
              map_option (\<lambda>r. and_then r (\<lambda>(unpause, ctx, d, b). ok (overlay_restore unpause b))) (v5_handle fuel api n ctx d b))"

section \<open>motor-stop\<close>

fun motor_rounds :: "nat \<Rightarrow> nat \<Rightarrow> u32 \<times> 'b brain_scheme \<Rightarrow> u32 \<times> 'b brain_scheme" where
  "motor_rounds n 0 x = x"
| "motor_rounds n (Suc k) (iter, b) = motor_rounds n k (motor_stop_loop iter, set_all_motors n 6000 b)"

definition motor_stop_main ::
  "sdk_symbols \<Rightarrow> u32 \<Rightarrow> nat \<Rightarrow> 'g gdbstub \<Rightarrow> nat \<Rightarrow> debug_event_context \<Rightarrow> nat \<Rightarrow> 'g v5_debugger \<Rightarrow>
   'g installation \<Rightarrow> brain \<Rightarrow> (u32 \<times> brain) outcome option" where
  "motor_stop_main syms table fuel api n ctx k d i b =
     map_option (\<lambda>r. and_then r (\<lambda>b. ok (motor_rounds n k (0, b))))
       (run_to_breakpoint syms table fuel api n ctx (set_all_motors n 6000) (with_config True d) i b)"

section \<open>basic and spin\<close>

text \<open>What \<open>basic\<close> prints in its first rounds; \<open>spin\<close> never leaves its loop.\<close>

fun basic_rounds :: "nat \<Rightarrow> nat list outcome" where
  "basic_rounds 0 = ok []"
| "basic_rounds (Suc k) = and_then (example_fib 40) (\<lambda>x. and_then (basic_rounds k) (\<lambda>xs. ok (x # xs)))"

fun spin_round :: "nat \<Rightarrow> unit" where
  "spin_round 0 = ()"
| "spin_round (Suc hints) = spin_round hints"

partial_function (option) busy_spin :: "unit \<Rightarrow> unit option" where
  "busy_spin u = busy_spin (spin_round 50000000)"

text \<open>Both install the debugger and break at once.\<close>

definition basic_main ::
  "sdk_symbols \<Rightarrow> u32 \<Rightarrow> nat \<Rightarrow> 'g gdbstub \<Rightarrow> nat \<Rightarrow> debug_event_context \<Rightarrow> nat \<Rightarrow> 'g v5_debugger \<Rightarrow>
   'g installation \<Rightarrow> brain \<Rightarrow> (nat list \<times> brain) outcome option" where
  "basic_main syms table fuel api n ctx k d i b =
     map_option (\<lambda>r. and_then r (\<lambda>b. and_then (basic_rounds k) (\<lambda>printed. ok (printed, b))))
       (run_to_breakpoint syms table fuel api n ctx (\<lambda>b. b) d i b)"

definition spin_main ::
  "sdk_symbols \<Rightarrow> u32 \<Rightarrow> nat \<Rightarrow> 'g gdbstub \<Rightarrow> nat \<Rightarrow> debug_event_context \<Rightarrow> 'g v5_debugger \<Rightarrow>
   'g installation \<Rightarrow> brain \<Rightarrow> unit outcome option" where
  "spin_main syms table fuel api n ctx d i b =
     (case run_to_breakpoint syms table fuel api n ctx (\<lambda>b. b) d i b of
        None \<Rightarrow> None
      | Some (Inl e) \<Rightarrow> Some (Inl e)
      | Some (Inr b) \<Rightarrow> map_option ok (busy_spin ()))"

section \<open>Facts\<close>

lemma set_all_motors_exact:
  "set_all_motors n v b = b\<lparr>motor_mv := (\<lambda>i. if i < n \<and> device_present b i then v else motor_mv b i)\<rparr>"
proof -
  have "set_motors v ports b = b\<lparr>motor_mv := (\<lambda>i. if i \<in> set ports \<and> device_present b i then v else motor_mv b i)\<rparr>"
    for ports and b :: "'a brain_scheme"
    by (induction ports arbitrary: b) (auto simp: fun_eq_iff intro!: brain.equality)
  then show ?thesis by (simp add: set_all_motors_def)
qed

lemma system_inv_motors: "system_inv depth (d, set_all_motors n v b) = system_inv depth (d, b)"
  by (simp add: system_inv_def set_all_motors_exact target_inv_def sw_inv_def sched_inv_def)

lemma motor_rounds_Suc:
  "fst (motor_rounds n k (iter, b)) = iter + of_nat k"
  "snd (motor_rounds n (Suc k) (iter, b)) = set_all_motors n 6000 b"
proof -
  have twice: "set_all_motors n v (set_all_motors n v b) = set_all_motors n v b" for v and b :: "'b brain_scheme"
    by (auto simp: set_all_motors_exact fun_eq_iff intro!: brain.equality)
  show "fst (motor_rounds n k (iter, b)) = iter + of_nat k"
    by (induction k arbitrary: iter b) (simp_all add: motor_stop_loop_def)
  show "snd (motor_rounds n (Suc k) (iter, b)) = set_all_motors n 6000 b"
    by (induction k arbitrary: iter b) (simp_all add: twice)
qed

lemma install_takes_config:
  "install_by_ref syms table d i b = Inr (i', b') \<Longrightarrow> installed i' = Some d' \<Longrightarrow>
   stop_motors_on_break (sess_target (session d')) = config_stop_motors d"
  by (auto simp: install_by_ref_def initialize_def and_then_Inr_iff vectors.defs)

text \<open>
  What the example is to show: whatever the debugger is told at the breakpoint, every motor the program set spinning
  stands still when the program goes on, and spins again after the first round of its loop.
\<close>

lemma motor_stop_example:
  assumes "install_by_ref syms table (with_config True d) i b = Inr (i', b')" and "installed i' = Some d'"
    and "system_inv depth (d', b')" and "gdb_polite api env" and "wf_context ctx" and "fetchable ctx"
    and "motor_stop_main syms table fuel api n ctx k d i b = Some (Inr (iter, b''))"
  shows "iter = of_nat k" and "\<forall>p < n. device_present b'' p \<longrightarrow> motor_mv b'' p = (if k = 0 then 0 else 6000)"
proof -
  let ?b = "set_all_motors n 6000 b'"
  obtain b1 where r: "run_to_breakpoint syms table fuel api n ctx (set_all_motors n 6000) (with_config True d) i b = Some (Inr b1)"
    "(iter, b'') = motor_rounds n k (0, b1)"
    using assms(7) by (auto simp: motor_stop_main_def and_then_Inr_iff)
  obtain unpause ctx' d1 b2 where h: "v5_handle fuel api n ctx d' ?b = Some (Inr (unpause, ctx', d1, b2))" "b1 = overlay_restore unpause b2"
    using r(1) assms(1,2) by (auto simp: run_to_breakpoint_def and_then_Inr_iff)
  obtain s' where s: "handle_debug_event fuel api n ctx (session d') ?b = Some (Inr (unpause, ctx', s', b2))"
    using h(1) by (cases "handle_debug_event fuel api n ctx (session d') ?b"; cases "the (handle_debug_event fuel api n ctx (session d') ?b)")
      (auto simp: v5_handle_def)
  have inv: "system_inv depth (d', ?b)" using assms(3) by (simp add: system_inv_motors)
  have stop: "stop_motors_on_break (sess_target (session d'))"
    using install_takes_config [OF assms(1,2)] by (simp add: with_config_def)
  have "\<forall>p < n. device_present b2 p \<longrightarrow> motor_mv b2 p = 0"
    using inv motors_off_event [OF _ _ assms(5,6,4) _ stop s] by (auto simp: system_inv_def)
  then have off: "\<forall>p < n. device_present b1 p \<longrightarrow> motor_mv b1 p = 0"
    by (simp add: h(2) overlay_restore_def Let_def)
  show "iter = of_nat k" using r(2) motor_rounds_Suc(1) [of n k 0 b1] by (metis fst_conv add_0)
  show "\<forall>p < n. device_present b'' p \<longrightarrow> motor_mv b'' p = (if k = 0 then 0 else 6000)"
  proof (cases k)
    case 0
    then show ?thesis using r(2) off by simp
  next
    case (Suc k')
    then have "b'' = set_all_motors n 6000 b1" using r(2) motor_rounds_Suc(2) [of n k' 0 b1] by (metis snd_conv)
    then show ?thesis using Suc by (simp add: set_all_motors_exact)
  qed
qed

text \<open>The 40th number, ten at a time.\<close>

lemma fib_ten:
  assumes "fib n = a" and "fib (Suc n) = b"
  shows "fib (n + 10) = 34 * a + 55 * b" and "fib (Suc (n + 10)) = 55 * a + 89 * b"
  using assms by (simp_all add: numeral_eq_Suc)

lemma fib_40: "fib 40 = 102334155" "fib (Suc 40) = 165580141"
proof -
  note f10 = fib_ten [OF fib.simps(1,2), simplified add_0]
  note f20 = fib_ten [OF f10]
  note f30 = fib_ten [OF f20]
  note f40 = fib_ten [OF f30]
  show "fib 40 = 102334155" "fib (Suc 40) = 165580141" using f40 by (simp_all del: fib.simps)
qed

lemma basic_prints: "basic_rounds k = Inr (replicate k 102334155)"
proof -
  have "fib (Suc 40) < 2 ^ 64" unfolding fib_40 by simp
  from example_fib_correct [OF this] have "example_fib 40 = Inr 102334155" unfolding fib_40 .
  then show ?thesis by (induction k) simp_all
qed

lemma busy_spin_stays: "busy_spin u = None"
proof -
  have "busy_spin u = Some y \<Longrightarrow> False" for y
    using busy_spin.raw_induct [of "\<lambda>_ _. False" u y] by blast
  then show ?thesis by (cases "busy_spin u") auto
qed

text \<open>What \<open>basic\<close> prints does not depend on the debugger, and \<open>spin\<close> is left to Ctrl-C: it never ends of itself.\<close>

lemma basic_main_prints:
  "basic_main syms table fuel api n ctx k d i b = Some (Inr (printed, b')) \<Longrightarrow> printed = replicate k 102334155"
  by (auto simp: basic_main_def basic_prints and_then_Inr_iff)

lemma spin_main_stays: "spin_main syms table fuel api n ctx d i b \<noteq> Some (Inr u)"
  by (simp add: spin_main_def busy_spin_stays split: option.splits sum.splits)

end
