(* ===== verification/Spec2Isabelle.thy ===== *)
theory Spec2Isabelle
  imports Sw_Properties Cpu_Debug Hw_Properties Memory_Access Registers Target_Properties
    Thread_Properties Transport_Mux Monitor_Properties Sdk_Patching Install_Properties Lost_Writes
    Host_Proxy Panic_Screen C_Interface System_Contract Build_Tool Hardware_Test Whole_Event
    Coprocessor Host_Start Pros_Template Sdk_Trampoline Exported_Handlers Transport_Contract
    Step_Properties Target_Description Example_Programs
begin

text \<open>
  v5gdb, an on-device GDB debugger for VEX V5 programs, written in Rust for the Cortex-A9 of the
  Zynq-7000. It is linked into the program: exception vectors installed by the crate save the
  processor's state when a debug event happens and call the debugger, which serves GDB over the
  serial port until the program is to go on.

  \<^bold>\<open>The parts and how they interact.\<close> \<open>install_by_ref\<close> (\<open>src/src/lib.rs\<close>) switches the vectors
  (\<open>exceptions\<close>) and calls \<open>Debugger::initialize\<close> of \<open>V5Debugger\<close> (\<open>debugger\<close>), which sets the
  internal breakpoint on the exit request and redirects the competition status function (\<open>sdk\<close>). A
  debug event is \<open>V5Debugger::handle_debug_event\<close>: the target (\<open>gdb_target\<close>) is entered, which takes
  the software breakpoints out of memory, suspends the scheduler and classifies the stop; the session
  decides whether the stop is the user's; if it is, the console loop drives the protocol engine
  \<open>gdbstub\<close>, whose callbacks read and write memory, registers, breakpoints and threads; then the target
  is left, which puts the breakpoints back, and \<open>overlay.s\<close> resumes the scheduler if no step is
  pending. Between events a timer interrupt polls the connection for a Ctrl-C.

  \<^bold>\<open>Theories and sources.\<close>
  \<^item> \<open>Prelude\<close>: the outcome monad (a panic is \<open>Inl\<close> with the place), byte and word lemmas, loads and
    stores on memory as a function of addresses, bit fields, overflow-checked and saturating
    arithmetic.
  \<^item> \<open>Cpu_Cache\<close> (\<open>cpu/cache.rs\<close>): memory as the data side, the point of unification and the fetches
    see it. \<open>Cpu_Instruction\<close> (\<open>cpu/instruction.rs\<close>), \<open>Cpu_Debug\<close> (\<open>cpu/debug.rs\<close>), \<open>Cpu_Vmsa\<close>
    (\<open>cpu/vmsa.rs\<close>), \<open>Coprocessor\<close> (the \<open>mrc\<close> and \<open>mcr\<close> accesses of these files, on a register file
    of which the records of the other theories are abstractions), \<open>Registers\<close> (\<open>cpu/mod.rs\<close>, \<open>cpu/exception.rs\<close>, \<open>exceptions/mod.rs\<close>,
    \<open>gdb_target/single_register_access.rs\<close>), \<open>Gdb_Arch\<close>, \<open>Target_Description\<close>
    (\<open>gdb_target/arch\<close>: the breakpoint kinds and register numbers, and the two documents GDB is given).
  \<^item> \<open>Breakpoint_Store\<close>: the interface of both breakpoint tables, a locale, which \<open>Sw_Breakpoints\<close>
    (\<open>breakpoint/software.rs\<close>) and \<open>Hw_Breakpoints\<close> (\<open>breakpoint/hardware.rs\<close>) interpret.
  \<^item> \<open>Memory_Access\<close> (\<open>gdb_target/memory.rs\<close>), \<open>Gdb_Target\<close> (\<open>gdb_target/mod.rs\<close>, \<open>resume.rs\<close>).
  \<^item> \<open>Saved_Context\<close>, \<open>Sys_Threads\<close> (\<open>sys/\<close>, \<open>gdb_target/thread.rs\<close>): the contexts FreeRTOS saves on the
    tasks' stacks, byte by byte, the threads GDB sees and the actions of a \<open>vCont\<close> packet; \<open>Thread_Properties\<close> holds the locale of a
    register file and its interpretation on a switched-out task. \<open>System_Contract\<close> is the trait
    \<open>DebuggerSystem\<close> as a locale, with the bare system and FreeRTOS as its interpretations.
  \<^item> \<open>Serial\<close>, \<open>Transport_Mux\<close> (\<open>sdk/mod.rs\<close>, \<open>transport/\<close>): the serial channel and the framing of two
    channels on it. \<open>Transport_Contract\<close> is the trait \<open>Transport\<close> as a locale, with the serial line and the
    callbacks of a C program as its interpretations, and the poll for Ctrl-C over any of them.
  \<^item> \<open>Sdk_Patching\<close> (\<open>sdk/mod.rs\<close>, \<open>sdk/competition.rs\<close>), \<open>Sdk_Trampoline\<close> (\<open>sdk/sdk_trampoline.s\<close>),
    \<open>Monitor\<close> (\<open>gdb_target/monitor.rs\<close>).
  \<^item> \<open>Debug_Session\<close> (\<open>debugger/mod.rs\<close>, \<open>exceptions/mod.rs\<close>, \<open>lib.rs\<close>). \<open>Debugger_Interface\<close> (\<open>lib.rs\<close>) is the trait
    \<open>Debugger\<close> as a locale, with the debugger of the brain and the stub for other processors as its interpretations.
  \<^item> \<open>Exception_Entry\<close> (\<open>exceptions/overlay.s\<close>): the assembly that saves and restores the program,
    instruction by instruction, on the banked registers of the processor, and the stack set up for it.
    \<open>Exported_Handlers\<close> (\<open>exceptions/mod.rs\<close>) are the two functions it calls, on the statics of the crate;
    \<open>Whole_Event\<close> joins both.
  \<^item> \<open>Host_Proxy\<close>, \<open>Host_Start\<close> (\<open>cli/src/bin/v5gdb.rs\<close>): the proxy on the host, and its \<open>main\<close>, which
    starts it beside GDB and waits. \<open>C_Interface\<close>, \<open>Panic_Screen\<close> (\<open>ffi/src\<close>): the interface for C programs, its installers and
    logger, and the panic report.
  \<^item> \<open>Build_Tool\<close>, \<open>Pros_Template\<close> (\<open>xtask/src/main.rs\<close>, \<open>tests/common\<close>, \<open>ffi/build.rs\<close>), \<open>Hardware_Test\<close>
    (\<open>tests/hardware.rs\<close>, run on the model of the manager), \<open>Examples\<close>, \<open>Example_Programs\<close> (\<open>examples\<close>).

  \<^bold>\<open>State.\<close> Records follow the structs: \<open>v5_breaks\<close> and \<open>v5_target\<close> are \<open>V5Target\<close>; \<open>hw_manager\<close> with its
  register block is \<open>HwBreakpointManager\<close>; \<open>debug_session\<close> and \<open>v5_debugger\<close> their namesakes. What the
  code reaches through pointers, coprocessor registers and the SDK is a second record that grows with
  the components: \<open>caches\<close> (memory), \<open>vmsa\<close> (translation), \<open>machine\<close> (scheduler and interrupt mask),
  \<open>brain\<close> (devices and competition status). Operations return the states updated.

  \<^bold>\<open>What the lemmas show.\<close>
  \<^item> \<open>Sw_Breakpoints\<close>, \<open>Sw_Properties\<close>: memory is the program with the enabled breakpoints over it
    (\<open>overlay\<close>, \<open>sw_inv\<close>), kept by every operation; registering, removing, pausing and resuming on every
    branch. \<open>Lost_Writes\<close>: what becomes of an instruction GDB writes under a breakpoint.
  \<^item> \<open>Hw_Breakpoints\<close>, \<open>Hw_Properties\<close>: the comparators hold a bounded set of breakpoints (\<open>hw_inv\<close>,
    \<open>hw_keys\<close>), which the operations refine, and one always stays free for a step or an interrupt.
  \<^item> \<open>Target_Properties\<close>: the target's invariant (\<open>target_inv\<close>) through entry, exit, step and interrupt.
  \<^item> \<open>Session_Properties\<close>: the requests of GDB as a step relation (\<open>gdb_callback\<close>) that keeps the
    invariant; the console and whole events. \<open>Session_Runs\<close>: events, exit and poll.
    \<open>Session_Reachability\<close>, \<open>Install_Properties\<close>: installation establishes the invariant, and program,
    hardware, timer and events in any order keep it.
    The locale \<open>monitor_invariant\<close> carries what the callbacks keep through the console; it is interpreted on the
    invariant of the stopped program and, in \<open>Motor_Properties\<close>, on the motors standing still besides.
  \<^item> \<open>Step_Properties\<close>: a single step from the request to the report of the stop behind it, and the breakpoint a
    program sets itself. \<open>Target_Description\<close>: what GDB is told of the registers is what the target serves.
    \<open>Example_Programs\<close>: what the examples set out to show.
  \<^item> \<open>Thread_Properties\<close>, \<open>Transport_Mux\<close>, \<open>Sdk_Patching\<close>, \<open>Monitor_Properties\<close>: see their headers.
  \<^item> \<open>Host_Proxy\<close> continues \<open>Transport_Mux\<close> to the host: what a channel is given on the device comes out
    of it there, and what GDB sends goes the other way. \<open>Panic_Screen\<close>: line breaking against a specification. \<open>C_Interface\<close>: installing twice
    panics, a session on the serial line redirects the program's four serial functions.
  \<^item> \<open>Exception_Properties\<close>: the frame the assembly pushes is the \<open>DebugEventContext\<close> of the Rust code, the
    program goes on with the registers left in it, other aborts and interrupts pass through unchanged.
    \<open>Exported_Handlers\<close>: the handlers are steps of the reachable system. \<open>Whole_Event\<close>: an event from the abort to
    the return, with the Rust code in between. \<open>Sdk_Trampoline\<close>: a call of a redirected function arrives.

  \<^bold>\<open>Parameters.\<close> Third-party code and what cannot be read is an argument: \<open>gdbstub\<close> (its transitions,
  with the hypothesis \<open>gdb_polite\<close> that they change the target through its callbacks only), the COBS
  encoder (\<open>encodes\<close>: a finished frame decodes to the bytes pushed, a refused push leaves the frame
  finishable) and decoder (\<open>decodes\<close>: a frame is reported whole with its length, wherever it is cut), the
  callbacks of a C transport, FreeRTOS (the task statuses), VEXos (serial functions, devices, battery, controllers),
  the places of linked functions, \<open>Debug\<close> output of derived implementations, the devices and executables
  the host finds, the processes the build tool runs. The assembly calls \<open>handle_debug_event\<close>,
  \<open>xTaskResumeAll\<close> and the interrupt poll; they are arguments of its model, with the procedure call standard
  as hypotheses (\<open>runs_handler\<close>, \<open>resumes\<close>, \<open>keeps_callee_saved\<close>). Each such hypothesis is
  instantiated in a witness.

  \<^bold>\<open>Panics and fuel.\<close> The model is of a development build: \<open>debug_assert\<close>, arithmetic overflow and the
  checks of pointer alignment and null are panics. Loops that depend on the outside take fuel and are
  None without it: the console needs two rounds more than the messages GDB sends (\<open>exit_with_client_reported\<close>
  needs two in all), the poll one round per byte and one to see there is none, the proxy one per byte of a read and one, writing to a channel one
  round per byte at most, and inside it the rounds in which the serial buffer drains, and the name of a
  task its length and one.

  \<^bold>\<open>Not modelled.\<close> Log output, and the text a \<open>Debug\<close> implementation or a formatted print makes of a value; the
  background processing of VEXos that waiting loops call (\<open>vexTasksRun\<close>), and the endless loop after a panic report;
  the wait of the host on systems that have neither kind of signal; finding the tests in \<open>xtask\<close>; the inside of cargo,
  zip and cbindgen; the type plumbing of traits whose only content is to hand on \<open>self\<close>; two overlapping entries into
  the debugger, which the lock around the session serialises.
\<close>

end
